(* ===== verification/Prelude.thy ===== *)
theory Prelude
  imports Complex_Main "HOL-Library.List_Lexorder" "HOL-Library.Char_ord"
    "HOL-Library.Multiset" "HOL-Library.AList"
begin

text \<open>
  Shared vocabulary of the development: results of fallible Go functions, the loops that
  stop at the first error, Go maps as association lists, and the generic lemmas the
  component theories rest on. The collection \<open>result_iff\<close> rewrites "this computation
  returned normally" into the conditions it went through; \<open>gomap_simps\<close> holds the laws
  of maps.
\<close>

named_theorems result_iff \<open>successful results, decomposed\<close>
named_theorems gomap_simps \<open>laws of Go maps\<close>

section \<open>Fallible computations\<close>

text \<open>
  A Go function returning \<open>(T, error)\<close> is a function into \<open>'e + 't\<close>: \<open>Inl e\<close> is the
  early return with a non-nil error, \<open>Inr v\<close> the normal one. \<open>rbind\<close> is the
  \<open>if err != nil { return err }\<close> idiom and \<open>require\<close> a guard that returns \<open>e\<close>
  unless its condition holds.
\<close>

definition rbind :: "'e + 'a \<Rightarrow> ('a \<Rightarrow> 'e + 'b) \<Rightarrow> 'e + 'b" where
  "rbind r f = (case r of Inl e \<Rightarrow> Inl e | Inr x \<Rightarrow> f x)"

definition require :: "bool \<Rightarrow> 'e \<Rightarrow> 'e + unit" where
  "require c e = (if c then Inr () else Inl e)"

lemma rbind_simps [simp]:
  "rbind (Inl e) f = Inl e"
  "rbind (Inr x) f = f x"
  by (simp_all add: rbind_def)

lemma require_simps [simp]:
  "require True e = Inr ()"
  "require False e = Inl e"
  by (simp_all add: require_def)

lemma rbind_Inr_iff [result_iff]:
  "rbind r f = Inr y \<longleftrightarrow> (\<exists>x. r = Inr x \<and> f x = Inr y)"
  by (cases r) auto

lemma rbind_Inl_iff:
  "rbind r f = Inl e \<longleftrightarrow> r = Inl e \<or> (\<exists>x. r = Inr x \<and> f x = Inl e)"
  by (cases r) auto

lemma require_Inr_iff [result_iff]: "require c e = Inr u \<longleftrightarrow> c"
  by (simp add: require_def)

lemma require_Inl_iff: "require c e = Inl e' \<longleftrightarrow> \<not> c \<and> e' = e"
  by (auto simp: require_def)

lemma rbind_cong [fundef_cong]:
  "r = r' \<Longrightarrow> (\<And>x. r' = Inr x \<Longrightarrow> f x = f' x) \<Longrightarrow> rbind r f = rbind r' f'"
  by (cases r') auto

lemma if_Inl_Inr_iff [result_iff]:
  "(if c then Inl e else r) = Inr y \<longleftrightarrow> \<not> c \<and> r = Inr y"
  by simp

section \<open>Loops that stop at the first error\<close>

text \<open>
  \<open>for_each\<close> is a \<open>for range\<close> loop whose body may return an error; \<open>map_result\<close>
  is the loop that also appends the body's value to a slice.
\<close>

fun for_each :: "('a \<Rightarrow> 'e + unit) \<Rightarrow> 'a list \<Rightarrow> 'e + unit" where
  "for_each f [] = Inr ()"
| "for_each f (x # xs) = rbind (f x) (\<lambda>_. for_each f xs)"

fun map_result :: "('a \<Rightarrow> 'e + 'b) \<Rightarrow> 'a list \<Rightarrow> 'e + 'b list" where
  "map_result f [] = Inr []"
| "map_result f (x # xs) = rbind (f x) (\<lambda>y. rbind (map_result f xs) (\<lambda>ys. Inr (y # ys)))"

lemma for_each_Inr_iff [result_iff]:
  "for_each f xs = Inr u \<longleftrightarrow> (\<forall>x \<in> set xs. f x = Inr ())"
  by (induction xs) (auto simp: rbind_Inr_iff)

lemma for_each_Inl_mem: "for_each f xs = Inl e \<Longrightarrow> \<exists>x \<in> set xs. f x = Inl e"
  by (induction xs) (auto simp: rbind_Inl_iff)

lemma map_result_Inr_iff [result_iff]:
  "map_result f xs = Inr ys \<longleftrightarrow> list_all2 (\<lambda>x y. f x = Inr y) xs ys"
  by (induction xs arbitrary: ys) (auto simp: rbind_Inr_iff list_all2_Cons1)

lemma map_result_Inl_mem: "map_result f xs = Inl e \<Longrightarrow> \<exists>x \<in> set xs. f x = Inl e"
  by (induction xs) (auto simp: rbind_Inl_iff)

lemma map_result_length: "map_result f xs = Inr ys \<Longrightarrow> length ys = length xs"
  by (simp add: map_result_Inr_iff list_all2_lengthD)

lemma map_result_cong [fundef_cong]:
  "xs = ys \<Longrightarrow> (\<And>x. x \<in> set ys \<Longrightarrow> f x = g x) \<Longrightarrow> map_result f xs = map_result g ys"
  by (induction ys arbitrary: xs) auto

lemma for_each_cong [fundef_cong]:
  "xs = ys \<Longrightarrow> (\<And>x. x \<in> set ys \<Longrightarrow> f x = g x) \<Longrightarrow> for_each f xs = for_each g ys"
  by (induction ys arbitrary: xs) auto

section \<open>Lists related element by element\<close>

lemma list_all2_quantifiers:
  assumes "list_all2 (\<lambda>x y. P y = Q x) xs ys"
  shows "list_all P ys = list_all Q xs" and "list_ex P ys = list_ex Q xs"
  using assms by (induction rule: list_all2_induct) auto

lemma list_all2_hd:
  "list_all2 R xs ys \<Longrightarrow> xs \<noteq> [] \<Longrightarrow> R (hd xs) (hd ys)"
  by (cases xs; cases ys) auto

lemma find_SomeD: "List.find P xs = Some x \<Longrightarrow> x \<in> set xs \<and> P x"
  by (auto simp: find_Some_iff)

lemma list_all2_member: "list_all2 R xs ys \<Longrightarrow> y \<in> set ys \<Longrightarrow> \<exists>x \<in> set xs. R x y"
  by (induction rule: list_all2_induct) auto

lemma list_all2_find:
  assumes "list_all2 (\<lambda>x y. P x = Q y \<and> h x = g y) xs ys"
  shows "map_option h (List.find P xs) = map_option g (List.find Q ys)"
  using assms by (induction rule: list_all2_induct) auto

lemma map_eq_list_all2: "map f xs = map g ys \<longleftrightarrow> list_all2 (\<lambda>x y. f x = g y) xs ys"
  by (induction xs arbitrary: ys) (auto simp: list_all2_Cons1)

section \<open>Go maps\<close>

text \<open>
  A Go \<open>map[K]V\<close> is an association list with distinct keys: the list order stands for the
  iteration order the runtime happens to choose, \<open>map_of\<close> is the lookup \<open>v, ok := m[k]\<close>,
  \<open>length\<close> is \<open>len(m)\<close> and \<open>AList.update\<close> the assignment \<open>m[k] = v\<close>.
  \<open>same_gomap\<close> relates two lists that stand for the same map under different iteration
  orders.
\<close>

type_synonym ('k, 'v) gomap = "('k \<times> 'v) list"

definition gomap_ok :: "('k, 'v) gomap \<Rightarrow> bool" where
  "gomap_ok m \<longleftrightarrow> distinct (map fst m)"

definition sorted_keys :: "('k::linorder, 'v) gomap \<Rightarrow> 'k list" where
  "sorted_keys m = sort (map fst m)"

definition has_key :: "('k, 'v) gomap \<Rightarrow> 'k \<Rightarrow> bool" where
  "has_key m k \<longleftrightarrow> map_of m k \<noteq> None"

definition same_gomap :: "('k, 'v) gomap \<Rightarrow> ('k, 'v) gomap \<Rightarrow> bool" where
  "same_gomap m m' \<longleftrightarrow> gomap_ok m \<and> mset m = mset m'"

lemma has_key_iff [gomap_simps]: "has_key m k \<longleftrightarrow> k \<in> fst ` set m"
  by (simp add: has_key_def map_of_eq_None_iff)

lemma set_sorted_keys [gomap_simps]: "set (sorted_keys m) = fst ` set m"
  by (simp add: sorted_keys_def)

lemma sorted_sorted_keys [gomap_simps]: "sorted (sorted_keys m)"
  by (simp add: sorted_keys_def)

lemma length_sorted_keys [gomap_simps]: "length (sorted_keys m) = length m"
  by (simp add: sorted_keys_def)

lemma distinct_sorted_keys [gomap_simps]: "distinct (sorted_keys m) \<longleftrightarrow> gomap_ok m"
  by (simp add: sorted_keys_def gomap_ok_def)

lemma map_of_key_ex: "k \<in> fst ` set m \<Longrightarrow> \<exists>v. map_of m k = Some v"
  using has_key_iff [of m k] by (auto simp: has_key_def)

lemma for_each_keys_iff:
  "for_each f (sorted_keys m) = Inr u \<longleftrightarrow> (\<forall>k v. map_of m k = Some v \<longrightarrow> f k = Inr ())"
proof -
  have "(\<forall>k \<in> fst ` set m. f k = Inr ()) \<longleftrightarrow> (\<forall>k v. map_of m k = Some v \<longrightarrow> f k = Inr ())"
    by (metis domIff dom_map_of_conv_image_fst option.exhaust_sel option.distinct(1))
  then show ?thesis by (simp only: for_each_Inr_iff set_sorted_keys)
qed

lemma gomap_ok_update [gomap_simps]: "gomap_ok m \<Longrightarrow> gomap_ok (AList.update k v m)"
  by (simp add: gomap_ok_def distinct_update)

lemma map_of_update [gomap_simps]: "map_of (AList.update k v m) = (map_of m)(k \<mapsto> v)"
  by (simp add: update_conv')

lemma keys_update [gomap_simps]:
  "fst ` set (AList.update k v m) = insert k (fst ` set m)"
  using dom_update [of k v m] by (auto simp: dom_map_of_conv_image_fst)

lemma length_update [gomap_simps]:
  "length (AList.update k v m) = (if has_key m k then length m else Suc (length m))"
  by (induction m) (auto simp: has_key_iff)

lemma same_gomap_ok: "same_gomap m m' \<Longrightarrow> gomap_ok m'"
  unfolding same_gomap_def gomap_ok_def
  by (metis image_mset_union mset_eq_imp_distinct_iff mset_map)

lemma same_gomap_sym: "same_gomap m m' \<Longrightarrow> same_gomap m' m"
  using same_gomap_ok [of m m'] by (simp add: same_gomap_def)

lemma same_gomap_refl: "gomap_ok m \<Longrightarrow> same_gomap m m"
  by (simp add: same_gomap_def)

lemma same_gomap_map_of: "same_gomap m m' \<Longrightarrow> map_of m = map_of m'"
proof -
  assume same: "same_gomap m m'"
  then have "distinct (map fst m)" "distinct (map fst m')"
    using same_gomap_ok [of m m'] by (auto simp: same_gomap_def gomap_ok_def)
  moreover from same have "set m = set m'"
    by (auto simp: same_gomap_def dest: mset_eq_setD)
  ultimately show ?thesis by (rule map_of_inject_set [THEN iffD2])
qed

lemma same_gomap_length: "same_gomap m m' \<Longrightarrow> length m = length m'"
  by (auto simp: same_gomap_def dest: mset_eq_length)

lemma same_gomap_sorted_keys: "same_gomap m m' \<Longrightarrow> sorted_keys m = sorted_keys m'"
proof -
  assume "same_gomap m m'"
  then have "mset (map fst m) = mset (map fst m')"
    by (simp add: same_gomap_def)
  then show ?thesis
    by (simp add: sorted_keys_def properties_for_sort)
qed

lemma same_gomap_sorted: "same_gomap m m' \<Longrightarrow> sort_key fst m = sort_key fst m'"
  for m :: "('k :: linorder, 'v) gomap"
proof (rule properties_for_sort_key)
  assume same: "same_gomap m m'"
  then show "mset (sort_key fst m') = mset m" by (simp add: same_gomap_def)
  have distinct: "distinct (map fst m')" "distinct (map fst m)"
    using same same_gomap_ok [OF same] by (simp_all add: same_gomap_def gomap_ok_def)
  fix x assume x: "x \<in> set (sort_key fst m')"
  have unique: "filter (\<lambda>y. fst x = fst y) l = [x]" if "distinct (map fst l)" "x \<in> set l" for l :: "('k \<times> 'v) list"
    using that by (induction l) (auto simp: filter_empty_conv image_iff)
  from same x have "x \<in> set m" by (auto simp: same_gomap_def dest: mset_eq_setD)
  moreover have "distinct (map fst (sort_key fst m'))"
    using distinct(1) by (metis distinct_map distinct_sort inj_on_subset set_sort subset_refl)
  ultimately show "filter (\<lambda>y. fst x = fst y) (sort_key fst m') = filter (\<lambda>y. fst x = fst y) m"
    using unique x distinct(2) by simp
qed simp

lemmas same_gomap_laws = same_gomap_map_of same_gomap_length same_gomap_sorted_keys

lemma gomap_keys_card: "gomap_ok m \<Longrightarrow> card (fst ` set m) = length m"
  by (metis distinct_card gomap_ok_def length_map list.set_map)

lemma gomap_ok_append:
  "gomap_ok (m @ m') \<longleftrightarrow> gomap_ok m \<and> gomap_ok m' \<and> (\<forall>k. map_of m k = None \<or> map_of m' k = None)"
  by (auto simp: gomap_ok_def map_of_eq_None_iff)

lemma sorted_keys_unique:
  assumes "gomap_ok m" and "gomap_ok m'" and "fst ` set m = fst ` set m'"
  shows "sorted_keys m = sorted_keys m'"
  using assms by (intro sorted_distinct_set_unique) (simp_all add: gomap_simps)

lemma gomap_sub_covers:
  assumes "gomap_ok m" and "distinct ks" and "length m = length ks"
    and "set ks \<subseteq> fst ` set m"
  shows "fst ` set m = set ks"
  by (metis List.finite_set assms card_subset_eq distinct_card finite_imageI gomap_keys_card)

lemma gomap_exact_keys:
  assumes "gomap_ok m" and "distinct ks"
  shows "length m = length ks \<and> (\<forall>k \<in> set ks. has_key m k) \<longleftrightarrow> fst ` set m = set ks"
proof
  assume "length m = length ks \<and> (\<forall>k \<in> set ks. has_key m k)"
  then show "fst ` set m = set ks"
    by (intro gomap_sub_covers [OF assms]) (auto simp: has_key_iff)
next
  assume keys: "fst ` set m = set ks"
  then have "length m = length ks"
    by (metis assms distinct_card gomap_keys_card)
  with keys show "length m = length ks \<and> (\<forall>k \<in> set ks. has_key m k)"
    by (auto simp: has_key_iff)
qed

text \<open>
  A loop that computes a value per key and stores it, \<open>m[k] = v\<close>, stopping at the first
  error.
\<close>

fun collect :: "('k \<Rightarrow> 'e + 'v) \<Rightarrow> 'k list \<Rightarrow> ('k, 'v) gomap \<Rightarrow> 'e + ('k, 'v) gomap" where
  "collect f [] m = Inr m"
| "collect f (k # ks) m = rbind (f k) (\<lambda>v. collect f ks (AList.update k v m))"

lemma collect_ok: "collect f ks m = Inr m' \<Longrightarrow> gomap_ok m \<Longrightarrow> gomap_ok m'"
  by (induction ks arbitrary: m) (auto simp: rbind_Inr_iff gomap_ok_update)

lemma collect_keys: "collect f ks m = Inr m' \<Longrightarrow> fst ` set m' = fst ` set m \<union> set ks"
proof (induction ks arbitrary: m)
  case (Cons k ks)
  then obtain v where "collect f ks (AList.update k v m) = Inr m'"
    by (auto simp: rbind_Inr_iff)
  from Cons.IH [OF this] show ?case by (simp add: keys_update)
qed simp

lemma collect_outside: "collect f ks m = Inr m' \<Longrightarrow> k \<notin> set ks \<Longrightarrow> map_of m' k = map_of m k"
  by (induction ks arbitrary: m) (auto simp: rbind_Inr_iff map_of_update)

lemma collect_at: "collect f ks m = Inr m' \<Longrightarrow> k \<in> set ks \<Longrightarrow> \<exists>v. f k = Inr v \<and> map_of m' k = Some v"
proof (induction ks arbitrary: m)
  case (Cons x ks)
  then obtain v where v: "f x = Inr v" and rest: "collect f ks (AList.update x v m) = Inr m'"
    by (auto simp: rbind_Inr_iff)
  show ?case
  proof (cases "k \<in> set ks")
    case True
    with Cons.IH [OF rest] show ?thesis by blast
  next
    case False
    with Cons.prems v collect_outside [OF rest False] show ?thesis by (simp add: map_of_update)
  qed
qed simp

lemma collect_Inl_mem: "collect f ks m = Inl e \<Longrightarrow> \<exists>k \<in> set ks. f k = Inl e"
  by (induction ks arbitrary: m) (auto simp: rbind_Inl_iff)

lemma collect_cong [fundef_cong]:
  "ks = ks' \<Longrightarrow> m = m' \<Longrightarrow> (\<And>k. k \<in> set ks' \<Longrightarrow> f k = g k) \<Longrightarrow> collect f ks m = collect g ks' m'"
  by (induction ks' arbitrary: ks m m') auto

end
