(* ===== verification/GoNumber.thy ===== *)
theory GoNumber
  imports Prelude "HOL-Library.Log_Nat"
begin

text \<open>
  The numbers of the Go language as the code uses them: \<open>float64\<close> with IEEE 754
  comparison, addition and round-to-nearest-even, conversion from the integer kinds, and the
  decimal text \<open>strconv\<close> reads and prints (\<open>Itoa\<close>, \<open>Atoi\<close>, and the shortest
  float form that \<open>encoding/json\<close> prints). The lemmas give the order laws the rules
  engine relies on and the round trip of decimal integers.
\<close>

section \<open>float64\<close>

text \<open>
  A finite value other than negative zero is its exact rational value; \<open>f64_ext\<close> places
  the non-NaN values on a line, with both zeros at the same place, which is the order
  \<open>==\<close>, \<open><\<close> and \<open><=\<close> use.
\<close>

datatype float64 = Fin rat | NegZero | PosInf | NegInf | NaN

fun f64_ext :: "float64 \<Rightarrow> (int \<times> rat) option" where
  "f64_ext (Fin q) = Some (0, q)"
| "f64_ext NegZero = Some (0, 0)"
| "f64_ext PosInf = Some (1, 0)"
| "f64_ext NegInf = Some (-1, 0)"
| "f64_ext NaN = None"

definition f64_eq :: "float64 \<Rightarrow> float64 \<Rightarrow> bool" where
  "f64_eq x y = (case (f64_ext x, f64_ext y) of (Some a, Some b) \<Rightarrow> a = b | _ \<Rightarrow> False)"

definition f64_lt :: "float64 \<Rightarrow> float64 \<Rightarrow> bool" where
  "f64_lt x y = (case (f64_ext x, f64_ext y) of
     (Some (s, a), Some (t, b)) \<Rightarrow> s < t \<or> s = t \<and> a < b | _ \<Rightarrow> False)"

definition f64_le :: "float64 \<Rightarrow> float64 \<Rightarrow> bool" where
  "f64_le x y = (f64_lt x y \<or> f64_eq x y)"

definition f64_isNaN :: "float64 \<Rightarrow> bool" where
  "f64_isNaN x = (x = NaN)"

definition f64_isInf :: "float64 \<Rightarrow> bool" where
  "f64_isInf x = (x = PosInf \<or> x = NegInf)"

lemma f64_NaN_never [simp]:
  "\<not> f64_eq NaN x" "\<not> f64_eq x NaN" "\<not> f64_lt NaN x" "\<not> f64_lt x NaN"
  "\<not> f64_le NaN x" "\<not> f64_le x NaN"
  by (simp_all add: f64_eq_def f64_lt_def f64_le_def split: option.splits)

lemma f64_eq_sym: "f64_eq x y \<longleftrightarrow> f64_eq y x"
  by (auto simp: f64_eq_def split: option.splits)

lemma f64_trichotomy:
  "x \<noteq> NaN \<Longrightarrow> y \<noteq> NaN \<Longrightarrow> f64_lt x y \<or> f64_eq x y \<or> f64_lt y x"
  by (cases x; cases y) (auto simp: f64_eq_def f64_lt_def)

lemma f64_lt_irrefl_asym: "f64_lt x y \<Longrightarrow> \<not> f64_lt y x \<and> \<not> f64_eq x y"
  by (cases x; cases y) (auto simp: f64_eq_def f64_lt_def)

lemma f64_le_trans: "f64_le x y \<Longrightarrow> f64_le y z \<Longrightarrow> f64_le x z"
  by (cases x; cases y; cases z) (auto simp: f64_le_def f64_eq_def f64_lt_def)

lemma f64_lt_Fin [simp]: "f64_lt (Fin a) (Fin b) \<longleftrightarrow> a < b"
  by (simp add: f64_lt_def)

lemma f64_le_Fin [simp]: "f64_le (Fin a) (Fin b) \<longleftrightarrow> a \<le> b"
  by (auto simp: f64_le_def f64_lt_def f64_eq_def)

lemma f64_eq_Fin [simp]: "f64_eq (Fin a) (Fin b) \<longleftrightarrow> a = b"
  by (simp add: f64_eq_def)

section \<open>Rounding and arithmetic\<close>

definition pow_rat :: "rat \<Rightarrow> int \<Rightarrow> rat" where
  "pow_rat b k = (if 0 \<le> k then b ^ nat k else 1 / b ^ nat (- k))"

lemma pow_rat_code [code]:
  "pow_rat b k = (if k = 0 then 1 else if k < 0 then 1 / pow_rat b (- k)
     else let h = pow_rat b (k div 2) in if even k then h * h else b * (h * h))"
proof (cases "0 < k")
  case True
  define m where "m = nat (k div 2)"
  have "nat k = (if even k then m + m else Suc (m + m))"
    unfolding m_def using True
    by (auto elim!: evenE oddE simp: nat_mult_distrib nat_add_distrib)
  then have "b ^ nat k = (if even k then b ^ m * b ^ m else b * (b ^ m * b ^ m))"
    by (simp add: power_add)
  with True show ?thesis by (simp add: pow_rat_def m_def Let_def)
qed (simp add: pow_rat_def)

definition pow2 :: "int \<Rightarrow> rat" where
  "pow2 k = pow_rat 2 k"

definition floor_log2 :: "rat \<Rightarrow> int" where
  "floor_log2 q = (let (n, d) = quotient_of q; k = bitlen n - bitlen d
     in if pow2 k \<le> q then k else k - 1)"

definition round_half_even :: "rat \<Rightarrow> int" where
  "round_half_even q = (let f = \<lfloor>q\<rfloor>; r = q - of_int f
     in if r < 1/2 then f else if 1/2 < r then f + 1 else if even f then f else f + 1)"

definition round_bin :: "int \<Rightarrow> int \<Rightarrow> int \<Rightarrow> rat \<Rightarrow> float64" where
  "round_bin prec emin emax q = (if q = 0 then Fin 0 else
     let a = \<bar>q\<bar>; e = max (floor_log2 a - (prec - 1)) emin;
         v = of_int (round_half_even (a / pow2 e)) * pow2 e
     in if pow2 emax \<le> v then (if q < 0 then NegInf else PosInf)
        else if v = 0 then (if q < 0 then NegZero else Fin 0)
        else Fin (if q < 0 then - v else v))"

definition round64 :: "rat \<Rightarrow> float64" where
  "round64 = round_bin 53 (- 1074) 1024"

definition round32 :: "rat \<Rightarrow> float64" where
  "round32 = round_bin 24 (- 149) 128"

definition f64_of_int :: "int \<Rightarrow> float64" where
  "f64_of_int n = round64 (of_int n)"

fun f64_rat :: "float64 \<Rightarrow> rat" where
  "f64_rat (Fin q) = q"
| "f64_rat _ = 0"

definition f64_add :: "float64 \<Rightarrow> float64 \<Rightarrow> float64" where
  "f64_add x y =
     (if x = NaN \<or> y = NaN then NaN
      else if x = PosInf then (if y = NegInf then NaN else PosInf)
      else if x = NegInf then (if y = PosInf then NaN else NegInf)
      else if y = PosInf \<or> y = NegInf then y
      else if x = NegZero \<and> y = NegZero then NegZero
      else round64 (f64_rat x + f64_rat y))"

fun f64_neg :: "float64 \<Rightarrow> float64" where
  "f64_neg (Fin q) = (if q = 0 then NegZero else Fin (- q))"
| "f64_neg NegZero = Fin 0"
| "f64_neg PosInf = NegInf"
| "f64_neg NegInf = PosInf"
| "f64_neg NaN = NaN"

definition f64_sub :: "float64 \<Rightarrow> float64 \<Rightarrow> float64" where
  "f64_sub x y = f64_add x (f64_neg y)"

fun f64_abs :: "float64 \<Rightarrow> float64" where
  "f64_abs (Fin q) = Fin \<bar>q\<bar>"
| "f64_abs NegZero = Fin 0"
| "f64_abs NegInf = PosInf"
| "f64_abs x = x"

lemma pow2_pos [simp]: "0 < pow2 k"
  by (simp add: pow2_def pow_rat_def)

lemma round_half_even_int [simp]: "round_half_even (of_int n) = n"
  by (simp add: round_half_even_def)

text \<open>
  An integer of magnitude at most \<open>2 ^ 53\<close> converts exactly, so comparing an integer fact
  with an integer threshold in this range is exact.
\<close>

lemma floor_log2_int:
  assumes "0 < n"
  shows "floor_log2 (of_int n) = bitlen n - 1"
proof -
  have q: "quotient_of (of_int n) = (n, 1)" by simp
  have b: "bitlen 1 = 1" by code_simp
  have n2: "2 ^ nat (bitlen n - 1) \<le> n"
    using assms by (simp add: bitlen_bounds)
  have "0 \<le> bitlen n - 1"
    using assms bitlen_nonneg [of n] bitlen_eq_zero_iff [of n] by linarith
  moreover have "(2::rat) ^ nat (bitlen n - 1) \<le> of_int n"
    using n2 by (metis of_int_le_iff of_int_numeral of_int_power)
  ultimately show ?thesis by (simp add: floor_log2_def q b pow2_def pow_rat_def)
qed

lemma round64_zero [simp]: "round64 0 = Fin 0"
  by (simp add: round64_def round_bin_def)

lemma round_bin_exact:
  assumes "q \<noteq> 0" and "\<bar>q\<bar> < pow2 emax"
    and "e = max (floor_log2 \<bar>q\<bar> - (prec - 1)) emin"
    and "of_int (round_half_even (\<bar>q\<bar> / pow2 e)) * pow2 e = \<bar>q\<bar>"
  shows "round_bin prec emin emax q = Fin q"
proof -
  have "\<not> pow2 emax \<le> \<bar>q\<bar>" using assms(2) by simp
  then show ?thesis
    unfolding round_bin_def Let_def assms(3) [symmetric] assms(4) using assms(1) by auto
qed

lemma f64_of_int_exact:
  assumes "\<bar>n\<bar> < 2 ^ 53"
  shows "f64_of_int n = Fin (of_int n)"
proof (cases "n = 0")
  case True
  then show ?thesis by (simp add: f64_of_int_def)
next
  case False
  define k where "k = bitlen \<bar>n\<bar>"
  have k: "0 \<le> k" "k \<le> 53"
    using assms by (simp_all add: k_def bitlen_nonneg bitlen_le_iff_power)
  have log: "floor_log2 \<bar>of_int n\<bar> = k - 1"
    using False floor_log2_int [of "\<bar>n\<bar>"] by (simp add: k_def)
  have e: "max (k - 1 - (53 - 1)) (- 1074) = k - 53" using k by simp
  have p: "pow2 (k - 53) = 1 / 2 ^ nat (53 - k)"
    using k by (cases "k = 53") (auto simp: pow2_def pow_rat_def)
  have r: "round_half_even (\<bar>of_int n\<bar> / pow2 (k - 53)) = \<bar>n\<bar> * 2 ^ nat (53 - k)"
    using round_half_even_int [of "\<bar>n\<bar> * 2 ^ nat (53 - k)"] by (simp add: p)
  have v: "of_int (\<bar>n\<bar> * 2 ^ nat (53 - k)) * pow2 (k - 53) = \<bar>of_int n :: rat\<bar>"
    by (simp add: p)
  have "\<bar>of_int n :: rat\<bar> < of_int (2 ^ 53)"
    using assms by (metis of_int_abs of_int_less_iff)
  also have "\<dots> < pow2 1024" by (simp add: pow2_def pow_rat_def)
  finally have "\<bar>of_int n :: rat\<bar> < pow2 1024" .
  moreover have "k - 53 = max (floor_log2 \<bar>of_int n\<bar> - (53 - 1)) (- 1074)"
    by (simp only: log e)
  ultimately show ?thesis
    unfolding f64_of_int_def round64_def
    by (rule round_bin_exact [rotated]) (use False in \<open>simp_all only: r v of_int_eq_0_iff not_False_eq_True\<close>)
qed

section \<open>Decimal integers\<close>

text \<open>
  \<open>strconv.Itoa\<close> prints the canonical decimal form. \<open>strconv.Atoi\<close> accepts an optional
  sign and at least one digit and refuses a value outside the 64-bit \<open>int\<close>.
\<close>

definition digit_char :: "nat \<Rightarrow> char" where
  "digit_char d = char_of (48 + d)"

definition is_digit :: "char \<Rightarrow> bool" where
  "is_digit c = (48 \<le> (of_char c :: nat) \<and> (of_char c :: nat) \<le> 57)"

definition digit_val :: "char \<Rightarrow> nat" where
  "digit_val c = of_char c - 48"

function show_dec :: "int \<Rightarrow> string" where
  "show_dec n = (if n < 10 then [digit_char (nat n)]
     else show_dec (n div 10) @ [digit_char (nat (n mod 10))])"
  by pat_completeness auto
termination
  by (relation "measure nat") auto

declare show_dec.simps [simp del]

definition Itoa :: "int \<Rightarrow> string" where
  "Itoa n = (if n < 0 then CHR ''-'' # show_dec (- n) else show_dec n)"

definition read_dec :: "string \<Rightarrow> int" where
  "read_dec s = foldl (\<lambda>acc c. 10 * acc + int (digit_val c)) 0 s"

definition maxInt :: int where "maxInt = 2 ^ 63 - 1"
definition minInt :: int where "minInt = - (2 ^ 63)"

definition in_int64 :: "int \<Rightarrow> bool" where
  "in_int64 n = (minInt \<le> n \<and> n \<le> maxInt)"

text \<open>The value of an integer expression that may leave the range: it wraps.\<close>

definition wrap64 :: "int \<Rightarrow> int" where
  "wrap64 n = (n + 2 ^ 63) mod 2 ^ 64 - 2 ^ 63"

lemma wrap64_exact: "in_int64 n \<Longrightarrow> wrap64 n = n"
  by (simp add: wrap64_def in_int64_def minInt_def maxInt_def)

lemma wrap64_range: "in_int64 (wrap64 n)"
proof -
  have "0 \<le> (n + 2 ^ 63) mod 2 ^ 64" "(n + 2 ^ 63) mod 2 ^ 64 < 2 ^ 64" by simp_all
  then show ?thesis by (simp add: wrap64_def in_int64_def minInt_def maxInt_def)
qed

definition Atoi :: "string \<Rightarrow> int option" where
  "Atoi s = (let neg = (s \<noteq> [] \<and> hd s = CHR ''-'');
                 ds = (if s \<noteq> [] \<and> (hd s = CHR ''-'' \<or> hd s = CHR ''+'') then tl s else s);
                 n = (if neg then - read_dec ds else read_dec ds)
     in if ds = [] \<or> \<not> list_all is_digit ds \<or> \<not> in_int64 n then None else Some n)"

lemma digit_char_props:
  assumes "d < 10"
  shows "is_digit (digit_char d)" and "digit_val (digit_char d) = d"
  using assms by (simp_all add: is_digit_def digit_val_def digit_char_def)

lemma show_dec_digits: "list_all is_digit (show_dec n)"
proof (induction n rule: show_dec.induct)
  case (1 n)
  then show ?case
    by (cases "n < 10") (simp_all add: show_dec.simps [of n] digit_char_props)
qed

lemma show_dec_nonempty [simp]: "show_dec n \<noteq> []"
  by (subst show_dec.simps) simp

lemma read_show_dec [simp]: "0 \<le> n \<Longrightarrow> read_dec (show_dec n) = n"
proof (induction n rule: show_dec.induct)
  case (1 n)
  show ?case
  proof (cases "n < 10")
    case True
    with 1 show ?thesis by (simp add: show_dec.simps [of n] read_dec_def digit_char_props)
  next
    case False
    with 1 have "read_dec (show_dec (n div 10)) = n div 10" by simp
    with False show ?thesis
      by (simp add: show_dec.simps [of n] read_dec_def digit_char_props)
  qed
qed

lemma is_digit_not_sign: "is_digit c \<Longrightarrow> c \<noteq> CHR ''-'' \<and> c \<noteq> CHR ''+''"
  by (auto simp: is_digit_def)

lemma hd_show_dec: "hd (show_dec n) \<noteq> CHR ''-'' \<and> hd (show_dec n) \<noteq> CHR ''+''"
proof -
  have "is_digit (hd (show_dec n))"
    using show_dec_digits [of n] show_dec_nonempty [of n] by (cases "show_dec n") auto
  then show ?thesis by (rule is_digit_not_sign)
qed

lemma Atoi_Itoa: "in_int64 n \<Longrightarrow> Atoi (Itoa n) = Some n"
  by (simp add: Atoi_def Itoa_def hd_show_dec show_dec_digits Let_def)

lemma show_dec_inj: "0 \<le> m \<Longrightarrow> 0 \<le> n \<Longrightarrow> show_dec m = show_dec n \<Longrightarrow> m = n"
  by (metis read_show_dec)

lemma Itoa_inj: "Itoa m = Itoa n \<Longrightarrow> m = n"
proof -
  assume eq: "Itoa m = Itoa n"
  have sign: "hd (Itoa k) = CHR ''-'' \<longleftrightarrow> k < 0" for k
    by (simp add: Itoa_def hd_show_dec)
  from eq sign [of m] sign [of n] have "m < 0 \<longleftrightarrow> n < 0" by simp
  with eq show ?thesis
    using show_dec_inj [of m n] show_dec_inj [of "- m" "- n"]
    by (cases "n < 0") (auto simp: Itoa_def)
qed

end
