(* ===== verification/GoValue.thy ===== *)
theory GoValue
  imports GoNumber
begin

text \<open>
  The values behind Go's \<open>any\<close> that the decoders of the program produce, and the parts of
  \<open>strings\<close>, \<open>unicode/utf8\<close> and \<open>encoding/json\<close> the program uses on them:
  \<open>TrimSpace\<close>, the JSON text \<open>json.Marshal\<close> writes (sorted object keys, HTML-safe
  escaping, shortest floats) and the value a decoder with \<open>UseNumber\<close> reads back from
  that text.
\<close>

section \<open>Dynamic values\<close>

text \<open>
  \<open>VTime\<close> carries the RFC 3339 text of a YAML timestamp; \<open>VAnyMap\<close> is the
  \<open>map[any]any\<close> the YAML decoder builds for an object with a non-string key; \<open>VNumber\<close>
  is a \<open>json.Number\<close>. A \<open>float32\<close> carries the value its conversion to \<open>float64\<close> has.
\<close>

datatype goval =
    VNil
  | VString string
  | VBool bool
  | VInt int
  | VInt32 int
  | VInt64 int
  | VUint64 int
  | VFloat64 float64
  | VFloat32 float64
  | VNumber string
  | VTime string
  | VList "goval list"
  | VMap "(string \<times> goval) list"
  | VAnyMap "(goval \<times> goval) list"

section \<open>UTF-8\<close>

definition byte :: "char \<Rightarrow> nat" where
  "byte c = of_char c"

definition in_range :: "nat \<Rightarrow> nat \<Rightarrow> char \<Rightarrow> bool" where
  "in_range lo hi c = (lo \<le> byte c \<and> byte c \<le> hi)"

definition cont :: "char \<Rightarrow> bool" where
  "cont c = in_range 128 191 c"

text \<open>
  The size in bytes of the rune at the head of a byte string, and 0 when the bytes there are
  no valid encoding (\<open>utf8.DecodeRune\<close> then reports \<open>RuneError\<close> with size 1).
\<close>

fun rune_size :: "string \<Rightarrow> nat" where
  "rune_size [] = 0"
| "rune_size (a # cs) =
     (if byte a < 128 then 1
      else if in_range 194 223 a \<and> cs \<noteq> [] \<and> cont (cs ! 0) then 2
      else if 2 \<le> length cs \<and> cont (cs ! 1) \<and>
        (byte a = 224 \<and> in_range 160 191 (cs ! 0) \<or>
         (in_range 225 236 a \<or> in_range 238 239 a) \<and> cont (cs ! 0) \<or>
         byte a = 237 \<and> in_range 128 159 (cs ! 0)) then 3
      else if 3 \<le> length cs \<and> cont (cs ! 1) \<and> cont (cs ! 2) \<and>
        (byte a = 240 \<and> in_range 144 191 (cs ! 0) \<or>
         in_range 241 243 a \<and> cont (cs ! 0) \<or>
         byte a = 244 \<and> in_range 128 143 (cs ! 0)) then 4
      else 0)"

declare rune_size.simps [simp del]

section \<open>TrimSpace\<close>

text \<open>The UTF-8 encodings of the runes for which \<open>unicode.IsSpace\<close> holds.\<close>

definition space_encodings :: "string list" where
  "space_encodings = [
    [CHR 0x09], [CHR 0x0A], [CHR 0x0B], [CHR 0x0C], [CHR 0x0D], [CHR 0x20], [CHR 0xC2, CHR 0x85],
    [CHR 0xC2, CHR 0xA0], [CHR 0xE1, CHR 0x9A, CHR 0x80], [CHR 0xE2, CHR 0x80, CHR 0xA8],
    [CHR 0xE2, CHR 0x80, CHR 0xA9], [CHR 0xE2, CHR 0x80, CHR 0xAF],
    [CHR 0xE2, CHR 0x81, CHR 0x9F], [CHR 0xE3, CHR 0x80, CHR 0x80],
    [CHR 0xE2, CHR 0x80, CHR 0x80], [CHR 0xE2, CHR 0x80, CHR 0x81],
    [CHR 0xE2, CHR 0x80, CHR 0x82], [CHR 0xE2, CHR 0x80, CHR 0x83],
    [CHR 0xE2, CHR 0x80, CHR 0x84], [CHR 0xE2, CHR 0x80, CHR 0x85],
    [CHR 0xE2, CHR 0x80, CHR 0x86], [CHR 0xE2, CHR 0x80, CHR 0x87],
    [CHR 0xE2, CHR 0x80, CHR 0x88], [CHR 0xE2, CHR 0x80, CHR 0x89],
    [CHR 0xE2, CHR 0x80, CHR 0x8A]]"

definition leading_space :: "string \<Rightarrow> nat" where
  "leading_space s = (case List.find (\<lambda>w. take (length w) s = w) space_encodings of
     None \<Rightarrow> 0 | Some w \<Rightarrow> length w)"

definition trailing_space :: "string \<Rightarrow> nat" where
  "trailing_space s = (case List.find (\<lambda>w. take (length w) (rev s) = rev w) space_encodings of
     None \<Rightarrow> 0 | Some w \<Rightarrow> length w)"

fun trim_left :: "nat \<Rightarrow> string \<Rightarrow> string" where
  "trim_left 0 s = s"
| "trim_left (Suc n) s = (let k = leading_space s in if k = 0 then s else trim_left n (drop k s))"

fun trim_right :: "nat \<Rightarrow> string \<Rightarrow> string" where
  "trim_right 0 s = s"
| "trim_right (Suc n) s =
     (let k = trailing_space s in if k = 0 then s else trim_right n (take (length s - k) s))"

text \<open>Each round removes at least one byte, so the length of the string is fuel enough.\<close>

definition TrimSpace :: "string \<Rightarrow> string" where
  "TrimSpace s = (let t = trim_left (length s) s in trim_right (length t) t)"

section \<open>The text of a float\<close>

definition pow10 :: "int \<Rightarrow> rat" where
  "pow10 k = pow_rat 10 k"

definition floor_log10 :: "rat \<Rightarrow> int" where
  "floor_log10 a = (let g = floor_log2 a * 1233 div 4096
     in if pow10 (g + 1) \<le> a then g + 1 else if pow10 g \<le> a then g else g - 1)"

text \<open>
  The shortest decimal \<open>D * 10 ^ e\<close> that rounds back to the float, and the nearer one when
  two of that length do. Seventeen digits are enough for every \<open>float64\<close>; the exact
  expansion stands behind them.
\<close>

definition decimals_of_length :: "(rat \<Rightarrow> float64) \<Rightarrow> rat \<Rightarrow> int \<Rightarrow> nat \<Rightarrow> (int \<times> int) list" where
  "decimals_of_length rnd a k n =
     (let e = k - int n + 1; s = a / pow10 e; f = \<lfloor>s\<rfloor>;
          ds = (if round_half_even s = f then [f, f + 1] else [f + 1, f])
      in filter (\<lambda>(d, e). rnd (of_int d * pow10 e) = Fin a) (map (\<lambda>d. (d, e)) ds))"

definition exact_decimal :: "rat \<Rightarrow> int \<times> int" where
  "exact_decimal a = (let t = bitlen (snd (quotient_of a)) - 1 in (\<lfloor>a * pow10 t\<rfloor>, - t))"

fun first_decimal :: "(rat \<Rightarrow> float64) \<Rightarrow> rat \<Rightarrow> int \<Rightarrow> nat list \<Rightarrow> int \<times> int" where
  "first_decimal rnd a k [] = exact_decimal a"
| "first_decimal rnd a k (n # ns) =
     (case decimals_of_length rnd a k n of
        [] \<Rightarrow> first_decimal rnd a k ns
      | (d, e) # _ \<Rightarrow> if d mod 10 = 0 then (d div 10, e + 1) else (d, e))"

definition shortest_decimal :: "(rat \<Rightarrow> float64) \<Rightarrow> rat \<Rightarrow> int \<times> int" where
  "shortest_decimal rnd a = first_decimal rnd a (floor_log10 a) [1..<18]"

definition fixed_form :: "string \<Rightarrow> int \<Rightarrow> string" where
  "fixed_form ds e =
     (if 0 \<le> e then ds @ replicate (nat e) (CHR ''0'')
      else let k = nat (- e) in
        if k < length ds then take (length ds - k) ds @ CHR ''.'' # drop (length ds - k) ds
        else ''0.'' @ replicate (k - length ds) (CHR ''0'') @ ds)"

definition exp_form :: "string \<Rightarrow> int \<Rightarrow> string" where
  "exp_form ds e = (let x = e + int (length ds) - 1 in
     take 1 ds @ (if 1 < length ds then CHR ''.'' # drop 1 ds else []) @
     CHR ''e'' # (if x < 0 then CHR ''-'' else CHR ''+'') # show_dec \<bar>x\<bar>)"

text \<open>\<open>encoding/json\<close> prints a float in exponent form outside \<open>[1e-6, 1e21)\<close>.\<close>

definition json_float :: "(rat \<Rightarrow> float64) \<Rightarrow> float64 \<Rightarrow> string option" where
  "json_float rnd x = (case x of
       NaN \<Rightarrow> None | PosInf \<Rightarrow> None | NegInf \<Rightarrow> None
     | NegZero \<Rightarrow> Some ''-0''
     | Fin q \<Rightarrow> if q = 0 then Some ''0'' else
         let a = \<bar>q\<bar>; (d, e) = shortest_decimal rnd a; ds = show_dec d;
             big = (a < f64_rat (rnd (1 / 10 ^ 6)) \<or> f64_rat (rnd (10 ^ 21)) \<le> a)
         in Some ((if q < 0 then ''-'' else []) @ (if big then exp_form ds e else fixed_form ds e)))"

lemma json_float_None: "json_float rnd x = None \<longleftrightarrow> x = NaN \<or> x = PosInf \<or> x = NegInf"
  by (cases x) (auto simp: json_float_def Let_def split: prod.splits)

section \<open>JSON text\<close>

datatype json =
    JNull
  | JBool bool
  | JNum string
  | JStr string
  | JArr "json list"
  | JObj "(string \<times> json) list"

definition hex_digit :: "nat \<Rightarrow> char" where
  "hex_digit d = char_of (if d < 10 then 48 + d else 87 + d)"

text \<open>The escape of one ASCII byte under \<open>json.Marshal\<close>'s default HTML-safe escaping.\<close>

definition escape_ascii :: "char \<Rightarrow> string" where
  "escape_ascii c = (let b = byte c; bs = CHR 0x5C in
     if b = 34 \<or> b = 92 then [bs, c]
     else if b = 8 then [bs, CHR ''b''] else if b = 12 then [bs, CHR ''f'']
     else if b = 10 then [bs, CHR ''n''] else if b = 13 then [bs, CHR ''r'']
     else if b = 9 then [bs, CHR ''t'']
     else if b < 32 \<or> b = 60 \<or> b = 62 \<or> b = 38
       then bs # ''u00'' @ [hex_digit (b div 16), hex_digit (b mod 16)]
     else [c])"

fun escape :: "string \<Rightarrow> string" where
  "escape [] = []"
| "escape (c # cs) =
     (if byte c < 128 then escape_ascii c @ escape cs
      else let n = rune_size (c # cs); w = take n (c # cs) in
        if n = 0 then CHR 0x5C # ''ufffd'' @ escape cs
        else if map byte w = [226, 128, 168] then CHR 0x5C # ''u2028'' @ escape (drop (n - 1) cs)
        else if map byte w = [226, 128, 169] then CHR 0x5C # ''u2029'' @ escape (drop (n - 1) cs)
        else w @ escape (drop (n - 1) cs))"

text \<open>What a decoder reads back from an escaped string: invalid bytes became U+FFFD.\<close>

fun sanitise :: "string \<Rightarrow> string" where
  "sanitise [] = []"
| "sanitise (c # cs) =
     (let n = rune_size (c # cs) in
      if n = 0 then map char_of [239, 191, 189 :: nat] @ sanitise cs
      else take n (c # cs) @ sanitise (drop (n - 1) cs))"

definition quote :: "string \<Rightarrow> string" where
  "quote s = CHR 0x22 # escape s @ [CHR 0x22]"

fun join :: "string list \<Rightarrow> string" where
  "join [] = []"
| "join [x] = x"
| "join (x # y # zs) = x @ CHR '','' # join (y # zs)"

fun render :: "json \<Rightarrow> string" where
  "render JNull = ''null''"
| "render (JBool b) = (if b then ''true'' else ''false'')"
| "render (JNum t) = t"
| "render (JStr s) = quote s"
| "render (JArr xs) = CHR ''['' # join (map render xs) @ '']''"
| "render (JObj kvs) = CHR 0x7B # join (map (\<lambda>(k, v). quote k @ CHR '':'' # render v) kvs) @ [CHR 0x7D]"

text \<open>The number grammar \<open>json.Number\<close> has to satisfy to be encoded.\<close>

definition digits_then :: "string \<Rightarrow> string \<times> string" where
  "digits_then s = (takeWhile is_digit s, dropWhile is_digit s)"

definition valid_exponent :: "string \<Rightarrow> bool" where
  "valid_exponent s = (s = [] \<or>
     (hd s = CHR ''e'' \<or> hd s = CHR ''E'') \<and>
     (let t = tl s; u = (if t \<noteq> [] \<and> (hd t = CHR ''+'' \<or> hd t = CHR ''-'') then tl t else t)
      in u \<noteq> [] \<and> list_all is_digit u))"

definition valid_number :: "string \<Rightarrow> bool" where
  "valid_number s = (let t = (if s \<noteq> [] \<and> hd s = CHR ''-'' then tl s else s);
       (i, r) = digits_then t
     in i \<noteq> [] \<and> (hd i = CHR ''0'' \<longrightarrow> length i = 1) \<and>
        (if r \<noteq> [] \<and> hd r = CHR ''.''
         then let (f, r') = digits_then (tl r) in f \<noteq> [] \<and> valid_exponent r'
         else valid_exponent r))"

fun opt_list :: "'a option list \<Rightarrow> 'a list option" where
  "opt_list [] = Some []"
| "opt_list (None # xs) = None"
| "opt_list (Some x # xs) = map_option ((#) x) (opt_list xs)"

text \<open>
  \<open>json.Marshal\<close> up to the text: \<open>None\<close> is its error, for a NaN or an infinity, a map
  with non-string keys, or an invalid \<open>json.Number\<close>. Object keys are sorted.
\<close>

fun to_json :: "goval \<Rightarrow> json option" where
  "to_json VNil = Some JNull"
| "to_json (VString s) = Some (JStr s)"
| "to_json (VBool b) = Some (JBool b)"
| "to_json (VInt n) = Some (JNum (Itoa n))"
| "to_json (VInt32 n) = Some (JNum (Itoa n))"
| "to_json (VInt64 n) = Some (JNum (Itoa n))"
| "to_json (VUint64 n) = Some (JNum (Itoa n))"
| "to_json (VFloat64 x) = map_option JNum (json_float round64 x)"
| "to_json (VFloat32 x) = map_option JNum (json_float round32 x)"
| "to_json (VNumber t) =
     (if t = [] then Some (JNum ''0'') else if valid_number t then Some (JNum t) else None)"
| "to_json (VTime t) = Some (JStr t)"
| "to_json (VList xs) = map_option JArr (opt_list (map to_json xs))"
| "to_json (VMap kvs) =
     map_option JObj (opt_list (map (\<lambda>(k, v). map_option (Pair k) (to_json v)) (sort_key fst kvs)))"
| "to_json (VAnyMap kvs) = None"

definition Marshal :: "goval \<Rightarrow> string option" where
  "Marshal v = map_option render (to_json v)"

text \<open>
  The value a decoder with \<open>UseNumber\<close> builds from marshalled text: numbers stay text,
  strings are sanitised, and a later duplicate key replaces an earlier one.
\<close>

fun from_json :: "json \<Rightarrow> goval" where
  "from_json JNull = VNil"
| "from_json (JBool b) = VBool b"
| "from_json (JNum t) = VNumber t"
| "from_json (JStr s) = VString (sanitise s)"
| "from_json (JArr xs) = VList (map from_json xs)"
| "from_json (JObj kvs) =
     VMap (fold (\<lambda>(k, v) m. AList.update (sanitise k) v m) (map (\<lambda>(k, v). (k, from_json v)) kvs) [])"

definition redecode :: "goval \<Rightarrow> goval option" where
  "redecode v = map_option from_json (to_json v)"

lemma opt_list_Some_iff: "opt_list xs = Some ys \<longleftrightarrow> xs = map Some ys"
  by (induction xs arbitrary: ys rule: opt_list.induct) auto

lemma opt_list_None_iff: "opt_list xs = None \<longleftrightarrow> None \<in> set xs"
  by (induction xs rule: opt_list.induct) auto

end
