(* ===== verification/Decision.thy ===== *)
theory Decision
  imports GoValue
begin

text \<open>
  The shared vocabulary of \<open>internal/pkg/common/decision\<close>: the bounded identifier
  grammars, question types, answer fields, fact types, facts and answers, and the reading of
  one answer field. The string-typed enumerations of the source stay strings, because a
  document may carry any text there and \<open>IsValid\<close> is what tells. The lemmas describe the
  field matrix and what a fact type admits.
\<close>

named_theorems decision_consts \<open>the string constants of the vocabulary\<close>

section \<open>Sentinel errors\<close>

text \<open>
  An error is modelled by the sentinel its chain ends in, which is what \<open>errors.Is\<close>
  sees; messages are dropped. \<open>ErrOther\<close> stands for an error that wraps no sentinel of
  the program (an operating system, database or JSON error), tagged with its origin.
\<close>

datatype sentinel =
    ErrUnsupportedAPIVersion | ErrUnsupportedKind | ErrInvalidDocument | ErrInvalidMetadata
  | ErrInvalidOutcome | ErrInvalidQuestion | ErrInvalidFact | ErrInvalidRule
  | ErrInvalidCondition | ErrTypeMismatch | ErrUnknownReference | ErrPolicyTooLarge
  | ErrDuplicatePolicy | ErrUnsafePolicyPath | ErrProviderProtocol
  | ErrInlinePoliciesDisabled | ErrPolicySelection | ErrIdempotencyConflict
  | ErrResponseTooLarge | ErrOverloaded
  | ErrValidationFailed | ErrInvalidArgument | ErrInvalidValue | ErrNotFound | ErrMarshalFailed
  | ErrParseFailed | ErrTimeout | ErrRateLimited | ErrNotAuthenticated | ErrPermissionDenied
  | ErrRequiredConfigValueNotSet | ErrUnavailable | ErrConnectFailed | ErrFetchFailed
  | ErrCanceled | ErrDeadlineExceeded
  | ErrOther string

text \<open>The sentinels \<open>internal/pkg/policy\<close> declares.\<close>

definition policy_sentinels :: "sentinel set" where
  "policy_sentinels = {ErrUnsupportedAPIVersion, ErrUnsupportedKind, ErrInvalidDocument,
     ErrInvalidMetadata, ErrInvalidOutcome, ErrInvalidQuestion, ErrInvalidFact, ErrInvalidRule,
     ErrInvalidCondition, ErrTypeMismatch, ErrUnknownReference, ErrPolicyTooLarge,
     ErrDuplicatePolicy, ErrUnsafePolicyPath, ErrProviderProtocol}"

section \<open>Identifier grammars\<close>

definition MaxIdentifierLength :: nat where "MaxIdentifierLength = 64"
definition MaxFactNameLength :: nat where "MaxFactNameLength = 128"

definition is_letter :: "char \<Rightarrow> bool" where
  "is_letter c = (in_range 65 90 c \<or> in_range 97 122 c)"

definition is_word_char :: "char \<Rightarrow> bool" where
  "is_word_char c = (is_letter c \<or> is_digit c \<or> c = CHR ''_'')"

definition identifierPattern :: "string \<Rightarrow> bool" where
  "identifierPattern s = (s \<noteq> [] \<and> is_letter (hd s) \<and> list_all is_word_char (tl s))"

definition dashedIdentifierPattern :: "string \<Rightarrow> bool" where
  "dashedIdentifierPattern s =
     (s \<noteq> [] \<and> is_letter (hd s) \<and> list_all (\<lambda>c. is_word_char c \<or> c = CHR ''-'') (tl s))"

fun split_dots :: "string \<Rightarrow> string list" where
  "split_dots [] = [[]]"
| "split_dots (c # cs) = (if c = CHR ''.'' then [] # split_dots cs
     else (c # hd (split_dots cs)) # tl (split_dots cs))"

definition factNamePattern :: "string \<Rightarrow> bool" where
  "factNamePattern s = list_all identifierPattern (split_dots s)"

definition IsIdentifier :: "string \<Rightarrow> bool" where
  "IsIdentifier name = (length name \<le> MaxIdentifierLength \<and> identifierPattern name)"

definition IsDashedIdentifier :: "string \<Rightarrow> bool" where
  "IsDashedIdentifier name = (length name \<le> MaxIdentifierLength \<and> dashedIdentifierPattern name)"

definition IsFactName :: "string \<Rightarrow> bool" where
  "IsFactName name = (length name \<le> MaxFactNameLength \<and> factNamePattern name)"

type_synonym Outcome = string
type_synonym QuestionType = string
type_synonym AnswerField = string
type_synonym FactType = string
type_synonym ExecutionPath = string

definition Outcome_IsValid :: "Outcome \<Rightarrow> bool" where
  "Outcome_IsValid o' = IsDashedIdentifier o'"

section \<open>Question types and answer fields\<close>

definition QuestionTypeChoice :: QuestionType where [decision_consts]: "QuestionTypeChoice = ''choice''"
definition QuestionTypeScore :: QuestionType where [decision_consts]: "QuestionTypeScore = ''score''"
definition QuestionTypeNoul :: QuestionType where [decision_consts]: "QuestionTypeNoul = ''noul''"

definition QuestionType_IsValid :: "QuestionType \<Rightarrow> bool" where
  "QuestionType_IsValid q = (q = QuestionTypeChoice \<or> q = QuestionTypeScore \<or> q = QuestionTypeNoul)"

definition AnswerFieldChoice :: AnswerField where [decision_consts]: "AnswerFieldChoice = ''choice''"
definition AnswerFieldScore :: AnswerField where [decision_consts]: "AnswerFieldScore = ''score''"
definition AnswerFieldNoul :: AnswerField where [decision_consts]: "AnswerFieldNoul = ''noul''"
definition AnswerFieldConfidence :: AnswerField where
  [decision_consts]: "AnswerFieldConfidence = ''confidence''"
definition AnswerFieldProbability :: AnswerField where
  [decision_consts]: "AnswerFieldProbability = ''probability''"

definition AnswerField_IsValid :: "AnswerField \<Rightarrow> bool" where
  "AnswerField_IsValid f = (f = AnswerFieldChoice \<or> f = AnswerFieldScore \<or> f = AnswerFieldNoul
     \<or> f = AnswerFieldConfidence \<or> f = AnswerFieldProbability)"

definition AvailableOn :: "AnswerField \<Rightarrow> QuestionType \<Rightarrow> bool" where
  "AvailableOn f questionType =
     (if questionType = QuestionTypeChoice
      then f = AnswerFieldChoice \<or> f = AnswerFieldConfidence \<or> f = AnswerFieldProbability
      else if questionType = QuestionTypeScore
      then f = AnswerFieldScore \<or> f = AnswerFieldConfidence \<or> f = AnswerFieldProbability
      else if questionType = QuestionTypeNoul then f = AnswerFieldNoul
      else False)"

definition IsNumeric :: "AnswerField \<Rightarrow> bool" where
  "IsNumeric f = (f \<noteq> AnswerFieldChoice)"

section \<open>Facts\<close>

definition FactTypeString :: FactType where [decision_consts]: "FactTypeString = ''string''"
definition FactTypeBoolean :: FactType where [decision_consts]: "FactTypeBoolean = ''boolean''"
definition FactTypeNumber :: FactType where [decision_consts]: "FactTypeNumber = ''number''"

definition FactType_IsValid :: "FactType \<Rightarrow> bool" where
  "FactType_IsValid t = (t = FactTypeString \<or> t = FactTypeBoolean \<or> t = FactTypeNumber)"

fun AsNumber :: "goval \<Rightarrow> float64 option" where
  "AsNumber (VFloat64 x) = Some x"
| "AsNumber (VFloat32 x) = Some x"
| "AsNumber (VInt n) = Some (f64_of_int n)"
| "AsNumber (VInt32 n) = Some (f64_of_int n)"
| "AsNumber (VInt64 n) = Some (f64_of_int n)"
| "AsNumber _ = None"

definition is_string :: "goval \<Rightarrow> bool" where
  "is_string v = (case v of VString _ \<Rightarrow> True | _ \<Rightarrow> False)"

definition is_bool :: "goval \<Rightarrow> bool" where
  "is_bool v = (case v of VBool _ \<Rightarrow> True | _ \<Rightarrow> False)"

definition FactType_Matches :: "FactType \<Rightarrow> goval \<Rightarrow> bool" where
  "FactType_Matches t v =
     (if t = FactTypeString then is_string v
      else if t = FactTypeBoolean then is_bool v
      else if t = FactTypeNumber then AsNumber v \<noteq> None
      else False)"

type_synonym Facts = "(string, goval) gomap"

section \<open>Answers\<close>

record Answer =
  ansType :: QuestionType
  ansChoice :: string
  ansScore :: float64
  ansNoul :: float64
  ansConfidence :: float64
  ansHasConfidence :: bool
  ansProbabilities :: "(string, float64) gomap"
  ansLegend :: "(string, goval) gomap"

definition Answer_Field :: "Answer \<Rightarrow> AnswerField \<Rightarrow> goval option" where
  "Answer_Field a field =
     (if \<not> AvailableOn field (ansType a) then None
      else if field = AnswerFieldChoice then Some (VString (ansChoice a))
      else if field = AnswerFieldScore then Some (VFloat64 (ansScore a))
      else if field = AnswerFieldNoul then Some (VFloat64 (ansNoul a))
      else if field = AnswerFieldConfidence
      then (if ansHasConfidence a then Some (VFloat64 (ansConfidence a)) else None)
      else None)"

definition Answer_Probability :: "Answer \<Rightarrow> string \<Rightarrow> float64 option" where
  "Answer_Probability a key =
     (if AvailableOn AnswerFieldProbability (ansType a) then map_of (ansProbabilities a) key else None)"

type_synonym Answers = "(string, Answer) gomap"

definition ExecutionPathPreRule :: ExecutionPath where
  [decision_consts]: "ExecutionPathPreRule = ''pre_rule''"
definition ExecutionPathDecisionRule :: ExecutionPath where
  [decision_consts]: "ExecutionPathDecisionRule = ''decision_rule''"
definition ExecutionPathDefault :: ExecutionPath where
  [decision_consts]: "ExecutionPathDefault = ''default''"

definition ExecutionPath_IsValid :: "ExecutionPath \<Rightarrow> bool" where
  "ExecutionPath_IsValid p =
     (p = ExecutionPathPreRule \<or> p = ExecutionPathDecisionRule \<or> p = ExecutionPathDefault)"

section \<open>Facts about the vocabulary\<close>

lemma fact_types_distinct [simp]:
  "FactTypeString \<noteq> FactTypeBoolean" "FactTypeString \<noteq> FactTypeNumber"
  "FactTypeBoolean \<noteq> FactTypeString" "FactTypeBoolean \<noteq> FactTypeNumber"
  "FactTypeNumber \<noteq> FactTypeString" "FactTypeNumber \<noteq> FactTypeBoolean"
  by (simp_all add: decision_consts)

lemma question_types_distinct [simp]:
  "QuestionTypeChoice \<noteq> QuestionTypeScore" "QuestionTypeChoice \<noteq> QuestionTypeNoul"
  "QuestionTypeScore \<noteq> QuestionTypeChoice" "QuestionTypeScore \<noteq> QuestionTypeNoul"
  "QuestionTypeNoul \<noteq> QuestionTypeChoice" "QuestionTypeNoul \<noteq> QuestionTypeScore"
  by (simp_all add: decision_consts)

lemma answer_fields_distinct [simp]:
  "AnswerFieldChoice \<noteq> AnswerFieldScore" "AnswerFieldChoice \<noteq> AnswerFieldNoul"
  "AnswerFieldChoice \<noteq> AnswerFieldConfidence" "AnswerFieldChoice \<noteq> AnswerFieldProbability"
  "AnswerFieldScore \<noteq> AnswerFieldChoice" "AnswerFieldScore \<noteq> AnswerFieldNoul"
  "AnswerFieldScore \<noteq> AnswerFieldConfidence" "AnswerFieldScore \<noteq> AnswerFieldProbability"
  "AnswerFieldNoul \<noteq> AnswerFieldChoice" "AnswerFieldNoul \<noteq> AnswerFieldScore"
  "AnswerFieldNoul \<noteq> AnswerFieldConfidence" "AnswerFieldNoul \<noteq> AnswerFieldProbability"
  "AnswerFieldConfidence \<noteq> AnswerFieldChoice" "AnswerFieldConfidence \<noteq> AnswerFieldScore"
  "AnswerFieldConfidence \<noteq> AnswerFieldNoul" "AnswerFieldConfidence \<noteq> AnswerFieldProbability"
  "AnswerFieldProbability \<noteq> AnswerFieldChoice" "AnswerFieldProbability \<noteq> AnswerFieldScore"
  "AnswerFieldProbability \<noteq> AnswerFieldNoul" "AnswerFieldProbability \<noteq> AnswerFieldConfidence"
  by (simp_all add: decision_consts)

lemmas field_defs = AvailableOn_def AnswerField_IsValid_def QuestionType_IsValid_def decision_consts

lemma AvailableOn_valid: "AvailableOn f t \<Longrightarrow> AnswerField_IsValid f \<and> QuestionType_IsValid t"
  by (auto simp: field_defs split: if_splits)

lemma noul_only_noul: "AvailableOn f QuestionTypeNoul \<longleftrightarrow> f = AnswerFieldNoul"
  by (simp add: field_defs)

lemma FactType_Matches_cases:
  "FactType_Matches t v \<Longrightarrow>
     t = FactTypeString \<and> (\<exists>s. v = VString s) \<or> t = FactTypeBoolean \<and> (\<exists>b. v = VBool b)
     \<or> t = FactTypeNumber \<and> (\<exists>x. AsNumber v = Some x)"
  by (auto simp: FactType_Matches_def is_string_def is_bool_def split: if_splits goval.splits)

lemma AsNumber_scalar: "AsNumber (VString s) = None" "AsNumber (VBool b) = None"
  by simp_all

lemma dashed_nonempty: "IsDashedIdentifier s \<Longrightarrow> s \<noteq> []"
  by (simp add: IsDashedIdentifier_def dashedIdentifierPattern_def)

lemma identifier_nonempty: "IsIdentifier s \<Longrightarrow> s \<noteq> []"
  by (simp add: IsIdentifier_def identifierPattern_def)

lemma identifier_is_dashed: "IsIdentifier s \<Longrightarrow> IsDashedIdentifier s"
  by (auto simp: IsIdentifier_def IsDashedIdentifier_def identifierPattern_def
      dashedIdentifierPattern_def list_all_iff)

lemma split_dots_nonempty [simp]: "split_dots s \<noteq> []"
  by (cases s) auto

lemma split_dots_no_dot: "CHR ''.'' \<notin> set s \<Longrightarrow> split_dots s = [s]"
  by (induction s) auto

lemma word_char_no_dot: "is_word_char c \<Longrightarrow> c \<noteq> CHR ''.''"
  by (auto simp: is_word_char_def is_letter_def in_range_def byte_def is_digit_def)

lemma identifier_is_fact_name: "IsIdentifier s \<Longrightarrow> IsFactName s"
proof -
  assume s: "IsIdentifier s"
  then have "\<forall>c \<in> set s. is_word_char c"
    by (cases s) (auto simp: IsIdentifier_def identifierPattern_def is_word_char_def list_all_iff)
  then have "CHR ''.'' \<notin> set s" using word_char_no_dot by blast
  with s show ?thesis
    by (simp add: IsFactName_def factNamePattern_def split_dots_no_dot IsIdentifier_def
        MaxFactNameLength_def MaxIdentifierLength_def)
qed

end
