(* ===== verification/Document.thy ===== *)
theory Document
  imports Decision
begin

text \<open>
  The policy document of \<open>internal/pkg/policy/document.go\<close>: the structural ceilings, the
  operators of a condition leaf, and the document's records. A nil pointer is \<open>None\<close>, a nil
  \<open>any\<close> is \<open>VNil\<close>, and the condition tree is a datatype with one selector per field.
\<close>

section \<open>Constants\<close>

definition APIVersion :: string where "APIVersion = ''vibecheck.psyb0t.dev/v1alpha1''"
definition Kind :: string where "Kind = ''DecisionPolicy''"

definition MaxOutcomes :: nat where "MaxOutcomes = 32"
definition MaxQuestions :: int where "MaxQuestions = 64"
definition MaxRequiredFacts :: nat where "MaxRequiredFacts = 128"
definition MaxRules :: nat where "MaxRules = 128"
definition MaxConditionDepth :: nat where "MaxConditionDepth = 8"
definition MaxConditionsPerOp :: nat where "MaxConditionsPerOp = 32"
definition MaxRightListLength :: nat where "MaxRightListLength = 64"
definition MinChoiceCriteria :: nat where "MinChoiceCriteria = 2"
definition MaxChoiceCriteria :: nat where "MaxChoiceCriteria = 255"
definition MinScoreCriteria :: nat where "MinScoreCriteria = 2"
definition MaxScoreCriteria :: nat where "MaxScoreCriteria = 10"
definition MaxDescriptionLength :: nat where "MaxDescriptionLength = 512"
definition MaxInstructionsLength :: nat where "MaxInstructionsLength = 4096"
definition MaxCriteriaTextLength :: nat where "MaxCriteriaTextLength = 1024"
definition MaxQuestionValueDepth :: nat where "MaxQuestionValueDepth = 16"
definition MaxQuestionValueNodes :: nat where "MaxQuestionValueNodes = 512"
definition MaxVersionLength :: nat where "MaxVersionLength = 32"
definition MaxStringValueLength :: nat where "MaxStringValueLength = 1024"

section \<open>Operators\<close>

type_synonym Operator = string

definition OperatorEq :: Operator where [decision_consts]: "OperatorEq = ''eq''"
definition OperatorNeq :: Operator where [decision_consts]: "OperatorNeq = ''neq''"
definition OperatorLt :: Operator where [decision_consts]: "OperatorLt = ''lt''"
definition OperatorLte :: Operator where [decision_consts]: "OperatorLte = ''lte''"
definition OperatorGt :: Operator where [decision_consts]: "OperatorGt = ''gt''"
definition OperatorGte :: Operator where [decision_consts]: "OperatorGte = ''gte''"
definition OperatorIn :: Operator where [decision_consts]: "OperatorIn = ''in''"
definition OperatorExists :: Operator where [decision_consts]: "OperatorExists = ''exists''"

definition IsOrdering :: "Operator \<Rightarrow> bool" where
  "IsOrdering op' = (op' = OperatorLt \<or> op' = OperatorLte \<or> op' = OperatorGt \<or> op' = OperatorGte)"

definition Operator_IsValid :: "Operator \<Rightarrow> bool" where
  "Operator_IsValid op' = (op' = OperatorEq \<or> op' = OperatorNeq \<or> op' = OperatorLt
     \<or> op' = OperatorLte \<or> op' = OperatorGt \<or> op' = OperatorGte \<or> op' = OperatorIn
     \<or> op' = OperatorExists)"

section \<open>Records\<close>

record Operand =
  opFact :: string
  opAnswer :: string
  opField :: AnswerField
  opProbabilityKey :: string

datatype Condition = Condition
  (condAll: "Condition list") (condAny: "Condition list") (condNot: "Condition option")
  (condLeft: "Operand option") (condOp: Operator) (condRight: goval)

record Rule =
  ruleID :: string
  ruleDescription :: string
  ruleWhen :: "Condition option"
  ruleOutcome :: Outcome

record Question =
  qType :: QuestionType
  qInstructions :: goval
  qCriteria :: goval

record Input =
  inRequiredFacts :: "(string, FactType) gomap"
  inOptionalFacts :: "(string, FactType) gomap"
  inStrict :: bool

record Spec =
  specModel :: string
  specOutcomes :: "Outcome list"
  specDefaultOutcome :: Outcome
  specInput :: Input
  specPreRules :: "Rule list"
  specQuestions :: "(string, Question) gomap"
  specDecisionRules :: "Rule list"

record Metadata =
  metaName :: string
  metaVersion :: string
  metaDescription :: string

record Document =
  docAPIVersion :: string
  docKind :: string
  docMetadata :: Metadata
  docSpec :: Spec

text \<open>A decoded document's maps have distinct keys.\<close>

definition doc_ok :: "Document \<Rightarrow> bool" where
  "doc_ok d \<longleftrightarrow> gomap_ok (inRequiredFacts (specInput (docSpec d)))
     \<and> gomap_ok (inOptionalFacts (specInput (docSpec d))) \<and> gomap_ok (specQuestions (docSpec d))
     \<and> list_all (\<lambda>(i, q). case qCriteria q of VMap kvs \<Rightarrow> gomap_ok kvs | _ \<Rightarrow> True)
         (specQuestions (docSpec d))"

lemmas operator_defs = Operator_IsValid_def IsOrdering_def decision_consts

lemma operators_unordered [simp]:
  "\<not> IsOrdering OperatorEq" "\<not> IsOrdering OperatorNeq" "\<not> IsOrdering OperatorIn"
  "\<not> IsOrdering OperatorExists"
  by (simp_all add: operator_defs)

lemma set_operators_distinct [simp]:
  "OperatorIn \<noteq> OperatorEq" "OperatorIn \<noteq> OperatorNeq" "OperatorIn \<noteq> OperatorExists"
  "OperatorExists \<noteq> OperatorEq" "OperatorExists \<noteq> OperatorNeq" "OperatorExists \<noteq> OperatorIn"
  "OperatorEq \<noteq> OperatorNeq" "OperatorNeq \<noteq> OperatorEq"
  by (simp_all add: decision_consts)

lemma ordering_valid: "IsOrdering op' \<Longrightarrow> Operator_IsValid op'"
  by (auto simp: operator_defs)

end
