(* ===== verification/Condition.thy ===== *)
theory Condition
  imports Document
begin

text \<open>
  Compiled conditions and their evaluation (\<open>internal/pkg/policy/condition.go\<close>).
  \<open>Evaluate\<close> returns \<open>None\<close> where the Go code would panic on \<open>children[0]\<close> of an
  empty slice. The lemmas show that a well-formed tree never panics and computes the truth
  value of its formula, and give the laws of the scalar comparisons.
\<close>

section \<open>Compiled conditions\<close>

datatype conditionKind = conditionKindLeaf | conditionKindAll | conditionKindAny | conditionKindNot

datatype operandKind = operandKindFact | operandKindAnswer

record CompiledOperand =
  opKind :: operandKind
  factName :: string
  factType :: FactType
  questionID :: string
  field :: AnswerField
  questionType :: QuestionType
  probabilityKey :: string

datatype CompiledCondition = CompiledCondition
  (kind: conditionKind) (children: "CompiledCondition list") (operand: CompiledOperand)
  (cop: Operator) (rightScalar: goval) (rightList: "goval list") (rightBool: bool)

section \<open>Scalar comparison\<close>

definition scalarEqual :: "goval \<Rightarrow> goval \<Rightarrow> bool" where
  "scalarEqual left right =
     (case (AsNumber left, AsNumber right) of
        (Some l, Some r) \<Rightarrow> f64_eq l r
      | (Some l, None) \<Rightarrow> False
      | (None, Some r) \<Rightarrow> False
      | (None, None) \<Rightarrow>
          (case left of
             VString s \<Rightarrow> (case right of VString t \<Rightarrow> s = t | _ \<Rightarrow> False)
           | VBool b \<Rightarrow> (case right of VBool c \<Rightarrow> b = c | _ \<Rightarrow> False)
           | _ \<Rightarrow> False))"

definition compareOrdered :: "goval \<Rightarrow> goval \<Rightarrow> Operator \<Rightarrow> bool" where
  "compareOrdered left right op' =
     (case AsNumber left of None \<Rightarrow> False
      | Some l \<Rightarrow> (case AsNumber right of None \<Rightarrow> False
        | Some r \<Rightarrow>
            if op' = OperatorLt then f64_lt l r
            else if op' = OperatorLte then f64_le l r
            else if op' = OperatorGt then f64_lt r l
            else if op' = OperatorGte then f64_le r l
            else False))"

section \<open>Evaluation\<close>

definition resolveOperand_run :: "CompiledOperand \<Rightarrow> Facts \<Rightarrow> Answers \<Rightarrow> goval option" where
  "resolveOperand_run od facts answers =
     (if opKind od = operandKindFact then map_of facts (factName od)
      else case map_of answers (questionID od) of
        None \<Rightarrow> None
      | Some answer \<Rightarrow>
          if field od = AnswerFieldProbability
          then map_option VFloat64 (Answer_Probability answer (probabilityKey od))
          else Answer_Field answer (field od))"

definition evaluateLeaf :: "CompiledCondition \<Rightarrow> Facts \<Rightarrow> Answers \<Rightarrow> bool" where
  "evaluateLeaf c facts answers =
     (let left = resolveOperand_run (operand c) facts answers in
      if cop c = OperatorExists then (left \<noteq> None) = rightBool c
      else case left of None \<Rightarrow> False
      | Some l \<Rightarrow>
          if cop c = OperatorEq then scalarEqual l (rightScalar c)
          else if cop c = OperatorNeq then \<not> scalarEqual l (rightScalar c)
          else if cop c = OperatorIn then list_ex (\<lambda>candidate. scalarEqual l candidate) (rightList c)
          else if IsOrdering (cop c) then compareOrdered l (rightScalar c) (cop c)
          else False)"

function Evaluate :: "CompiledCondition \<Rightarrow> Facts \<Rightarrow> Answers \<Rightarrow> bool option"
  and evaluateAll :: "CompiledCondition list \<Rightarrow> Facts \<Rightarrow> Answers \<Rightarrow> bool option"
  and evaluateAny :: "CompiledCondition list \<Rightarrow> Facts \<Rightarrow> Answers \<Rightarrow> bool option" where
  "Evaluate (CompiledCondition k cs od op' rs rl rb) facts answers =
     (case k of
        conditionKindAll \<Rightarrow> evaluateAll cs facts answers
      | conditionKindAny \<Rightarrow> evaluateAny cs facts answers
      | conditionKindNot \<Rightarrow>
          (case cs of [] \<Rightarrow> None | c # _ \<Rightarrow> map_option Not (Evaluate c facts answers))
      | conditionKindLeaf \<Rightarrow>
          Some (evaluateLeaf (CompiledCondition k cs od op' rs rl rb) facts answers))"
| "evaluateAll [] facts answers = Some True"
| "evaluateAll (c # cs) facts answers =
     (case Evaluate c facts answers of
        None \<Rightarrow> None | Some b \<Rightarrow> if \<not> b then Some False else evaluateAll cs facts answers)"
| "evaluateAny [] facts answers = Some False"
| "evaluateAny (c # cs) facts answers =
     (case Evaluate c facts answers of
        None \<Rightarrow> None | Some b \<Rightarrow> if b then Some True else evaluateAny cs facts answers)"
  by pat_completeness auto

termination
  by (relation "measure (case_sum (\<lambda>(c, _). size c) (case_sum (\<lambda>(cs, _). size_list size cs)
      (\<lambda>(cs, _). size_list size cs)))") auto

section \<open>The formula a tree stands for\<close>

text \<open>
  \<open>wf_shape\<close> says that every negation has a child; \<open>cond_holds\<close> reads the tree as a
  formula. Evaluation of a well-shaped tree computes that formula.
\<close>

fun wf_shape :: "CompiledCondition \<Rightarrow> bool" where
  "wf_shape (CompiledCondition k cs od op' rs rl rb) =
     ((k = conditionKindNot \<longrightarrow> cs \<noteq> []) \<and> (k \<noteq> conditionKindLeaf \<longrightarrow> list_all wf_shape cs))"

fun cond_holds :: "CompiledCondition \<Rightarrow> Facts \<Rightarrow> Answers \<Rightarrow> bool" where
  "cond_holds (CompiledCondition k cs od op' rs rl rb) facts answers =
     (case k of
        conditionKindAll \<Rightarrow> list_all (\<lambda>c. cond_holds c facts answers) cs
      | conditionKindAny \<Rightarrow> list_ex (\<lambda>c. cond_holds c facts answers) cs
      | conditionKindNot \<Rightarrow> (case cs of [] \<Rightarrow> False | c # _ \<Rightarrow> \<not> cond_holds c facts answers)
      | conditionKindLeaf \<Rightarrow>
          evaluateLeaf (CompiledCondition k cs od op' rs rl rb) facts answers)"

lemma Evaluate_shape:
  "wf_shape c \<Longrightarrow> Evaluate c facts answers = Some (cond_holds c facts answers)"
  and evaluateAll_shape:
  "list_all wf_shape cs \<Longrightarrow>
     evaluateAll cs facts answers = Some (list_all (\<lambda>c. cond_holds c facts answers) cs)"
  and evaluateAny_shape:
  "list_all wf_shape cs \<Longrightarrow>
     evaluateAny cs facts answers = Some (list_ex (\<lambda>c. cond_holds c facts answers) cs)"
proof (induction c facts answers and cs facts answers and cs facts answers
    rule: Evaluate_evaluateAll_evaluateAny.induct)
  case (1 k cs od op' rs rl rb facts answers)
  then show ?case by (cases k) (auto split: list.splits)
qed auto

text \<open>
  The three fact kinds: numbers compare numerically, and values of different kinds are never
  equal.
\<close>

lemma scalarEqual_simps [simp]:
  "scalarEqual (VString s) (VString t) \<longleftrightarrow> s = t"
  "scalarEqual (VBool b) (VBool c) \<longleftrightarrow> b = c"
  "\<not> scalarEqual (VString s) (VBool b)"
  "\<not> scalarEqual (VBool b) (VString s)"
  by (simp_all add: scalarEqual_def)

lemma scalarEqual_number:
  "AsNumber l = Some x \<Longrightarrow> scalarEqual l r \<longleftrightarrow> (\<exists>y. AsNumber r = Some y \<and> f64_eq x y)"
  by (auto simp: scalarEqual_def split: option.splits)

lemma scalarEqual_sym: "scalarEqual l r \<longleftrightarrow> scalarEqual r l"
  by (auto simp: scalarEqual_def f64_eq_sym split: option.splits goval.splits)

lemma scalarEqual_normalised:
  "AsNumber r = Some y \<Longrightarrow> scalarEqual l (VFloat64 y) \<longleftrightarrow> scalarEqual l r"
  by (auto simp: scalarEqual_def split: option.splits)

lemma compareOrdered_normalised:
  "AsNumber r = Some y \<Longrightarrow> compareOrdered l (VFloat64 y) op' \<longleftrightarrow> compareOrdered l r op'"
  by (auto simp: compareOrdered_def split: option.splits)

lemma resolveOperand_run_fact:
  "opKind od = operandKindFact \<Longrightarrow>
     resolveOperand_run od facts answers = map_of facts (factName od)"
  by (simp add: resolveOperand_run_def)

end
