(* ===== verification/Compiled.thy ===== *)
theory Compiled
  imports Condition
begin

text \<open>
  The compiled policy of \<open>internal/pkg/policy/compiled.go\<close>: identity, questions, rules,
  and the validation of caller facts against the declared input contract. The lemmas
  characterise exactly which fact maps are accepted and show that the verdict, error
  included, does not depend on map iteration order.
\<close>

section \<open>Records\<close>

record Ref =
  refName :: string
  refVersion :: string

record CompiledQuestion =
  cqID :: string
  cqType :: QuestionType
  cqInstructions :: goval
  cqNoulCriteria :: "(string, goval) gomap option"
  cqChoiceCriteria :: "(string, goval) gomap"
  cqChoiceKeys :: "string list"
  cqScoreCriteria :: "goval list"

record CompiledRule =
  crID :: string
  crDescription :: string
  crCondition :: "CompiledCondition option"
  crOutcome :: Outcome

definition Rule_Matches :: "CompiledRule \<Rightarrow> Facts \<Rightarrow> Answers \<Rightarrow> bool option" where
  "Rule_Matches r facts answers =
     (case crCondition r of None \<Rightarrow> Some True | Some c \<Rightarrow> Evaluate c facts answers)"

record Compiled =
  cRef :: Ref
  cDescription :: string
  cModel :: string
  cOutcomes :: "Outcome list"
  cDefaultOutcome :: Outcome
  cOutcomeSet :: "Outcome list"
  cRequiredFacts :: "(string, FactType) gomap"
  cOptionalFacts :: "(string, FactType) gomap"
  cStrictInput :: bool
  cQuestions :: "(string, CompiledQuestion) gomap"
  cQuestionIDs :: "string list"
  cPreRules :: "CompiledRule list"
  cDecisionRules :: "CompiledRule list"
  cCanonical :: string
  cHash :: string

definition HasOutcome :: "Compiled \<Rightarrow> Outcome \<Rightarrow> bool" where
  "HasOutcome c o' = (o' \<in> set (cOutcomeSet c))"

definition NeedsProvider :: "Compiled \<Rightarrow> bool" where
  "NeedsProvider c = (0 < length (cQuestionIDs c))"

section \<open>Validation of facts\<close>

definition sortedFactNames :: "(string, 'v) gomap \<Rightarrow> string list" where
  "sortedFactNames source = sorted_keys source"

definition checkRequiredFact :: "Compiled \<Rightarrow> Facts \<Rightarrow> string \<Rightarrow> sentinel + unit" where
  "checkRequiredFact c facts name =
     (case map_of facts name of
        None \<Rightarrow> Inl ErrValidationFailed
      | Some v \<Rightarrow> require (FactType_Matches (the (map_of (cRequiredFacts c) name)) v) ErrValidationFailed)"

definition validateRequiredFacts :: "Compiled \<Rightarrow> Facts \<Rightarrow> sentinel + unit" where
  "validateRequiredFacts c facts =
     for_each (checkRequiredFact c facts) (sortedFactNames (cRequiredFacts c))"

definition checkOptionalFact :: "Compiled \<Rightarrow> Facts \<Rightarrow> string \<Rightarrow> sentinel + unit" where
  "checkOptionalFact c facts name =
     (case map_of facts name of
        None \<Rightarrow> Inr ()
      | Some v \<Rightarrow> require (FactType_Matches (the (map_of (cOptionalFacts c) name)) v) ErrValidationFailed)"

definition validateOptionalFacts :: "Compiled \<Rightarrow> Facts \<Rightarrow> sentinel + unit" where
  "validateOptionalFacts c facts =
     for_each (checkOptionalFact c facts) (sortedFactNames (cOptionalFacts c))"

definition validateNoUndeclaredFacts :: "Compiled \<Rightarrow> Facts \<Rightarrow> sentinel + unit" where
  "validateNoUndeclaredFacts c facts =
     for_each (\<lambda>name. require (has_key (cRequiredFacts c) name \<or> has_key (cOptionalFacts c) name)
         ErrValidationFailed) (sortedFactNames facts)"

definition ValidateFacts :: "Compiled \<Rightarrow> Facts \<Rightarrow> sentinel + unit" where
  "ValidateFacts c facts =
     rbind (validateRequiredFacts c facts) (\<lambda>_.
     rbind (validateOptionalFacts c facts) (\<lambda>_.
     if \<not> cStrictInput c then Inr () else validateNoUndeclaredFacts c facts))"

section \<open>What validated facts satisfy\<close>

text \<open>The input contract, stated on lookups alone.\<close>

definition facts_conform :: "Compiled \<Rightarrow> Facts \<Rightarrow> bool" where
  "facts_conform c facts \<longleftrightarrow>
     (\<forall>n t. map_of (cRequiredFacts c) n = Some t \<longrightarrow>
        (\<exists>v. map_of facts n = Some v \<and> FactType_Matches t v)) \<and>
     (\<forall>n t v. map_of (cOptionalFacts c) n = Some t \<longrightarrow> map_of facts n = Some v \<longrightarrow>
        FactType_Matches t v) \<and>
     (cStrictInput c \<longrightarrow> (\<forall>n v. map_of facts n = Some v \<longrightarrow>
        map_of (cRequiredFacts c) n \<noteq> None \<or> map_of (cOptionalFacts c) n \<noteq> None))"

lemma checkFact_ok:
  "map_of (cRequiredFacts c) n = Some t \<Longrightarrow>
     checkRequiredFact c facts n = Inr u \<longleftrightarrow> (\<exists>v. map_of facts n = Some v \<and> FactType_Matches t v)"
  "map_of (cOptionalFacts c) n = Some t \<Longrightarrow>
     checkOptionalFact c facts n = Inr u \<longleftrightarrow> (\<forall>v. map_of facts n = Some v \<longrightarrow> FactType_Matches t v)"
  by (auto simp: checkRequiredFact_def checkOptionalFact_def require_Inr_iff split: option.splits)

lemma validateRequiredFacts_ok:
  "validateRequiredFacts c facts = Inr u \<longleftrightarrow>
     (\<forall>n t. map_of (cRequiredFacts c) n = Some t \<longrightarrow>
        (\<exists>v. map_of facts n = Some v \<and> FactType_Matches t v))"
  unfolding validateRequiredFacts_def sortedFactNames_def for_each_keys_iff
  by (simp add: checkFact_ok)

lemma validateOptionalFacts_ok:
  "validateOptionalFacts c facts = Inr u \<longleftrightarrow>
     (\<forall>n t v. map_of (cOptionalFacts c) n = Some t \<longrightarrow> map_of facts n = Some v \<longrightarrow>
        FactType_Matches t v)"
  unfolding validateOptionalFacts_def sortedFactNames_def for_each_keys_iff
  by (simp add: checkFact_ok)

lemma validateNoUndeclaredFacts_ok:
  "validateNoUndeclaredFacts c facts = Inr u \<longleftrightarrow>
     (\<forall>n v. map_of facts n = Some v \<longrightarrow>
        map_of (cRequiredFacts c) n \<noteq> None \<or> map_of (cOptionalFacts c) n \<noteq> None)"
  unfolding validateNoUndeclaredFacts_def sortedFactNames_def for_each_keys_iff require_Inr_iff
    has_key_def ..

lemma ValidateFacts_conform: "ValidateFacts c facts = Inr () \<longleftrightarrow> facts_conform c facts"
  by (auto simp: ValidateFacts_def facts_conform_def rbind_Inr_iff validateRequiredFacts_ok
      validateOptionalFacts_ok validateNoUndeclaredFacts_ok)

lemma ValidateFacts_error: "ValidateFacts c facts = Inl e \<Longrightarrow> e = ErrValidationFailed"
  by (auto simp: ValidateFacts_def validateRequiredFacts_def validateOptionalFacts_def
      validateNoUndeclaredFacts_def checkRequiredFact_def checkOptionalFact_def rbind_Inl_iff
      require_Inl_iff dest!: for_each_Inl_mem split: if_splits option.splits)

lemma ValidateFacts_order:
  assumes "same_gomap facts facts'"
  shows "ValidateFacts c facts = ValidateFacts c facts'"
proof -
  note laws = same_gomap_laws [OF assms]
  have "checkRequiredFact c facts = checkRequiredFact c facts'"
    and "checkOptionalFact c facts = checkOptionalFact c facts'"
    by (simp_all add: fun_eq_iff checkRequiredFact_def checkOptionalFact_def laws)
  then show ?thesis
    by (simp add: ValidateFacts_def validateRequiredFacts_def validateOptionalFacts_def
        validateNoUndeclaredFacts_def sortedFactNames_def laws)
qed

end
