(* ===== verification/CompileCondition.thy ===== *)
theory CompileCondition
  imports Compiled
begin

text \<open>
  The condition compiler of \<open>internal/pkg/policy/compile_condition.go\<close>. The state a
  compilation carries is the record \<open>compiler\<close>; the rule identifier the source threads
  through for its messages is dropped. The lemmas show that a compiled tree is well typed
  against the declarations and that evaluating it computes the meaning \<open>denote\<close> of the
  document's own condition.
\<close>

section \<open>The compiler's state\<close>

datatype rulePhase = rulePhasePre | rulePhaseDecision

definition allowsAnswers :: "rulePhase \<Rightarrow> bool" where
  "allowsAnswers p = (p = rulePhaseDecision)"

record compiler =
  kMaxQuestions :: int
  kOutcomes :: "Outcome list"
  kFacts :: "(string, FactType) gomap"
  kQuestions :: "(string, CompiledQuestion) gomap"
  kRuleIDs :: "string list"

definition zeroOperand :: CompiledOperand where
  "zeroOperand = \<lparr>opKind = operandKindFact, factName = [], factType = [], questionID = [],
     field = [], questionType = [], probabilityKey = []\<rparr>"

definition minProbability :: float64 where "minProbability = Fin 0"
definition maxProbability :: float64 where "maxProbability = Fin 1"

section \<open>Operands\<close>

definition resolveFactOperand :: "compiler \<Rightarrow> Operand \<Rightarrow> sentinel + CompiledOperand" where
  "resolveFactOperand c od =
     (if opField od \<noteq> [] \<or> opProbabilityKey od \<noteq> [] then Inl ErrInvalidCondition
      else case map_of (kFacts c) (opFact od) of
        None \<Rightarrow> Inl ErrUnknownReference
      | Some t \<Rightarrow> Inr (zeroOperand\<lparr>opKind := operandKindFact, factName := opFact od, factType := t\<rparr>))"

definition validateNoProbabilityKey :: "Operand \<Rightarrow> sentinel + string" where
  "validateNoProbabilityKey od =
     (if opProbabilityKey od = [] then Inr [] else Inl ErrInvalidCondition)"

definition validateChoiceProbabilityKey :: "CompiledQuestion \<Rightarrow> Operand \<Rightarrow> sentinel + string" where
  "validateChoiceProbabilityKey q od =
     (if \<not> IsIdentifier (opProbabilityKey od) then Inl ErrInvalidCondition
      else if \<not> has_key (cqChoiceCriteria q) (opProbabilityKey od) then Inl ErrUnknownReference
      else Inr (opProbabilityKey od))"

definition validateScoreProbabilityKey :: "CompiledQuestion \<Rightarrow> Operand \<Rightarrow> sentinel + string" where
  "validateScoreProbabilityKey q od =
     (case Atoi (opProbabilityKey od) of
        None \<Rightarrow> Inl ErrInvalidCondition
      | Some level \<Rightarrow>
          if \<not> (0 \<le> level \<and> Itoa level = opProbabilityKey od) then Inl ErrInvalidCondition
          else if int (length (cqScoreCriteria q)) \<le> level then Inl ErrUnknownReference
          else Inr (opProbabilityKey od))"

definition validateProbabilityKey :: "CompiledQuestion \<Rightarrow> Operand \<Rightarrow> sentinel + string" where
  "validateProbabilityKey q od =
     (if opField od \<noteq> AnswerFieldProbability then validateNoProbabilityKey od
      else if opProbabilityKey od = [] then Inl ErrInvalidCondition
      else if MaxIdentifierLength < length (opProbabilityKey od) then Inl ErrInvalidCondition
      else if cqType q = QuestionTypeChoice then validateChoiceProbabilityKey q od
      else if cqType q = QuestionTypeScore then validateScoreProbabilityKey q od
      else if cqType q = QuestionTypeNoul then Inl ErrTypeMismatch
      else Inl ErrInvalidCondition)"

definition resolveAnswerOperand :: "compiler \<Rightarrow> Operand \<Rightarrow> rulePhase \<Rightarrow> sentinel + CompiledOperand" where
  "resolveAnswerOperand c od phase =
     (if \<not> allowsAnswers phase then Inl ErrInvalidCondition
      else case map_of (kQuestions c) (opAnswer od) of
        None \<Rightarrow> Inl ErrUnknownReference
      | Some q \<Rightarrow>
          if \<not> AnswerField_IsValid (opField od) then Inl ErrInvalidCondition
          else if \<not> AvailableOn (opField od) (cqType q) then Inl ErrTypeMismatch
          else rbind (validateProbabilityKey q od) (\<lambda>key.
            Inr (zeroOperand\<lparr>opKind := operandKindAnswer, questionID := opAnswer od,
              field := opField od, questionType := cqType q, probabilityKey := key\<rparr>)))"

definition resolveOperand :: "compiler \<Rightarrow> Operand \<Rightarrow> rulePhase \<Rightarrow> sentinel + CompiledOperand" where
  "resolveOperand c od phase =
     (let hasFact = (opFact od \<noteq> []); hasAnswer = (opAnswer od \<noteq> []) in
      if hasFact = hasAnswer then Inl ErrInvalidCondition
      else if hasFact then resolveFactOperand c od
      else resolveAnswerOperand c od phase)"

section \<open>Right operands\<close>

definition checkNumberFactRightValue :: "goval \<Rightarrow> sentinel + goval" where
  "checkNumberFactRightValue raw =
     (case AsNumber raw of None \<Rightarrow> Inl ErrTypeMismatch | Some x \<Rightarrow> Inr (VFloat64 x))"

definition checkStringFactRightValue :: "goval \<Rightarrow> Operator \<Rightarrow> sentinel + goval" where
  "checkStringFactRightValue raw op' =
     (if IsOrdering op' then Inl ErrTypeMismatch
      else case raw of
        VString t \<Rightarrow> if MaxStringValueLength < length t then Inl ErrInvalidCondition else Inr (VString t)
      | _ \<Rightarrow> Inl ErrTypeMismatch)"

definition checkBooleanFactRightValue :: "goval \<Rightarrow> Operator \<Rightarrow> sentinel + goval" where
  "checkBooleanFactRightValue raw op' =
     (if op' \<noteq> OperatorEq \<and> op' \<noteq> OperatorNeq then Inl ErrTypeMismatch
      else case raw of VBool b \<Rightarrow> Inr (VBool b) | _ \<Rightarrow> Inl ErrTypeMismatch)"

definition checkFactRightValue :: "goval \<Rightarrow> CompiledOperand \<Rightarrow> Operator \<Rightarrow> sentinel + goval" where
  "checkFactRightValue raw od op' =
     (if factType od = FactTypeNumber then checkNumberFactRightValue raw
      else if factType od = FactTypeString then checkStringFactRightValue raw op'
      else if factType od = FactTypeBoolean then checkBooleanFactRightValue raw op'
      else Inl ErrTypeMismatch)"

definition checkNumericAnswerRange :: "float64 \<Rightarrow> CompiledOperand \<Rightarrow> sentinel + unit" where
  "checkNumericAnswerRange number od =
     (if (field od = AnswerFieldConfidence \<or> field od = AnswerFieldNoul
          \<or> field od = AnswerFieldProbability)
         \<and> (f64_lt number minProbability \<or> f64_lt maxProbability number)
      then Inl ErrInvalidCondition else Inr ())"

definition checkChoiceRightValue :: "compiler \<Rightarrow> goval \<Rightarrow> CompiledOperand \<Rightarrow> Operator \<Rightarrow> sentinel + goval" where
  "checkChoiceRightValue c raw od op' =
     (if IsOrdering op' then Inl ErrTypeMismatch
      else case raw of
        VString key \<Rightarrow>
          (case map_of (kQuestions c) (questionID od) of
             None \<Rightarrow> Inl ErrUnknownReference
           | Some q \<Rightarrow> if has_key (cqChoiceCriteria q) key then Inr (VString key)
               else Inl ErrUnknownReference)
      | _ \<Rightarrow> Inl ErrTypeMismatch)"

definition checkAnswerRightValue :: "compiler \<Rightarrow> goval \<Rightarrow> CompiledOperand \<Rightarrow> Operator \<Rightarrow> sentinel + goval" where
  "checkAnswerRightValue c raw od op' =
     (if field od = AnswerFieldChoice then checkChoiceRightValue c raw od op'
      else case AsNumber raw of
        None \<Rightarrow> Inl ErrTypeMismatch
      | Some number \<Rightarrow>
          rbind (checkNumericAnswerRange number od) (\<lambda>_. Inr (VFloat64 number)))"

definition checkRightValue :: "compiler \<Rightarrow> CompiledOperand \<Rightarrow> Operator \<Rightarrow> goval \<Rightarrow> sentinel + goval" where
  "checkRightValue c od op' raw =
     (if opKind od = operandKindFact then checkFactRightValue raw od op'
      else checkAnswerRightValue c raw od op')"

definition compileRightScalar :: "compiler \<Rightarrow> goval \<Rightarrow> CompiledOperand \<Rightarrow> Operator \<Rightarrow> sentinel + goval" where
  "compileRightScalar c raw od op' =
     (if raw = VNil then Inl ErrInvalidCondition else checkRightValue c od op' raw)"

definition compileRightList :: "compiler \<Rightarrow> goval \<Rightarrow> CompiledOperand \<Rightarrow> sentinel + goval list" where
  "compileRightList c raw od =
     (case raw of
        VList entries \<Rightarrow>
          if entries = [] then Inl ErrInvalidCondition
          else if MaxRightListLength < length entries then Inl ErrInvalidCondition
          else map_result (checkRightValue c od OperatorIn) entries
      | _ \<Rightarrow> Inl ErrInvalidCondition)"

definition compileExistsRight :: "goval \<Rightarrow> sentinel + bool" where
  "compileExistsRight raw =
     (case raw of VNil \<Rightarrow> Inr True | VBool b \<Rightarrow> Inr b | _ \<Rightarrow> Inl ErrInvalidCondition)"

section \<open>Leaves and combinators\<close>

definition compileExistsLeaf :: "goval \<Rightarrow> CompiledOperand \<Rightarrow> sentinel + CompiledCondition" where
  "compileExistsLeaf right od =
     rbind (compileExistsRight right) (\<lambda>expected.
       if opKind od = operandKindAnswer \<and> field od \<noteq> AnswerFieldConfidence
       then Inl ErrInvalidCondition
       else Inr (CompiledCondition conditionKindLeaf [] od OperatorExists VNil [] expected))"

definition compileInLeaf :: "compiler \<Rightarrow> goval \<Rightarrow> CompiledOperand \<Rightarrow> sentinel + CompiledCondition" where
  "compileInLeaf c right od =
     rbind (compileRightList c right od) (\<lambda>vs.
       Inr (CompiledCondition conditionKindLeaf [] od OperatorIn VNil vs False))"

definition compileScalarLeaf ::
  "compiler \<Rightarrow> goval \<Rightarrow> CompiledOperand \<Rightarrow> Operator \<Rightarrow> sentinel + CompiledCondition" where
  "compileScalarLeaf c right od op' =
     rbind (compileRightScalar c right od op') (\<lambda>v.
       Inr (CompiledCondition conditionKindLeaf [] od op' v [] False))"

definition compileLeaf ::
  "compiler \<Rightarrow> Operand \<Rightarrow> Operator \<Rightarrow> goval \<Rightarrow> rulePhase \<Rightarrow> sentinel + CompiledCondition" where
  "compileLeaf c left op' right phase =
     (if \<not> Operator_IsValid op' then Inl ErrInvalidCondition
      else rbind (resolveOperand c left phase) (\<lambda>od.
        if op' = OperatorExists then compileExistsLeaf right od
        else if op' = OperatorIn then compileInLeaf c right od
        else compileScalarLeaf c right od op'))"

definition branches :: "Condition \<Rightarrow> nat" where
  "branches cond = (if condAll cond \<noteq> [] then 1 else 0) + (if condAny cond \<noteq> [] then 1 else 0)
     + (if condNot cond \<noteq> None then 1 else 0) + (if condLeft cond \<noteq> None then 1 else 0)"

text \<open>
  \<open>compileCondition\<close>, \<open>compileCombinator\<close> and the loop over its children. With exactly
  one branch and no combinator the left operand is set, so the last \<open>None\<close> is not reached.
\<close>

fun compileCondition :: "compiler \<Rightarrow> Condition \<Rightarrow> rulePhase \<Rightarrow> nat \<Rightarrow> sentinel + CompiledCondition"
  and compileCombinator ::
    "compiler \<Rightarrow> Condition list \<Rightarrow> conditionKind \<Rightarrow> rulePhase \<Rightarrow> nat \<Rightarrow> sentinel + CompiledCondition"
  and compileChildren ::
    "compiler \<Rightarrow> Condition list \<Rightarrow> rulePhase \<Rightarrow> nat \<Rightarrow> sentinel + CompiledCondition list" where
  "compileCondition c (Condition al an nt lf op' rt) phase depth =
     (if MaxConditionDepth < depth then Inl ErrInvalidCondition
      else if branches (Condition al an nt lf op' rt) \<noteq> 1 then Inl ErrInvalidCondition
      else if al \<noteq> [] then compileCombinator c al conditionKindAll phase depth
      else if an \<noteq> [] then compileCombinator c an conditionKindAny phase depth
      else case nt of
        Some n \<Rightarrow> compileCombinator c [n] conditionKindNot phase depth
      | None \<Rightarrow> (case lf of
          Some left \<Rightarrow> compileLeaf c left op' rt phase
        | None \<Rightarrow> Inl ErrInvalidCondition))"
| "compileCombinator c cs k phase depth =
     (if MaxConditionsPerOp < length cs then Inl ErrInvalidCondition
      else rbind (compileChildren c cs phase depth) (\<lambda>cs'.
        Inr (CompiledCondition k cs' zeroOperand [] VNil [] False)))"
| "compileChildren c [] phase depth = Inr []"
| "compileChildren c (x # xs) phase depth =
     rbind (compileCondition c x phase (depth + 1)) (\<lambda>y.
       rbind (compileChildren c xs phase depth) (\<lambda>ys. Inr (y # ys)))"

lemmas right_value_defs = checkRightValue_def checkFactRightValue_def checkNumberFactRightValue_def
  checkStringFactRightValue_def checkBooleanFactRightValue_def checkAnswerRightValue_def
  checkNumericAnswerRange_def checkChoiceRightValue_def

lemmas operand_defs = resolveOperand_def resolveFactOperand_def resolveAnswerOperand_def
  validateProbabilityKey_def validateNoProbabilityKey_def validateChoiceProbabilityKey_def
  validateScoreProbabilityKey_def

lemmas leaf_defs = compileLeaf_def compileExistsLeaf_def compileInLeaf_def compileScalarLeaf_def
  compileExistsRight_def compileRightList_def compileRightScalar_def

section \<open>The meaning of a document's condition\<close>

text \<open>
  The meaning is read off the document alone, with no reference to the compiler: a leaf reads
  the named fact or answer field and compares it with the right operand as written.
\<close>

definition read_operand :: "Operand \<Rightarrow> Facts \<Rightarrow> Answers \<Rightarrow> goval option" where
  "read_operand od facts answers =
     (if opFact od \<noteq> [] then map_of facts (opFact od)
      else case map_of answers (opAnswer od) of
        None \<Rightarrow> None
      | Some answer \<Rightarrow>
          if opField od = AnswerFieldProbability
          then map_option VFloat64 (Answer_Probability answer (opProbabilityKey od))
          else Answer_Field answer (opField od))"

definition denote_leaf :: "Operand \<Rightarrow> Operator \<Rightarrow> goval \<Rightarrow> Facts \<Rightarrow> Answers \<Rightarrow> bool" where
  "denote_leaf od op' right facts answers =
     (let left = read_operand od facts answers in
      if op' = OperatorExists then (left \<noteq> None) = (right \<noteq> VBool False)
      else case left of None \<Rightarrow> False
      | Some l \<Rightarrow>
          if op' = OperatorEq then scalarEqual l right
          else if op' = OperatorNeq then \<not> scalarEqual l right
          else if op' = OperatorIn
          then (case right of VList rs \<Rightarrow> list_ex (scalarEqual l) rs | _ \<Rightarrow> False)
          else compareOrdered l right op')"

fun denote :: "Condition \<Rightarrow> Facts \<Rightarrow> Answers \<Rightarrow> bool" where
  "denote (Condition al an nt lf op' rt) facts answers =
     (if al \<noteq> [] then list_all (\<lambda>x. denote x facts answers) al
      else if an \<noteq> [] then list_ex (\<lambda>x. denote x facts answers) an
      else case nt of
        Some n \<Rightarrow> \<not> denote n facts answers
      | None \<Rightarrow> (case lf of Some left \<Rightarrow> denote_leaf left op' rt facts answers | None \<Rightarrow> False))"

section \<open>Typing of compiled conditions\<close>

definition probability_key_ok :: "CompiledQuestion \<Rightarrow> string \<Rightarrow> bool" where
  "probability_key_ok q key \<longleftrightarrow>
     cqType q = QuestionTypeChoice \<and> has_key (cqChoiceCriteria q) key
     \<or> cqType q = QuestionTypeScore \<and> (\<exists>i < length (cqScoreCriteria q). key = Itoa (int i))"

definition wt_operand ::
  "(string, FactType) gomap \<Rightarrow> (string, CompiledQuestion) gomap \<Rightarrow> rulePhase \<Rightarrow> CompiledOperand \<Rightarrow> bool" where
  "wt_operand facts questions phase od \<longleftrightarrow>
     (case opKind od of
        operandKindFact \<Rightarrow> map_of facts (factName od) = Some (factType od)
      | operandKindAnswer \<Rightarrow> phase = rulePhaseDecision \<and>
          (\<exists>q. map_of questions (questionID od) = Some q \<and> questionType od = cqType q \<and>
             AvailableOn (field od) (cqType q) \<and>
             (field od = AnswerFieldProbability \<longrightarrow> probability_key_ok q (probabilityKey od))))"

definition wt_right ::
  "(string, CompiledQuestion) gomap \<Rightarrow> CompiledOperand \<Rightarrow> Operator \<Rightarrow> goval \<Rightarrow> bool" where
  "wt_right questions od op' v \<longleftrightarrow>
     (case opKind od of
        operandKindFact \<Rightarrow> FactType_Matches (factType od) v
          \<and> (factType od = FactTypeNumber \<longrightarrow> (\<exists>x. v = VFloat64 x))
          \<and> (factType od = FactTypeString \<longrightarrow> \<not> IsOrdering op' \<and>
              (\<exists>t. v = VString t \<and> length t \<le> MaxStringValueLength))
          \<and> (factType od = FactTypeBoolean \<longrightarrow> op' = OperatorEq \<or> op' = OperatorNeq)
      | operandKindAnswer \<Rightarrow>
          if field od = AnswerFieldChoice
          then \<not> IsOrdering op' \<and> (\<exists>q k. map_of questions (questionID od) = Some q
            \<and> v = VString k \<and> has_key (cqChoiceCriteria q) k)
          else (\<exists>x. v = VFloat64 x \<and>
            (field od \<noteq> AnswerFieldScore \<longrightarrow> \<not> f64_lt x minProbability \<and> \<not> f64_lt maxProbability x)))"

definition wt_leaf ::
  "(string, FactType) gomap \<Rightarrow> (string, CompiledQuestion) gomap \<Rightarrow> rulePhase \<Rightarrow>
    CompiledOperand \<Rightarrow> Operator \<Rightarrow> goval \<Rightarrow> goval list \<Rightarrow> bool" where
  "wt_leaf facts questions phase od op' rs rl \<longleftrightarrow>
     Operator_IsValid op' \<and> wt_operand facts questions phase od \<and>
     (if op' = OperatorExists then opKind od = operandKindFact \<or> field od = AnswerFieldConfidence
      else if op' = OperatorIn
      then rl \<noteq> [] \<and> length rl \<le> MaxRightListLength \<and> list_all (wt_right questions od op') rl
      else wt_right questions od op' rs)"

fun wt_cond ::
  "(string, FactType) gomap \<Rightarrow> (string, CompiledQuestion) gomap \<Rightarrow> rulePhase \<Rightarrow> nat \<Rightarrow>
    CompiledCondition \<Rightarrow> bool" where
  "wt_cond facts questions phase d (CompiledCondition k cs od op' rs rl rb) =
     (d \<le> MaxConditionDepth \<and>
      (case k of
         conditionKindLeaf \<Rightarrow> cs = [] \<and> wt_leaf facts questions phase od op' rs rl
       | conditionKindNot \<Rightarrow> length cs = 1 \<and> list_all (wt_cond facts questions phase (d + 1)) cs
       | _ \<Rightarrow> cs \<noteq> [] \<and> length cs \<le> MaxConditionsPerOp
           \<and> list_all (wt_cond facts questions phase (d + 1)) cs))"

section \<open>A compiled condition computes the document's meaning\<close>

lemma checkRightValue_meaning:
  assumes "checkRightValue c od op' raw = Inr v"
  shows "scalarEqual l v \<longleftrightarrow> scalarEqual l raw" and "compareOrdered l v op'' \<longleftrightarrow> compareOrdered l raw op''"
  using assms scalarEqual_normalised [of raw _ l] compareOrdered_normalised [of raw _ l]
  by (auto simp: right_value_defs rbind_Inr_iff split: if_splits option.splits goval.splits)

lemma resolveOperand_meaning:
  assumes "resolveOperand c od phase = Inr r"
  shows "resolveOperand_run r facts answers = read_operand od facts answers"
  using assms
  by (auto simp: operand_defs resolveOperand_run_def read_operand_def zeroOperand_def Let_def rbind_Inr_iff
      split: if_splits option.splits)

lemma compileRightList_meaning:
  assumes "compileRightList c raw od = Inr vs"
  shows "\<exists>rs. raw = VList rs \<and> list_ex (scalarEqual l) vs = list_ex (scalarEqual l) rs"
proof -
  from assms obtain rs where raw: "raw = VList rs"
    and "list_all2 (\<lambda>x y. checkRightValue c od OperatorIn x = Inr y) rs vs"
    by (auto simp: compileRightList_def map_result_Inr_iff split: goval.splits if_splits)
  from this(2) have "list_ex (scalarEqual l) vs = list_ex (scalarEqual l) rs"
    by (induction rule: list_all2_induct) (auto dest: checkRightValue_meaning(1))
  with raw show ?thesis by blast
qed

lemma compileExistsRight_meaning:
  "compileExistsRight raw = Inr b \<Longrightarrow> b \<longleftrightarrow> raw \<noteq> VBool False"
  by (auto simp: compileExistsRight_def split: goval.splits)

lemma compileLeaf_meaning:
  assumes "compileLeaf c left op' right phase = Inr cc"
  shows "wf_shape cc \<and> cond_holds cc facts answers = denote_leaf left op' right facts answers"
proof -
  from assms obtain od where valid: "Operator_IsValid op'" and od: "resolveOperand c left phase = Inr od"
    and leaf: "(if op' = OperatorExists then compileExistsLeaf right od
        else if op' = OperatorIn then compileInLeaf c right od
        else compileScalarLeaf c right od op') = Inr cc"
    by (auto simp: compileLeaf_def rbind_Inr_iff split: if_splits)
  note read = resolveOperand_meaning [OF od, of facts answers]
  consider "op' = OperatorExists" | "op' = OperatorIn" | "op' \<noteq> OperatorExists \<and> op' \<noteq> OperatorIn"
    by blast
  then show ?thesis
  proof cases
    case 1
    with leaf show ?thesis
      by (auto simp: compileExistsLeaf_def rbind_Inr_iff denote_leaf_def evaluateLeaf_def read Let_def
          dest!: compileExistsRight_meaning split: if_splits)
  next
    case 2
    with leaf obtain vs where vs: "compileRightList c right od = Inr vs"
      and cc: "cc = CompiledCondition conditionKindLeaf [] od OperatorIn VNil vs False"
      by (auto simp: compileInLeaf_def rbind_Inr_iff decision_consts)
    from compileRightList_meaning [OF vs] obtain rs where right: "right = VList rs"
      by blast
    have same: "list_ex (scalarEqual l) vs = list_ex (scalarEqual l) rs" for l
      using compileRightList_meaning [OF vs, of l] right by auto
    show ?thesis
      by (simp add: 2 cc right same denote_leaf_def evaluateLeaf_def read Let_def
          split: option.split)
  next
    case 3
    with leaf obtain v where v: "checkRightValue c od op' right = Inr v"
      and cc: "cc = CompiledCondition conditionKindLeaf [] od op' v [] False"
      by (auto simp: compileScalarLeaf_def compileRightScalar_def rbind_Inr_iff split: if_splits)
    from 3 valid have "op' = OperatorEq \<or> op' = OperatorNeq \<or> IsOrdering op'"
      by (auto simp: Operator_IsValid_def IsOrdering_def)
    with 3 show ?thesis
      by (auto simp: cc denote_leaf_def evaluateLeaf_def read Let_def checkRightValue_meaning [OF v]
          split: option.splits)
  qed
qed

lemma compileCondition_meaning:
  "compileCondition c cond phase d = Inr cc \<Longrightarrow>
     wf_shape cc \<and> cond_holds cc facts answers = denote cond facts answers"
  and compileCombinator_meaning:
  "compileCombinator c cs k phase d = Inr cc \<Longrightarrow>
     (\<exists>cs'. cc = CompiledCondition k cs' zeroOperand [] VNil [] False \<and> list_all wf_shape cs' \<and>
        list_all2 (\<lambda>x y. cond_holds y facts answers = denote x facts answers) cs cs')"
  and compileChildren_meaning:
  "compileChildren c cs phase d = Inr cs' \<Longrightarrow>
     list_all wf_shape cs' \<and>
     list_all2 (\<lambda>x y. cond_holds y facts answers = denote x facts answers) cs cs'"
proof (induction c cond phase d and c cs k phase d and c cs phase d arbitrary: cc and cc and cs'
    rule: compileCondition_compileCombinator_compileChildren.induct)
  case (1 c al an nt lf op' rt phase depth)
  from "1.prems" have d: "\<not> MaxConditionDepth < depth"
    and b: "branches (Condition al an nt lf op' rt) = 1"
    by (auto split: if_splits)
  consider "al \<noteq> []" | "al = []" "an \<noteq> []" | n where "al = []" "an = []" "nt = Some n"
    | left where "al = []" "an = []" "nt = None" "lf = Some left"
    using b by (cases nt; cases lf) (auto simp: branches_def split: if_splits)
  then show ?case
  proof cases
    case 1
    with "1.IH"(1) "1.prems" d b show ?thesis
      by (auto simp del: compileCombinator.simps dest: list_all2_quantifiers(1))
  next
    case 2
    with "1.IH"(2) "1.prems" d b show ?thesis
      by (auto simp del: compileCombinator.simps dest: list_all2_quantifiers(2))
  next
    case 3
    with "1.IH"(3) [of n cc] "1.prems" d b show ?thesis
      by (auto simp del: compileCombinator.simps simp: list_all2_Cons1)
  next
    case 4
    with "1.prems" d b show ?thesis
      by (auto dest: compileLeaf_meaning)
  qed
next
  case (2 c cs k phase depth)
  then show ?case by (auto simp: rbind_Inr_iff split: if_splits)
next
  case (3 c phase depth)
  then show ?case by simp
next
  case (4 c x xs phase depth)
  then show ?case by (auto simp: rbind_Inr_iff)
qed

lemma compileCondition_Evaluate:
  assumes "compileCondition c cond phase d = Inr cc"
  shows "Evaluate cc facts answers = Some (denote cond facts answers)"
  using compileCondition_meaning [OF assms, of facts answers] by (simp add: Evaluate_shape)

section \<open>A compiled condition is well typed\<close>

lemma checkRightValue_wt:
  assumes "checkRightValue c od op' raw = Inr v" and "wt_operand (kFacts c) (kQuestions c) phase od"
  shows "wt_right (kQuestions c) od op' v"
  using assms
  by (auto simp: right_value_defs wt_right_def wt_operand_def rbind_Inr_iff FactType_Matches_def
      is_string_def is_bool_def AvailableOn_def
      split: if_splits option.splits goval.splits operandKind.splits)

lemma validateProbabilityKey_ok:
  assumes "validateProbabilityKey q od = Inr key" and "opField od = AnswerFieldProbability"
  shows "probability_key_ok q key"
proof -
  have "\<exists>i < length (cqScoreCriteria q). opProbabilityKey od = Itoa (int i)"
    if "Itoa n = opProbabilityKey od" "0 \<le> n" "n < int (length (cqScoreCriteria q))" for n
    using that by (intro exI [of _ "nat n"]) auto
  with assms show ?thesis
    by (auto simp: validateProbabilityKey_def validateChoiceProbabilityKey_def
        validateScoreProbabilityKey_def probability_key_ok_def not_le
        split: if_splits option.splits)
qed

lemma resolveOperand_wt:
  assumes "resolveOperand c od phase = Inr r"
  shows "wt_operand (kFacts c) (kQuestions c) phase r"
  using assms
  by (auto simp: resolveOperand_def resolveFactOperand_def resolveAnswerOperand_def wt_operand_def
      zeroOperand_def allowsAnswers_def Let_def rbind_Inr_iff
      split: if_splits option.splits rulePhase.splits dest: validateProbabilityKey_ok)

lemma compileRightList_wt:
  assumes "compileRightList c raw od = Inr vs" and "wt_operand (kFacts c) (kQuestions c) phase od"
  shows "vs \<noteq> [] \<and> length vs \<le> MaxRightListLength \<and> list_all (wt_right (kQuestions c) od OperatorIn) vs"
proof -
  from assms(1) obtain rs where "rs \<noteq> []" "length rs \<le> MaxRightListLength"
    and all: "list_all2 (\<lambda>x y. checkRightValue c od OperatorIn x = Inr y) rs vs"
    by (auto simp: compileRightList_def map_result_Inr_iff split: goval.splits if_splits)
  moreover from all have "list_all (wt_right (kQuestions c) od OperatorIn) vs"
    by (induction rule: list_all2_induct) (auto intro: checkRightValue_wt [OF _ assms(2)])
  ultimately show ?thesis by (auto dest: list_all2_lengthD)
qed

lemma compileLeaf_wt:
  assumes "compileLeaf c left op' right phase = Inr cc" and "d \<le> MaxConditionDepth"
  shows "wt_cond (kFacts c) (kQuestions c) phase d cc"
proof -
  from assms(1) obtain od where od: "resolveOperand c left phase = Inr od"
    by (auto simp: compileLeaf_def rbind_Inr_iff split: if_splits)
  note wt = resolveOperand_wt [OF od]
  with assms show ?thesis
    by (auto simp: od compileLeaf_def compileExistsLeaf_def compileInLeaf_def compileScalarLeaf_def
        compileRightScalar_def wt_leaf_def rbind_Inr_iff split: if_splits operandKind.split
        dest: compileRightList_wt checkRightValue_wt intro: operandKind.exhaust)
qed

lemma compileCondition_wt:
  "compileCondition c cond phase d = Inr cc \<Longrightarrow> wt_cond (kFacts c) (kQuestions c) phase d cc"
  and compileCombinator_wt:
  "compileCombinator c cs k phase d = Inr cc \<Longrightarrow> length cs \<le> MaxConditionsPerOp \<and>
     (\<exists>cs'. cc = CompiledCondition k cs' zeroOperand [] VNil [] False \<and> length cs' = length cs \<and>
        list_all (wt_cond (kFacts c) (kQuestions c) phase (d + 1)) cs')"
  and compileChildren_wt:
  "compileChildren c cs phase d = Inr cs' \<Longrightarrow> length cs' = length cs \<and>
     list_all (wt_cond (kFacts c) (kQuestions c) phase (d + 1)) cs'"
proof (induction c cond phase d and c cs k phase d and c cs phase d arbitrary: cc and cc and cs'
    rule: compileCondition_compileCombinator_compileChildren.induct)
  case (1 c al an nt lf op' rt phase depth)
  from "1.IH"(3) "1.prems" have "wt_cond (kFacts c) (kQuestions c) phase depth cc"
    if "nt = Some n" "al = []" "an = []" for n
    using that by (fastforce simp del: compileCombinator.simps split: if_splits)
  with "1.IH"(1,2) "1.prems" show ?case
    by (auto simp del: compileCombinator.simps split: if_splits option.splits
        dest!: compileLeaf_wt [where d = depth])
next
  case (2 c cs k phase depth)
  then show ?case by (auto simp: rbind_Inr_iff split: if_splits)
next
  case (3 c phase depth)
  then show ?case by simp
next
  case (4 c x xs phase depth)
  then show ?case by (auto simp: rbind_Inr_iff)
qed

end
