(* ===== verification/QuestionValue.thy ===== *)
theory QuestionValue
  imports Compiled
begin

text \<open>
  Structured question values (\<open>internal/pkg/policy/question_value.go\<close>): instructions and
  criteria are re-encoded through JSON and bounded in nodes, depth and encoded size. The
  lemmas give the exact set of values the bounding walk accepts and the guarantees a compiled
  criterion carries.
\<close>

section \<open>The bounding walk\<close>

lemma size_map_snd: "size_list (size \<circ> snd) kvs \<le> size_list (size_prod f size) kvs"
  by (induction kvs) auto

text \<open>The pointer \<open>nodes\<close> is threaded: the walk returns its value after the subtree.\<close>

function validateQuestionValue :: "goval \<Rightarrow> nat \<Rightarrow> nat \<Rightarrow> sentinel + nat"
  and validateQuestionChildren :: "goval list \<Rightarrow> nat \<Rightarrow> nat \<Rightarrow> sentinel + nat" where
  "validateQuestionValue v depth nodes =
     (if MaxQuestionValueNodes < nodes + 1 then Inl ErrInvalidQuestion
      else if MaxQuestionValueDepth < depth then Inl ErrInvalidQuestion
      else case v of
        VNil \<Rightarrow> Inr (nodes + 1)
      | VString _ \<Rightarrow> Inr (nodes + 1)
      | VBool _ \<Rightarrow> Inr (nodes + 1)
      | VNumber _ \<Rightarrow> Inr (nodes + 1)
      | VList xs \<Rightarrow> validateQuestionChildren xs depth (nodes + 1)
      | VMap kvs \<Rightarrow> validateQuestionChildren (map snd kvs) depth (nodes + 1)
      | _ \<Rightarrow> Inl (ErrOther ''unsupported value''))"
| "validateQuestionChildren [] depth nodes = Inr nodes"
| "validateQuestionChildren (x # xs) depth nodes =
     rbind (validateQuestionValue x (depth + 1) nodes) (\<lambda>nodes'.
       validateQuestionChildren xs depth nodes')"
  by pat_completeness auto

termination
  by (relation "measure (case_sum (\<lambda>(v, _). 2 * size v) (\<lambda>(xs, _). 2 * size_list size xs + 1))")
    (auto intro!: le_imp_less_Suc mult_le_mono2 size_map_snd)

declare validateQuestionValue.simps [simp del]

section \<open>Normalisation and criteria\<close>

definition structured :: "goval \<Rightarrow> bool" where
  "structured v = (case v of VString _ \<Rightarrow> True | VMap _ \<Rightarrow> True | VList _ \<Rightarrow> True | _ \<Rightarrow> False)"

definition normalizeQuestionValue :: "goval \<Rightarrow> bool \<Rightarrow> sentinel + goval" where
  "normalizeQuestionValue raw allowNull =
     (if raw = VNil then (if allowNull then Inr VNil else Inl (ErrOther ''null''))
      else case redecode raw of
        None \<Rightarrow> Inl (ErrOther ''json'')
      | Some normalized \<Rightarrow>
          if \<not> structured normalized then Inl (ErrOther ''shape'')
          else rbind (validateQuestionValue normalized 1 0) (\<lambda>_. Inr normalized))"

definition compileCriteriaValue :: "goval \<Rightarrow> bool \<Rightarrow> sentinel + goval" where
  "compileCriteriaValue raw allowNull =
     (case normalizeQuestionValue raw allowNull of
        Inl _ \<Rightarrow> Inl ErrInvalidQuestion
      | Inr v \<Rightarrow> (case Marshal v of
          None \<Rightarrow> Inl ErrInvalidQuestion
        | Some encoded \<Rightarrow>
            if MaxCriteriaTextLength < length encoded then Inl ErrInvalidQuestion else Inr v))"

fun noulCriteriaEntries :: "(goval \<times> goval) list \<Rightarrow> (string, goval) gomap \<Rightarrow>
    sentinel + (string, goval) gomap" where
  "noulCriteriaEntries [] criteria = Inr criteria"
| "noulCriteriaEntries ((k, v) # kvs) criteria =
     (case k of
        VString s \<Rightarrow> noulCriteriaEntries kvs (AList.update s v criteria)
      | VBool b \<Rightarrow>
          noulCriteriaEntries kvs (AList.update (if b then ''true'' else ''false'') v criteria)
      | _ \<Rightarrow> Inl (ErrOther ''non-string key''))"

definition noulCriteriaMap :: "goval \<Rightarrow> sentinel + (string, goval) gomap" where
  "noulCriteriaMap raw =
     (case raw of
        VMap source \<Rightarrow> Inr source
      | VAnyMap source \<Rightarrow> noulCriteriaEntries source []
      | _ \<Rightarrow> Inl (ErrOther ''not an object''))"

definition noulCriterion :: "(string, goval) gomap \<Rightarrow> string \<Rightarrow> sentinel + goval" where
  "noulCriterion source key =
     (if key \<noteq> ''true'' \<and> key \<noteq> ''false'' then Inl ErrInvalidQuestion
      else compileCriteriaValue (the (map_of source key)) True)"

definition compileNoulCriteria :: "goval \<Rightarrow> sentinel + (string, goval) gomap option" where
  "compileNoulCriteria raw =
     (if raw = VNil then Inr None
      else case noulCriteriaMap raw of
        Inl _ \<Rightarrow> Inl ErrInvalidQuestion
      | Inr source \<Rightarrow>
          rbind (collect (noulCriterion source) (sorted_keys source) []) (\<lambda>criteria.
            Inr (Some criteria)))"

section \<open>What the walk accepts\<close>

text \<open>The size and height of a value, and the shapes a JSON decoder produces.\<close>

fun value_nodes :: "goval \<Rightarrow> nat" where
  "value_nodes (VList xs) = Suc (sum_list (map value_nodes xs))"
| "value_nodes (VMap kvs) = Suc (sum_list (map (\<lambda>(k, v). value_nodes v) kvs))"
| "value_nodes v = 1"

fun value_height :: "goval \<Rightarrow> nat" where
  "value_height (VList xs) = foldr (\<lambda>x m. max (Suc (value_height x)) m) xs 0"
| "value_height (VMap kvs) = foldr (\<lambda>(k, x) m. max (Suc (value_height x)) m) kvs 0"
| "value_height v = 0"

fun json_shaped :: "goval \<Rightarrow> bool" where
  "json_shaped (VList xs) = list_all json_shaped xs"
| "json_shaped (VMap kvs) = list_all (\<lambda>(k, v). json_shaped v) kvs"
| "json_shaped VNil = True"
| "json_shaped (VString s) = True"
| "json_shaped (VBool b) = True"
| "json_shaped (VNumber t) = True"
| "json_shaped v = False"

definition forest_height :: "goval list \<Rightarrow> nat" where
  "forest_height xs = foldr (\<lambda>x m. max (Suc (value_height x)) m) xs 0"

lemma forest_height_simps [simp]:
  "forest_height [] = 0"
  "d + forest_height (x # xs) \<le> b \<longleftrightarrow> d + Suc (value_height x) \<le> b \<and> d + forest_height xs \<le> b"
  by (auto simp: forest_height_def)

lemma map_snd_values:
  "sum_list (map value_nodes (map snd kvs)) = sum_list (map (\<lambda>(k, v). value_nodes v) kvs)"
  "forest_height (map snd kvs) = foldr (\<lambda>(k, x) m. max (Suc (value_height x)) m) kvs 0"
  "list_all json_shaped (map snd kvs) = list_all (\<lambda>(k, v). json_shaped v) kvs"
  by (induction kvs) (auto simp: forest_height_def)

lemma validateQuestionValue_iff:
  "validateQuestionValue v d n = Inr m \<longleftrightarrow> json_shaped v \<and> m = n + value_nodes v \<and>
     m \<le> MaxQuestionValueNodes \<and> d + value_height v \<le> MaxQuestionValueDepth"
  and validateQuestionChildren_iff:
  "n \<le> MaxQuestionValueNodes \<Longrightarrow> d \<le> MaxQuestionValueDepth \<Longrightarrow>
     validateQuestionChildren xs d n = Inr m \<longleftrightarrow> list_all json_shaped xs \<and>
     m = n + sum_list (map value_nodes xs) \<and> m \<le> MaxQuestionValueNodes \<and>
     d + forest_height xs \<le> MaxQuestionValueDepth"
proof (induction v d n and xs d n arbitrary: m and m
    rule: validateQuestionValue_validateQuestionChildren.induct)
  case (1 v d n)
  show ?case
  proof (cases "MaxQuestionValueNodes < n + 1 \<or> MaxQuestionValueDepth < d")
    case True
    moreover have "1 \<le> value_nodes v" by (cases v) auto
    ultimately show ?thesis by (auto simp: validateQuestionValue.simps)
  next
    case False
    with "1.IH" show ?thesis
      by (cases v) (auto simp: validateQuestionValue.simps map_snd_values
          map_snd_values(2) [unfolded forest_height_def] forest_height_def
          simp flip: map_map)
  qed
next
  case (3 x xs d n)
  show ?case
  proof (cases "validateQuestionValue x (d + 1) n")
    case (Inl e)
    with "3.IH"(1) [of "n + value_nodes x"] show ?thesis
      by auto
  next
    case (Inr k)
    with "3.IH"(1) [of k] have "k = n + value_nodes x" "k \<le> MaxQuestionValueNodes" "json_shaped x"
      "Suc (d + value_height x) \<le> MaxQuestionValueDepth" by auto
    with "3.IH"(2) [OF Inr] "3.prems" Inr show ?thesis
      by (simp add: ac_simps)
  qed
qed auto

section \<open>What a compiled criterion guarantees\<close>

definition bounded_value :: "nat \<Rightarrow> goval \<Rightarrow> bool" where
  "bounded_value limit v \<longleftrightarrow> structured v \<and> json_shaped v \<and> value_nodes v \<le> MaxQuestionValueNodes \<and>
     Suc (value_height v) \<le> MaxQuestionValueDepth \<and> (\<exists>t. Marshal v = Some t \<and> length t \<le> limit)"

lemma normalizeQuestionValue_Inr:
  assumes "normalizeQuestionValue raw allowNull = Inr v"
  shows "v = VNil \<and> allowNull \<and> raw = VNil \<or>
    structured v \<and> json_shaped v \<and> value_nodes v \<le> MaxQuestionValueNodes \<and>
    Suc (value_height v) \<le> MaxQuestionValueDepth \<and> redecode raw = Some v"
  using assms
  by (auto simp: normalizeQuestionValue_def rbind_Inr_iff validateQuestionValue_iff
      split: if_splits option.splits)

lemma compileCriteriaValue_Inr:
  assumes "compileCriteriaValue raw allowNull = Inr v"
  shows "v = VNil \<and> allowNull \<or> bounded_value MaxCriteriaTextLength v"
  using assms normalizeQuestionValue_Inr [of raw allowNull]
  by (auto simp: compileCriteriaValue_def bounded_value_def split: sum.splits option.splits if_splits)

lemma compileCriteriaValue_Inl: "compileCriteriaValue raw allowNull = Inl e \<Longrightarrow> e = ErrInvalidQuestion"
  by (auto simp: compileCriteriaValue_def split: sum.splits option.splits if_splits)

lemma compileNoulCriteria_Inl: "compileNoulCriteria raw = Inl e \<Longrightarrow> e = ErrInvalidQuestion"
  by (auto simp: compileNoulCriteria_def noulCriterion_def rbind_Inl_iff
      dest!: collect_Inl_mem compileCriteriaValue_Inl split: sum.splits if_splits)

lemma compileNoulCriteria_Inr:
  assumes "compileNoulCriteria raw = Inr (Some criteria)"
  shows "gomap_ok criteria \<and> fst ` set criteria \<subseteq> {''true'', ''false''} \<and>
    (\<forall>k v. map_of criteria k = Some v \<longrightarrow> v = VNil \<or> bounded_value MaxCriteriaTextLength v)"
proof -
  from assms obtain source where run:
    "collect (noulCriterion source) (sorted_keys source) [] = Inr criteria"
    by (auto simp: compileNoulCriteria_def rbind_Inr_iff split: sum.splits if_splits)
  have keys: "fst ` set criteria = set (sorted_keys source)"
    using collect_keys [OF run] by simp
  have at: "k \<in> {''true'', ''false''} \<and> (\<exists>v. compileCriteriaValue (the (map_of source k)) True = Inr v
      \<and> map_of criteria k = Some v)" if "k \<in> fst ` set criteria" for k
    using collect_at [OF run, of k] that by (auto simp: keys noulCriterion_def split: if_splits)
  have "v = VNil \<or> bounded_value MaxCriteriaTextLength v" if v: "map_of criteria k = Some v" for k v
  proof -
    from v have "k \<in> fst ` set criteria" by (force dest: map_of_SomeD)
    from at [OF this] v show ?thesis by (auto dest: compileCriteriaValue_Inr)
  qed
  with at collect_ok [OF run] show ?thesis by (auto simp: gomap_ok_def)
qed

end
