(* ===== verification/GoSha256.thy ===== *)
theory GoSha256
  imports GoValue "HOL-Library.Word"
begin

text \<open>
  \<open>crypto/sha256\<close> (FIPS 180-4) on byte strings and \<open>encoding/hex\<close>, the digest the
  policy hash, the request hash and the idempotency key hash are made of. The lemmas give the
  shape of a digest: 64 lowercase hexadecimal characters.
\<close>

unbundle bit_operations_syntax

type_synonym word32 = "32 word"

definition sha_k :: "word32 list" where
  "sha_k = [
    1116352408, 1899447441, 3049323471, 3921009573, 961987163, 1508970993, 2453635748, 2870763221,
    3624381080, 310598401, 607225278, 1426881987, 1925078388, 2162078206, 2614888103, 3248222580,
    3835390401, 4022224774, 264347078, 604807628, 770255983, 1249150122, 1555081692, 1996064986,
    2554220882, 2821834349, 2952996808, 3210313671, 3336571891, 3584528711, 113926993, 338241895,
    666307205, 773529912, 1294757372, 1396182291, 1695183700, 1986661051, 2177026350, 2456956037,
    2730485921, 2820302411, 3259730800, 3345764771, 3516065817, 3600352804, 4094571909, 275423344,
    430227734, 506948616, 659060556, 883997877, 958139571, 1322822218, 1537002063, 1747873779,
    1955562222, 2024104815, 2227730452, 2361852424, 2428436474, 2756734187, 3204031479, 3329325298]"

definition sha_init :: "word32 list" where
  "sha_init = [0x6a09e667, 0xbb67ae85, 0x3c6ef372, 0xa54ff53a,
    0x510e527f, 0x9b05688c, 0x1f83d9ab, 0x5be0cd19]"

definition rotr :: "nat \<Rightarrow> word32 \<Rightarrow> word32" where
  "rotr n x = drop_bit n x OR push_bit (32 - n) x"

definition be_bytes :: "nat \<Rightarrow> int \<Rightarrow> int list" where
  "be_bytes k n = map (\<lambda>i. n div 256 ^ (k - 1 - i) mod 256) [0..<k]"

definition sha_pad :: "int list \<Rightarrow> int list" where
  "sha_pad m = (let l = length m; z = (119 - l mod 64) mod 64
     in m @ 128 # replicate z 0 @ be_bytes 8 (8 * int l))"

fun be_words :: "int list \<Rightarrow> word32 list" where
  "be_words (a # b # c # d # r) =
     word_of_int (((a * 256 + b) * 256 + c) * 256 + d) # be_words r"
| "be_words _ = []"

definition next_w :: "word32 list \<Rightarrow> word32" where
  "next_w w = (let n = length w; a = w ! (n - 15); b = w ! (n - 2)
     in w ! (n - 16) + (rotr 7 a XOR rotr 18 a XOR drop_bit 3 a)
        + w ! (n - 7) + (rotr 17 b XOR rotr 19 b XOR drop_bit 10 b))"

fun extend_w :: "nat \<Rightarrow> word32 list \<Rightarrow> word32 list" where
  "extend_w 0 w = w"
| "extend_w (Suc k) w = extend_w k (w @ [next_w w])"

fun sha_round :: "word32 \<times> word32 \<Rightarrow> word32 list \<Rightarrow> word32 list" where
  "sha_round (k, w) [a, b, c, d, e, f, g, h] =
     (let s1 = rotr 6 e XOR rotr 11 e XOR rotr 25 e;
          ch = (e AND f) XOR (NOT e AND g);
          t1 = h + s1 + ch + k + w;
          s0 = rotr 2 a XOR rotr 13 a XOR rotr 22 a;
          maj = (a AND b) XOR (a AND c) XOR (b AND c)
      in [t1 + (s0 + maj), a, b, c, d + t1, e, f, g])"
| "sha_round _ s = s"

definition sha_block :: "word32 list \<Rightarrow> word32 list \<Rightarrow> word32 list" where
  "sha_block s blk = map2 (+) s (fold sha_round (zip sha_k (extend_w 48 blk)) s)"

fun chunks16 :: "nat \<Rightarrow> 'a list \<Rightarrow> 'a list list" where
  "chunks16 0 xs = []"
| "chunks16 (Suc n) xs = take 16 xs # chunks16 n (drop 16 xs)"

definition Sum256 :: "string \<Rightarrow> int list" where
  "Sum256 m = (let ws = be_words (sha_pad (map of_char m));
       s = fold (\<lambda>blk s. sha_block s blk) (chunks16 (length ws div 16) ws) sha_init
     in concat (map (\<lambda>w. be_bytes 4 (uint w)) s))"

definition hex_encode :: "int list \<Rightarrow> string" where
  "hex_encode bs = concat (map (\<lambda>b. [hex_digit (nat (b div 16)), hex_digit (nat (b mod 16))]) bs)"

definition sha256_hex :: "string \<Rightarrow> string" where
  "sha256_hex m = hex_encode (Sum256 m)"

definition is_lower_hex :: "char \<Rightarrow> bool" where
  "is_lower_hex c = (is_digit c \<or> in_range 97 102 c)"

lemma length_be_bytes [simp]: "length (be_bytes k n) = k"
  by (simp add: be_bytes_def)

lemma be_bytes_bound: "b \<in> set (be_bytes k n) \<Longrightarrow> 0 \<le> b \<and> b < 256"
  by (auto simp: be_bytes_def)

lemma sha_round_length: "length (sha_round kw s) = length s"
  by (cases "(kw, s)" rule: sha_round.cases) (auto simp: Let_def)

lemma sha_block_length: "length (sha_block s blk) = length s"
proof -
  have "length (fold sha_round kws s) = length s" for kws
    by (induction kws arbitrary: s) (auto simp: sha_round_length)
  then show ?thesis by (simp add: sha_block_def)
qed

lemma sha_fold_length: "length (fold (\<lambda>blk s. sha_block s blk) blks s) = length s"
  by (induction blks arbitrary: s) (auto simp: sha_block_length)

lemma hex_digit_lower: "d < 16 \<Longrightarrow> is_lower_hex (hex_digit d)"
  by (auto simp: is_lower_hex_def is_digit_def in_range_def byte_def hex_digit_def)

lemma length_concat_const: "(\<And>x. x \<in> set xs \<Longrightarrow> length (f x) = k) \<Longrightarrow> length (concat (map f xs)) = length xs * k"
  by (induction xs) auto

lemma sha256_hex_shape:
  "length (sha256_hex m) = 64 \<and> list_all is_lower_hex (sha256_hex m)"
proof -
  define s where "s = fold (\<lambda>blk s. sha_block s blk)
    (chunks16 (length (be_words (sha_pad (map of_char m))) div 16) (be_words (sha_pad (map of_char m)))) sha_init"
  have l: "length s = 8" by (simp add: s_def sha_fold_length sha_init_def)
  have d: "Sum256 m = concat (map (\<lambda>w. be_bytes 4 (uint w)) s)"
    by (simp add: Sum256_def s_def Let_def)
  have "length (Sum256 m) = 32"
    using l by (simp add: d length_concat_const [where k = 4])
  moreover have "\<forall>b \<in> set (Sum256 m). 0 \<le> b \<and> b < 256"
    by (simp add: d) (blast dest: be_bytes_bound)
  ultimately show ?thesis
    by (auto simp: sha256_hex_def hex_encode_def length_concat_const [where k = 2]
        list_all_iff intro!: hex_digit_lower)
qed

end
