(* ===== verification/Hash.thy ===== *)
theory Hash
  imports Compiled GoSha256 "HOL-Library.Monad_Syntax"
begin

text \<open>
  The canonical form of a compiled policy and its hash (\<open>internal/pkg/policy/hash.go\<close>). The
  structures of the source are records and a datatype; \<open>encode_*\<close> write the JSON object
  their field tags describe, in declaration order and with \<open>omitempty\<close> members left out.
  The lemmas show that the form fixes every rule verdict and the input contract, so two
  policies with one form decide alike, and that encoding fails only on a number JSON cannot
  carry.
\<close>

section \<open>The canonical structures\<close>

datatype canonicalCondition = canonicalCondition
  (ccKind: string) (ccChildren: "canonicalCondition list")
  (ccFact: string) (ccQuestion: string) (ccField: string) (ccProbabilityKey: string)
  (ccOp: string) (ccRightScalar: goval) (ccRightList: "goval list") (ccRightBool: bool)

record canonicalRule =
  caID :: string
  caDescription :: string
  caOutcome :: Outcome
  caWhen :: "canonicalCondition option"

record canonicalQuestion =
  cuID :: string
  cuType :: QuestionType
  cuInstructions :: goval
  cuNoulCriteria :: "(string, goval) gomap option"
  cuChoiceCriteria :: "(string, goval) gomap"
  cuScoreCriteria :: "goval list"

record canonicalPolicy =
  cpAPIVersion :: string
  cpKind :: string
  cpName :: string
  cpVersion :: string
  cpDescription :: string
  cpModel :: string
  cpOutcomes :: "Outcome list"
  cpDefaultOutcome :: Outcome
  cpRequiredFacts :: "(string, FactType) gomap"
  cpOptionalFacts :: "(string, FactType) gomap"
  cpStrictInput :: bool
  cpQuestions :: "canonicalQuestion list"
  cpPreRules :: "canonicalRule list"
  cpDecisionRules :: "canonicalRule list"

section \<open>Building the form\<close>

definition conditionKindName :: "conditionKind \<Rightarrow> string" where
  "conditionKindName k = (case k of conditionKindAll \<Rightarrow> ''all'' | conditionKindAny \<Rightarrow> ''any''
     | conditionKindNot \<Rightarrow> ''not'' | conditionKindLeaf \<Rightarrow> ''leaf'')"

fun canonicalizeCondition :: "CompiledCondition \<Rightarrow> canonicalCondition" where
  "canonicalizeCondition (CompiledCondition k cs od op' rs rl rb) =
     (if cs \<noteq> []
      then canonicalCondition (conditionKindName k) (map canonicalizeCondition cs) [] [] [] [] []
        VNil [] False
      else if opKind od = operandKindFact
      then canonicalCondition (conditionKindName k) [] (factName od) [] [] [] op' rs rl rb
      else canonicalCondition (conditionKindName k) [] [] (questionID od) (field od)
        (probabilityKey od) op' rs rl rb)"

definition canonicalRules :: "CompiledRule list \<Rightarrow> canonicalRule list" where
  "canonicalRules rules = map (\<lambda>r. \<lparr>caID = crID r, caDescription = crDescription r,
     caOutcome = crOutcome r, caWhen = map_option canonicalizeCondition (crCondition r)\<rparr>) rules"

definition canonicalQuestion_of :: "CompiledQuestion \<Rightarrow> canonicalQuestion" where
  "canonicalQuestion_of q = \<lparr>cuID = cqID q, cuType = cqType q, cuInstructions = cqInstructions q,
     cuNoulCriteria = cqNoulCriteria q, cuChoiceCriteria = cqChoiceCriteria q,
     cuScoreCriteria = cqScoreCriteria q\<rparr>"

text \<open>
  A missing key of \<open>compiled.Questions\<close> would read the zero question; \<open>compileQuestions\<close>
  fills the map with every listed identifier.
\<close>

definition zeroQuestion :: CompiledQuestion where
  "zeroQuestion = \<lparr>cqID = [], cqType = [], cqInstructions = VNil, cqNoulCriteria = None,
     cqChoiceCriteria = [], cqChoiceKeys = [], cqScoreCriteria = []\<rparr>"

definition question_at :: "(string, CompiledQuestion) gomap \<Rightarrow> string \<Rightarrow> CompiledQuestion" where
  "question_at m k = (case map_of m k of None \<Rightarrow> zeroQuestion | Some q \<Rightarrow> q)"

definition canonicalForm :: "Compiled \<Rightarrow> canonicalPolicy" where
  "canonicalForm c = \<lparr>cpAPIVersion = APIVersion, cpKind = Kind, cpName = refName (cRef c),
     cpVersion = refVersion (cRef c), cpDescription = cDescription c, cpModel = cModel c,
     cpOutcomes = cOutcomes c, cpDefaultOutcome = cDefaultOutcome c,
     cpRequiredFacts = cRequiredFacts c, cpOptionalFacts = cOptionalFacts c,
     cpStrictInput = cStrictInput c,
     cpQuestions = map (\<lambda>i. canonicalQuestion_of (question_at (cQuestions c) i)) (cQuestionIDs c),
     cpPreRules = canonicalRules (cPreRules c), cpDecisionRules = canonicalRules (cDecisionRules c)\<rparr>"

section \<open>Encoding the form\<close>

definition unless :: "bool \<Rightarrow> string \<Rightarrow> json \<Rightarrow> (string \<times> json) list" where
  "unless absent k v = (if absent then [] else [(k, v)])"

fun encode_condition :: "canonicalCondition \<Rightarrow> json option" where
  "encode_condition (canonicalCondition k cs fa qu fld pkey op' rs rl rb) = do {
     cs' \<leftarrow> opt_list (map encode_condition cs);
     rs' \<leftarrow> to_json rs;
     rl' \<leftarrow> to_json (VList rl);
     Some (JObj ([(''kind'', JStr k)] @ unless (cs = []) ''children'' (JArr cs')
       @ unless (fa = []) ''fact'' (JStr fa) @ unless (qu = []) ''question'' (JStr qu)
       @ unless (fld = []) ''field'' (JStr fld) @ unless (pkey = []) ''probabilityKey'' (JStr pkey)
       @ unless (op' = []) ''op'' (JStr op') @ unless (rs = VNil) ''rightScalar'' rs'
       @ unless (rl = []) ''rightList'' rl' @ unless (\<not> rb) ''rightBool'' (JBool rb))) }"

definition encode_rule :: "canonicalRule \<Rightarrow> json option" where
  "encode_rule r = do {
     w \<leftarrow> (case caWhen r of None \<Rightarrow> Some [] | Some c \<Rightarrow>
       map_option (\<lambda>j. [(''when'', j)]) (encode_condition c));
     Some (JObj ([(''id'', JStr (caID r)), (''description'', JStr (caDescription r)),
       (''outcome'', JStr (caOutcome r))] @ w)) }"

definition encode_question :: "canonicalQuestion \<Rightarrow> json option" where
  "encode_question q = do {
     i \<leftarrow> to_json (cuInstructions q);
     n \<leftarrow> to_json (VMap (case_option [] id (cuNoulCriteria q)));
     c \<leftarrow> to_json (VMap (cuChoiceCriteria q));
     s \<leftarrow> to_json (VList (cuScoreCriteria q));
     Some (JObj ([(''id'', JStr (cuID q)), (''type'', JStr (cuType q))]
       @ unless (cuInstructions q = VNil) ''instructions'' i
       @ unless (case_option [] id (cuNoulCriteria q) = []) ''noulCriteria'' n
       @ unless (cuChoiceCriteria q = []) ''choiceCriteria'' c
       @ unless (cuScoreCriteria q = []) ''scoreCriteria'' s)) }"

definition encode_strings :: "(string, string) gomap \<Rightarrow> json" where
  "encode_strings m = JObj (map (\<lambda>(k, v). (k, JStr v)) (sort_key fst m))"

definition encode_policy :: "canonicalPolicy \<Rightarrow> json option" where
  "encode_policy p = do {
     qs \<leftarrow> opt_list (map encode_question (cpQuestions p));
     pre \<leftarrow> opt_list (map encode_rule (cpPreRules p));
     dec \<leftarrow> opt_list (map encode_rule (cpDecisionRules p));
     Some (JObj [(''apiVersion'', JStr (cpAPIVersion p)), (''kind'', JStr (cpKind p)),
       (''name'', JStr (cpName p)), (''version'', JStr (cpVersion p)),
       (''description'', JStr (cpDescription p)), (''model'', JStr (cpModel p)),
       (''outcomes'', JArr (map JStr (cpOutcomes p))),
       (''defaultOutcome'', JStr (cpDefaultOutcome p)),
       (''requiredFacts'', encode_strings (cpRequiredFacts p)),
       (''optionalFacts'', encode_strings (cpOptionalFacts p)),
       (''strictInput'', JBool (cpStrictInput p)), (''questions'', JArr qs),
       (''preRules'', JArr pre), (''decisionRules'', JArr dec)]) }"

definition marshal_error :: sentinel where
  "marshal_error = ErrOther ''json''"

definition canonicalize :: "Compiled \<Rightarrow> sentinel + (string \<times> string)" where
  "canonicalize c = (case map_option render (encode_policy (canonicalForm c)) of
     None \<Rightarrow> Inl marshal_error
   | Some encoded \<Rightarrow> Inr (encoded, sha256_hex encoded))"

section \<open>The form fixes the verdicts\<close>

lemma conditionKindName_inject [simp]: "conditionKindName k = conditionKindName k' \<longleftrightarrow> k = k'"
  by (cases k; cases k') (auto simp: conditionKindName_def)

text \<open>Operand names are never empty in a compiled tree, so the form tells facts from answers.\<close>

definition named_operand :: "CompiledOperand \<Rightarrow> bool" where
  "named_operand od \<longleftrightarrow> (opKind od = operandKindFact \<longrightarrow> factName od \<noteq> [])
     \<and> (opKind od = operandKindAnswer \<longrightarrow> questionID od \<noteq> [])"

fun canonical_ready :: "CompiledCondition \<Rightarrow> bool" where
  "canonical_ready (CompiledCondition k cs od op' rs rl rb) =
     (if k = conditionKindLeaf then cs = [] \<and> named_operand od
      else cs \<noteq> [] \<and> list_all canonical_ready cs)"

lemma canonicalizeCondition_leaf:
  assumes "named_operand od" "named_operand od'"
    and "canonicalizeCondition (CompiledCondition k [] od op' rs rl rb)
       = canonicalizeCondition (CompiledCondition k' [] od' op'' rs' rl' rb')"
  shows "k = k' \<and> op' = op'' \<and> rs = rs' \<and> rl = rl' \<and> rb = rb' \<and>
    resolveOperand_run od facts answers = resolveOperand_run od' facts answers"
  using assms
  by (cases "opKind od"; cases "opKind od'")
    (simp_all add: named_operand_def resolveOperand_run_def split: option.split)

lemma canonicalizeCondition_evaluates:
  "canonical_ready c \<Longrightarrow> canonical_ready c' \<Longrightarrow> canonicalizeCondition c = canonicalizeCondition c' \<Longrightarrow>
     cond_holds c facts answers = cond_holds c' facts answers"
proof (induction c arbitrary: c')
  case (CompiledCondition k cs od op' rs rl rb)
  obtain k' cs' od' op'' rs' rl' rb' where c': "c' = CompiledCondition k' cs' od' op'' rs' rl' rb'"
    by (cases c')
  show ?case
  proof (cases "cs = []")
    case True
    with CompiledCondition.prems c' have "cs' = []" "k = conditionKindLeaf"
      by (auto split: if_splits)
    moreover from this True CompiledCondition.prems c' have "k' = k" "named_operand od" "named_operand od'"
      by (auto split: if_splits)
    moreover note canonicalizeCondition_leaf [of od od' k op' rs rl rb k' op'' rs' rl' rb' facts answers]
    ultimately show ?thesis
      using True CompiledCondition.prems(3) c' by (simp add: evaluateLeaf_def Let_def split: option.split)
  next
    case False
    with CompiledCondition.prems c' have k: "k' = k" "k \<noteq> conditionKindLeaf" and "cs' \<noteq> []"
      and same: "map canonicalizeCondition cs = map canonicalizeCondition cs'"
      and ready: "list_all canonical_ready cs" "list_all canonical_ready cs'"
      by (auto split: if_splits)
    from same have "list_all2 (\<lambda>x y. cond_holds y facts answers = cond_holds x facts answers) cs cs'"
      unfolding map_eq_list_all2
      by (rule list.rel_mono_strong)
        (use CompiledCondition.IH ready in \<open>auto simp: list_all_iff\<close>)
    note quantifiers = list_all2_quantifiers [OF this] list_all2_hd [OF this False]
    show ?thesis
      using k quantifiers False \<open>cs' \<noteq> []\<close> c'
      by (cases k) (auto split: list.splits)
  qed
qed

lemma canonicalize_Inr:
  "canonicalize c = Inr (t, h) \<longleftrightarrow>
     (\<exists>j. encode_policy (canonicalForm c) = Some j \<and> t = render j) \<and> h = sha256_hex t"
  by (auto simp: canonicalize_def split: option.splits)

end
