(* ===== verification/Compile.thy ===== *)
theory Compile
  imports CompileCondition QuestionValue Hash
begin

text \<open>
  The policy compiler (\<open>internal/pkg/policy/compile.go\<close>). Each stage takes the
  \<open>compiler\<close> state and the compiled policy so far and returns both; a stage returns the
  sentinel its error wraps. The lemmas establish \<open>wf_compiled\<close>, the invariant every
  compiled policy satisfies, the class of every error, and that the iteration order of the
  document's maps is immaterial.
\<close>

section \<open>Identity, metadata and outcomes\<close>

definition validateDocumentIdentity :: "Document option \<Rightarrow> sentinel + Document" where
  "validateDocumentIdentity doc =
     (case doc of None \<Rightarrow> Inl ErrInvalidDocument
      | Some d \<Rightarrow>
          if docAPIVersion d \<noteq> APIVersion then Inl ErrUnsupportedAPIVersion
          else if docKind d \<noteq> Kind then Inl ErrUnsupportedKind
          else Inr d)"

definition resolveMaxQuestions :: "int \<Rightarrow> int" where
  "resolveMaxQuestions maxQuestions =
     (if maxQuestions \<le> 0 \<or> MaxQuestions < maxQuestions then MaxQuestions else maxQuestions)"

definition compileMetadata :: "Document \<Rightarrow> Compiled \<Rightarrow> sentinel + Compiled" where
  "compileMetadata doc out =
     (let m = docMetadata doc in
      if \<not> IsDashedIdentifier (metaName m) then Inl ErrInvalidMetadata
      else if metaVersion m = [] \<or> MaxVersionLength < length (metaVersion m) then Inl ErrInvalidMetadata
      else if TrimSpace (metaVersion m) \<noteq> metaVersion m then Inl ErrInvalidMetadata
      else if MaxDescriptionLength < length (metaDescription m) then Inl ErrInvalidMetadata
      else Inr (out\<lparr>cRef := \<lparr>refName = metaName m, refVersion = metaVersion m\<rparr>\<rparr>))"

fun collectOutcomes :: "Outcome list \<Rightarrow> Outcome list \<Rightarrow> sentinel + Outcome list" where
  "collectOutcomes [] seen = Inr seen"
| "collectOutcomes (x # xs) seen =
     (if \<not> Outcome_IsValid x then Inl ErrInvalidOutcome
      else if x \<in> set seen then Inl ErrInvalidOutcome
      else collectOutcomes xs (seen @ [x]))"

definition compileOutcomes :: "compiler \<Rightarrow> Document \<Rightarrow> Compiled \<Rightarrow> sentinel + compiler \<times> Compiled" where
  "compileOutcomes c doc out =
     (let declared = specOutcomes (docSpec doc); dflt = specDefaultOutcome (docSpec doc) in
      if length declared = 0 then Inl ErrInvalidOutcome
      else if MaxOutcomes < length declared then Inl ErrInvalidOutcome
      else rbind (collectOutcomes declared (kOutcomes c)) (\<lambda>outcomes.
        if dflt \<notin> set outcomes then Inl ErrInvalidOutcome
        else Inr (c\<lparr>kOutcomes := outcomes\<rparr>, out\<lparr>cOutcomes := declared, cDefaultOutcome := dflt\<rparr>)))"

section \<open>Facts\<close>

fun collectFacts ::
  "(string, FactType) gomap \<Rightarrow> string list \<Rightarrow> compiler \<Rightarrow> (string, FactType) gomap \<Rightarrow>
    sentinel + compiler \<times> (string, FactType) gomap" where
  "collectFacts source [] c target = Inr (c, target)"
| "collectFacts source (name # names) c target =
     (let t = the (map_of source name) in
      if \<not> IsFactName name then Inl ErrInvalidFact
      else if \<not> FactType_IsValid t then Inl ErrInvalidFact
      else if has_key (kFacts c) name then Inl ErrInvalidFact
      else collectFacts source names (c\<lparr>kFacts := AList.update name t (kFacts c)\<rparr>)
        (AList.update name t target))"

definition compileFacts :: "compiler \<Rightarrow> Document \<Rightarrow> Compiled \<Rightarrow> sentinel + compiler \<times> Compiled" where
  "compileFacts c doc out =
     (let required = inRequiredFacts (specInput (docSpec doc));
          optional = inOptionalFacts (specInput (docSpec doc)) in
      if MaxRequiredFacts < length required + length optional then Inl ErrInvalidFact
      else rbind (collectFacts required (sortedFactNames required) c []) (\<lambda>(c1, req).
        rbind (collectFacts optional (sortedFactNames optional) c1 []) (\<lambda>(c2, opt).
          Inr (c2, out\<lparr>cRequiredFacts := req, cOptionalFacts := opt\<rparr>))))"

section \<open>Questions\<close>

definition compileQuestionInstructions :: "goval \<Rightarrow> sentinel + goval" where
  "compileQuestionInstructions raw =
     (if raw = VNil then Inr VNil
      else case normalizeQuestionValue raw False of
        Inl _ \<Rightarrow> Inl ErrInvalidQuestion
      | Inr instructions \<Rightarrow> (case Marshal instructions of
          None \<Rightarrow> Inl ErrInvalidQuestion
        | Some encoded \<Rightarrow>
            if MaxInstructionsLength < length encoded then Inl ErrInvalidQuestion
            else Inr instructions))"

definition validateChoiceOptionKey :: "string \<Rightarrow> sentinel + unit" where
  "validateChoiceOptionKey key = require (IsIdentifier key) ErrInvalidQuestion"

definition choiceCriterion :: "(string, goval) gomap \<Rightarrow> string \<Rightarrow> sentinel + goval" where
  "choiceCriterion source key =
     rbind (validateChoiceOptionKey key) (\<lambda>_. compileCriteriaValue (the (map_of source key)) True)"

definition compileChoiceCriteria :: "goval \<Rightarrow> sentinel + (string, goval) gomap \<times> string list" where
  "compileChoiceCriteria raw =
     (case raw of
        VMap source \<Rightarrow>
          if length source < MinChoiceCriteria \<or> MaxChoiceCriteria < length source
          then Inl ErrInvalidQuestion
          else rbind (collect (choiceCriterion source) (sorted_keys source) []) (\<lambda>criteria.
            Inr (criteria, sorted_keys source))
      | _ \<Rightarrow> Inl ErrInvalidQuestion)"

definition compileScoreCriteria :: "goval \<Rightarrow> sentinel + goval list" where
  "compileScoreCriteria raw =
     (case raw of
        VList source \<Rightarrow>
          if length source < MinScoreCriteria \<or> MaxScoreCriteria < length source
          then Inl ErrInvalidQuestion
          else map_result (\<lambda>entry. compileCriteriaValue entry False) source
      | _ \<Rightarrow> Inl ErrInvalidQuestion)"

definition compileQuestionCriteria :: "Question \<Rightarrow> CompiledQuestion \<Rightarrow> sentinel + CompiledQuestion" where
  "compileQuestionCriteria q compiled =
     (if qType q = QuestionTypeNoul
      then rbind (compileNoulCriteria (qCriteria q)) (\<lambda>criteria.
        Inr (compiled\<lparr>cqNoulCriteria := criteria\<rparr>))
      else if qType q = QuestionTypeChoice
      then rbind (compileChoiceCriteria (qCriteria q)) (\<lambda>(criteria, keys).
        Inr (compiled\<lparr>cqChoiceCriteria := criteria, cqChoiceKeys := keys\<rparr>))
      else if qType q = QuestionTypeScore
      then rbind (compileScoreCriteria (qCriteria q)) (\<lambda>levels.
        Inr (compiled\<lparr>cqScoreCriteria := levels\<rparr>))
      else Inl ErrInvalidQuestion)"

definition compileQuestion :: "string \<Rightarrow> Question \<Rightarrow> sentinel + CompiledQuestion" where
  "compileQuestion i q =
     (if \<not> IsIdentifier i then Inl ErrInvalidQuestion
      else if \<not> QuestionType_IsValid (qType q) then Inl ErrInvalidQuestion
      else rbind (compileQuestionInstructions (qInstructions q)) (\<lambda>instructions.
        compileQuestionCriteria q (zeroQuestion\<lparr>cqID := i, cqType := qType q,
          cqInstructions := instructions\<rparr>)))"

definition compileQuestions :: "compiler \<Rightarrow> Document \<Rightarrow> Compiled \<Rightarrow> sentinel + compiler \<times> Compiled" where
  "compileQuestions c doc out =
     (let declared = specQuestions (docSpec doc); ids = sorted_keys declared in
      if length declared = 0 then Inl ErrInvalidQuestion
      else if kMaxQuestions c < int (length declared) then Inl ErrInvalidQuestion
      else rbind (collect (\<lambda>i. compileQuestion i (the (map_of declared i))) ids (kQuestions c))
        (\<lambda>questions. Inr (c\<lparr>kQuestions := questions\<rparr>,
           out\<lparr>cQuestions := questions, cQuestionIDs := ids\<rparr>)))"

section \<open>Rules\<close>

definition compileRule :: "compiler \<Rightarrow> Rule \<Rightarrow> rulePhase \<Rightarrow> sentinel + compiler \<times> CompiledRule" where
  "compileRule c rule phase =
     (if \<not> IsDashedIdentifier (ruleID rule) then Inl ErrInvalidRule
      else if ruleID rule \<in> set (kRuleIDs c) then Inl ErrInvalidRule
      else let c' = c\<lparr>kRuleIDs := kRuleIDs c @ [ruleID rule]\<rparr> in
        if MaxDescriptionLength < length (ruleDescription rule) then Inl ErrInvalidRule
        else if ruleOutcome rule \<notin> set (kOutcomes c') then Inl ErrInvalidOutcome
        else
          let entry = \<lparr>crID = ruleID rule, crDescription = ruleDescription rule,
                crCondition = None, crOutcome = ruleOutcome rule\<rparr> in
          case ruleWhen rule of
            None \<Rightarrow> Inr (c', entry)
          | Some w \<Rightarrow> rbind (compileCondition c' w phase 0) (\<lambda>condition.
              Inr (c', entry\<lparr>crCondition := Some condition\<rparr>)))"

fun compileRulesLoop ::
  "Rule list \<Rightarrow> rulePhase \<Rightarrow> bool \<Rightarrow> compiler \<Rightarrow> sentinel + compiler \<times> CompiledRule list" where
  "compileRulesLoop [] phase sawUnconditional c = Inr (c, [])"
| "compileRulesLoop (r # rs) phase sawUnconditional c =
     (if sawUnconditional then Inl ErrInvalidRule
      else rbind (compileRule c r phase) (\<lambda>(c1, entry).
        rbind (compileRulesLoop rs phase (crCondition entry = None) c1) (\<lambda>(c2, entries).
          Inr (c2, entry # entries))))"

definition compileRules :: "compiler \<Rightarrow> Rule list \<Rightarrow> rulePhase \<Rightarrow> sentinel + compiler \<times> CompiledRule list" where
  "compileRules c rules phase =
     (if MaxRules < length rules then Inl ErrInvalidRule
      else compileRulesLoop rules phase False c)"

section \<open>The whole compilation\<close>

definition compileStages :: "compiler \<Rightarrow> Document \<Rightarrow> Compiled \<Rightarrow> sentinel + compiler \<times> Compiled" where
  "compileStages c doc compiled =
     rbind (compileMetadata doc compiled) (\<lambda>p1.
     rbind (compileOutcomes c doc p1) (\<lambda>(c2, p2).
     rbind (compileFacts c2 doc p2) (\<lambda>(c3, p3).
     rbind (compileQuestions c3 doc p3) (\<lambda>(c4, p4).
     rbind (compileRules c4 (specPreRules (docSpec doc)) rulePhasePre) (\<lambda>(c5, pre).
     rbind (compileRules c5 (specDecisionRules (docSpec doc)) rulePhaseDecision) (\<lambda>(c6, dec).
       Inr (c6, p4\<lparr>cPreRules := pre, cDecisionRules := dec\<rparr>)))))))"

definition newCompiler :: "int \<Rightarrow> compiler" where
  "newCompiler maxQuestions = \<lparr>kMaxQuestions = resolveMaxQuestions maxQuestions, kOutcomes = [],
     kFacts = [], kQuestions = [], kRuleIDs = []\<rparr>"

definition newCompiled :: "Document \<Rightarrow> Compiled" where
  "newCompiled doc = \<lparr>cRef = \<lparr>refName = [], refVersion = []\<rparr>,
     cDescription = metaDescription (docMetadata doc), cModel = specModel (docSpec doc),
     cOutcomes = [], cDefaultOutcome = [], cOutcomeSet = [], cRequiredFacts = [],
     cOptionalFacts = [], cStrictInput = inStrict (specInput (docSpec doc)), cQuestions = [],
     cQuestionIDs = [], cPreRules = [], cDecisionRules = [], cCanonical = [], cHash = []\<rparr>"

definition CompileWithMaxQuestions :: "Document option \<Rightarrow> int \<Rightarrow> sentinel + Compiled" where
  "CompileWithMaxQuestions doc maxQuestions =
     rbind (validateDocumentIdentity doc) (\<lambda>d.
     rbind (compileStages (newCompiler maxQuestions) d (newCompiled d)) (\<lambda>(c, p).
       let p' = p\<lparr>cOutcomeSet := kOutcomes c\<rparr> in
       rbind (canonicalize p') (\<lambda>(canonical, hash).
         Inr (p'\<lparr>cCanonical := canonical, cHash := hash\<rparr>))))"

definition Compile :: "Document option \<Rightarrow> sentinel + Compiled" where
  "Compile doc = CompileWithMaxQuestions doc MaxQuestions"

section \<open>Typing depends on the declarations only\<close>

lemma wt_cond_lookup:
  assumes "map_of facts = map_of facts'"
  shows "wt_cond facts questions phase d cc = wt_cond facts' questions phase d cc"
proof (induction cc arbitrary: d)
  case (CompiledCondition k cs od op' rs rl rb)
  then have "list_all (wt_cond facts questions phase (d + 1)) cs
      = list_all (wt_cond facts' questions phase (d + 1)) cs"
    by (simp add: list_all_iff)
  moreover have "wt_leaf facts questions phase od op' rs rl = wt_leaf facts' questions phase od op' rs rl"
    by (simp add: wt_leaf_def wt_operand_def assms cong: operandKind.case_cong)
  ultimately show ?case by (simp only: wt_cond.simps)
qed

lemma wt_cond_ready:
  assumes "map_of facts [] = None" and "map_of questions [] = None"
  shows "wt_cond facts questions phase d cc \<Longrightarrow> canonical_ready cc"
proof (induction cc arbitrary: d)
  case (CompiledCondition k cs od op' rs rl rb)
  show ?case
  proof (cases k)
    case conditionKindLeaf
    with CompiledCondition.prems assms show ?thesis
      by (auto simp: wt_leaf_def wt_operand_def named_operand_def split: operandKind.splits)
  qed (use CompiledCondition in \<open>auto simp: list_all_iff\<close>)
qed

lemma canonical_ready_shape: "canonical_ready cc \<Longrightarrow> wf_shape cc"
  by (induction cc) (auto simp: list_all_iff split: if_splits)

section \<open>Stages that touch one part each\<close>

lemma compileMetadata_Inr:
  assumes "compileMetadata doc out = Inr out'"
  shows "out' = out\<lparr>cRef := \<lparr>refName = metaName (docMetadata doc), refVersion = metaVersion (docMetadata doc)\<rparr>\<rparr>"
    and "IsDashedIdentifier (metaName (docMetadata doc))" and "metaVersion (docMetadata doc) \<noteq> []"
    and "length (metaVersion (docMetadata doc)) \<le> MaxVersionLength"
    and "length (metaDescription (docMetadata doc)) \<le> MaxDescriptionLength"
    and "TrimSpace (metaVersion (docMetadata doc)) = metaVersion (docMetadata doc)"
  using assms by (auto simp: compileMetadata_def Let_def split: if_splits)

lemma collectOutcomes_Inr:
  "collectOutcomes xs seen = Inr ys \<Longrightarrow>
     ys = seen @ xs \<and> (distinct seen \<longrightarrow> distinct ys) \<and> list_all Outcome_IsValid xs"
  by (induction xs arbitrary: seen) (fastforce split: if_splits)+

lemma compileOutcomes_Inr:
  assumes "compileOutcomes c doc out = Inr (c', out')" and "kOutcomes c = []"
  shows "c' = c\<lparr>kOutcomes := specOutcomes (docSpec doc)\<rparr>"
    and "out' = out\<lparr>cOutcomes := specOutcomes (docSpec doc), cDefaultOutcome := specDefaultOutcome (docSpec doc)\<rparr>"
    and "specOutcomes (docSpec doc) \<noteq> []" and "length (specOutcomes (docSpec doc)) \<le> MaxOutcomes"
    and "distinct (specOutcomes (docSpec doc))" and "list_all Outcome_IsValid (specOutcomes (docSpec doc))"
    and "specDefaultOutcome (docSpec doc) \<in> set (specOutcomes (docSpec doc))"
  using assms
  by (auto simp: compileOutcomes_def Let_def rbind_Inr_iff dest!: collectOutcomes_Inr split: if_splits)

lemma collectFacts_frame:
  "collectFacts source names c target = Inr (c', target') \<Longrightarrow>
     kMaxQuestions c' = kMaxQuestions c \<and> kOutcomes c' = kOutcomes c \<and>
     kQuestions c' = kQuestions c \<and> kRuleIDs c' = kRuleIDs c"
  by (induction names arbitrary: c target) (fastforce simp: Let_def split: if_splits)+

lemma collectFacts_valid:
  "collectFacts source names c target = Inr (c', target') \<Longrightarrow> n \<in> set names \<Longrightarrow>
     IsFactName n \<and> FactType_IsValid (the (map_of source n)) \<and> \<not> has_key (kFacts c) n"
  by (induction names arbitrary: c target)
    (fastforce simp: Let_def has_key_def map_of_update split: if_splits)+

definition overlay :: "(string, 'v) gomap \<Rightarrow> string list \<Rightarrow> (string, 'v) gomap \<Rightarrow> string \<Rightarrow> 'v option" where
  "overlay source names m k = (if k \<in> set names then Some (the (map_of source k)) else map_of m k)"

lemma collectFacts_lookup:
  "collectFacts source names c target = Inr (c', target') \<Longrightarrow>
     map_of (kFacts c') = overlay source names (kFacts c) \<and> map_of target' = overlay source names target"
  by (induction names arbitrary: c target)
    (auto simp: Let_def overlay_def fun_eq_iff map_of_update split: if_splits)

lemma collectFacts_ok:
  "collectFacts source names c target = Inr (c', target') \<Longrightarrow> gomap_ok target \<Longrightarrow> gomap_ok target'"
  by (induction names arbitrary: c target) (auto simp: Let_def gomap_ok_update split: if_splits)

lemma overlay_all: "overlay source (sortedFactNames source) [] = map_of source"
proof (rule ext)
  fix k
  show "overlay source (sortedFactNames source) [] k = map_of source k"
    using has_key_iff [of source k]
    by (auto simp: overlay_def sortedFactNames_def set_sorted_keys has_key_def)
qed

text \<open>What the fact stage leaves behind.\<close>

definition facts_declared :: "Document \<Rightarrow> compiler \<Rightarrow> Compiled \<Rightarrow> bool" where
  "facts_declared doc c p \<longleftrightarrow>
     map_of (cRequiredFacts p) = map_of (inRequiredFacts (specInput (docSpec doc))) \<and>
     map_of (cOptionalFacts p) = map_of (inOptionalFacts (specInput (docSpec doc))) \<and>
     map_of (kFacts c) = map_of (cRequiredFacts p @ cOptionalFacts p) \<and>
     gomap_ok (cRequiredFacts p) \<and> gomap_ok (cOptionalFacts p) \<and>
     (\<forall>n. map_of (cRequiredFacts p) n = None \<or> map_of (cOptionalFacts p) n = None) \<and>
     (\<forall>n t. map_of (kFacts c) n = Some t \<longrightarrow> IsFactName n \<and> FactType_IsValid t) \<and>
     length (cRequiredFacts p) + length (cOptionalFacts p) \<le> MaxRequiredFacts"

text \<open>No map lists its entries more briefly than one without repeated keys.\<close>

lemma gomap_ok_shortest:
  assumes "gomap_ok m" and "map_of m = map_of m'"
  shows "length m \<le> length m'"
proof -
  have "fst ` set m = fst ` set m'" using assms(2) by (simp add: dom_map_of_conv_image_fst [symmetric])
  then have "length m = card (fst ` set m')" using assms(1) distinct_card [of "map fst m"] by (simp add: gomap_ok_def)
  also have "\<dots> \<le> length m'" using card_length [of "map fst m'"] by simp
  finally show ?thesis .
qed

lemma compileFacts_Inr:
  assumes "compileFacts c doc out = Inr (c', out')" and "kFacts c = []"
  shows "facts_declared doc c' out'"
    and "\<exists>req opt. out' = out\<lparr>cRequiredFacts := req, cOptionalFacts := opt\<rparr>"
    and "kMaxQuestions c' = kMaxQuestions c \<and> kOutcomes c' = kOutcomes c \<and>
      kQuestions c' = kQuestions c \<and> kRuleIDs c' = kRuleIDs c"
proof -
  define req0 opt0 where "req0 = inRequiredFacts (specInput (docSpec doc))"
    and "opt0 = inOptionalFacts (specInput (docSpec doc))"
  from assms(1) obtain c1 req opt where
    size: "length req0 + length opt0 \<le> MaxRequiredFacts" and
    r: "collectFacts req0 (sortedFactNames req0) c [] = Inr (c1, req)" and
    q: "collectFacts opt0 (sortedFactNames opt0) c1 [] = Inr (c', opt)" and
    out': "out' = out\<lparr>cRequiredFacts := req, cOptionalFacts := opt\<rparr>"
    by (auto simp: compileFacts_def Let_def rbind_Inr_iff req0_def opt0_def split: if_splits)
  from out' show "\<exists>req opt. out' = out\<lparr>cRequiredFacts := req, cOptionalFacts := opt\<rparr>"
    by blast
  show "kMaxQuestions c' = kMaxQuestions c \<and> kOutcomes c' = kOutcomes c \<and>
      kQuestions c' = kQuestions c \<and> kRuleIDs c' = kRuleIDs c"
    using collectFacts_frame [OF r] collectFacts_frame [OF q] by simp
  have req: "map_of req = map_of req0" and k1: "map_of (kFacts c1) = map_of req0"
    using collectFacts_lookup [OF r] assms(2) by (simp_all add: overlay_all)
  have opt: "map_of opt = map_of opt0" and k2: "map_of (kFacts c') = overlay opt0 (sortedFactNames opt0) (kFacts c1)"
    using collectFacts_lookup [OF q] by (simp_all add: overlay_all)
  have mem: "n \<in> set (sortedFactNames m) \<longleftrightarrow> map_of m n \<noteq> None" for m :: "(string, FactType) gomap" and n
    by (simp add: sortedFactNames_def set_sorted_keys map_of_eq_None_iff)
  have disjoint: "map_of req0 n = None \<or> map_of opt0 n = None" for n
    using collectFacts_valid [OF q, of n] k1 by (auto simp: mem has_key_def)
  have k: "map_of (kFacts c') = map_of (req @ opt)"
  proof (rule ext)
    fix n
    show "map_of (kFacts c') n = map_of (req @ opt) n"
      using disjoint [of n] by (auto simp: k2 overlay_def mem k1 req opt map_add_def split: option.splits)
  qed
  have valid: "IsFactName n \<and> FactType_IsValid t" if "map_of (kFacts c') n = Some t" for n t
    using that collectFacts_valid [OF r, of n] collectFacts_valid [OF q, of n]
    by (auto simp: k map_add_Some_iff mem req opt)
  have "length req \<le> length req0" "length opt \<le> length opt0"
    using gomap_ok_shortest [OF _ req] gomap_ok_shortest [OF _ opt] collectFacts_ok [OF r] collectFacts_ok [OF q]
    by (simp_all add: gomap_ok_def)
  with size have "length req + length opt \<le> MaxRequiredFacts" by simp
  then show "facts_declared doc c' out'"
    using req opt k disjoint valid collectFacts_ok [OF r] collectFacts_ok [OF q]
    by (simp add: facts_declared_def out' req0_def opt0_def gomap_ok_def)
qed

section \<open>Compiled questions\<close>

definition wf_choice :: "CompiledQuestion \<Rightarrow> bool" where
  "wf_choice q \<longleftrightarrow> gomap_ok (cqChoiceCriteria q) \<and> cqChoiceKeys q = sorted_keys (cqChoiceCriteria q) \<and>
     MinChoiceCriteria \<le> length (cqChoiceKeys q) \<and> length (cqChoiceKeys q) \<le> MaxChoiceCriteria \<and>
     list_all IsIdentifier (cqChoiceKeys q) \<and>
     (\<forall>k v. map_of (cqChoiceCriteria q) k = Some v \<longrightarrow>
        v = VNil \<or> bounded_value MaxCriteriaTextLength v)"

definition wf_score :: "CompiledQuestion \<Rightarrow> bool" where
  "wf_score q \<longleftrightarrow> MinScoreCriteria \<le> length (cqScoreCriteria q) \<and>
     length (cqScoreCriteria q) \<le> MaxScoreCriteria \<and>
     list_all (bounded_value MaxCriteriaTextLength) (cqScoreCriteria q)"

definition wf_noul :: "CompiledQuestion \<Rightarrow> bool" where
  "wf_noul q \<longleftrightarrow> (case cqNoulCriteria q of None \<Rightarrow> True | Some m \<Rightarrow>
     gomap_ok m \<and> fst ` set m \<subseteq> {''true'', ''false''} \<and>
     (\<forall>k v. map_of m k = Some v \<longrightarrow> v = VNil \<or> bounded_value MaxCriteriaTextLength v))"

definition wf_question :: "string \<Rightarrow> CompiledQuestion \<Rightarrow> bool" where
  "wf_question i q \<longleftrightarrow> IsIdentifier i \<and> cqID q = i \<and> QuestionType_IsValid (cqType q) \<and>
     (cqInstructions q = VNil \<or> bounded_value MaxInstructionsLength (cqInstructions q)) \<and>
     (cqType q = QuestionTypeChoice \<longrightarrow> wf_choice q) \<and>
     (cqType q = QuestionTypeScore \<longrightarrow> wf_score q) \<and>
     (cqType q = QuestionTypeNoul \<longrightarrow> wf_noul q)"

definition criteria_ok :: "goval \<Rightarrow> bool" where
  "criteria_ok v = (case v of VMap kvs \<Rightarrow> gomap_ok kvs | _ \<Rightarrow> True)"

lemma compileQuestionInstructions_Inr:
  assumes "compileQuestionInstructions raw = Inr v"
  shows "v = VNil \<or> bounded_value MaxInstructionsLength v"
  using assms normalizeQuestionValue_Inr [of raw False]
  by (auto simp: compileQuestionInstructions_def bounded_value_def
      split: sum.splits option.splits if_splits)

lemma compileChoiceCriteria_Inr:
  assumes "compileChoiceCriteria raw = Inr (criteria, keys)" and "criteria_ok raw"
  shows "wf_choice (q\<lparr>cqChoiceCriteria := criteria, cqChoiceKeys := keys\<rparr>)"
proof -
  from assms obtain source where source: "gomap_ok source"
    and size: "MinChoiceCriteria \<le> length source" "length source \<le> MaxChoiceCriteria"
    and run: "collect (choiceCriterion source) (sorted_keys source) [] = Inr criteria"
    and keys: "keys = sorted_keys source"
    by (auto simp: compileChoiceCriteria_def criteria_ok_def rbind_Inr_iff split: goval.splits if_splits)
  have ok: "gomap_ok criteria" and dom: "fst ` set criteria = fst ` set source"
    using collect_ok [OF run] collect_keys [OF run] by (simp_all add: gomap_ok_def set_sorted_keys)
  have at: "IsIdentifier k \<and> (\<exists>v. map_of criteria k = Some v \<and>
      (v = VNil \<or> bounded_value MaxCriteriaTextLength v))" if "k \<in> fst ` set criteria" for k
    using collect_at [OF run, of k] that
    by (auto simp: dom set_sorted_keys choiceCriterion_def validateChoiceOptionKey_def rbind_Inr_iff
        require_Inr_iff dest: compileCriteriaValue_Inr)
  have vals: "v = VNil \<or> bounded_value MaxCriteriaTextLength v" if v: "map_of criteria k = Some v" for k v
  proof -
    from v have "k \<in> fst ` set criteria" by (force dest: map_of_SomeD)
    from at [OF this] v show ?thesis by auto
  qed
  have "keys = sorted_keys criteria"
    unfolding keys using ok source dom by (intro sorted_keys_unique) simp_all
  moreover have "length keys = length source" by (simp add: keys length_sorted_keys)
  moreover have "list_all IsIdentifier (sorted_keys criteria)"
    using at by (auto simp: list_all_iff set_sorted_keys)
  ultimately show ?thesis
    using ok size vals by (simp add: wf_choice_def)
qed

lemma compileScoreCriteria_Inr:
  assumes "compileScoreCriteria raw = Inr levels"
  shows "wf_score (q\<lparr>cqScoreCriteria := levels\<rparr>)"
proof -
  from assms obtain source where size: "MinScoreCriteria \<le> length source" "length source \<le> MaxScoreCriteria"
    and all: "list_all2 (\<lambda>x y. compileCriteriaValue x False = Inr y) source levels"
    by (auto simp: compileScoreCriteria_def map_result_Inr_iff not_less split: goval.splits if_splits)
  from all have "list_all (bounded_value MaxCriteriaTextLength) levels"
    by (induction rule: list_all2_induct) (auto dest: compileCriteriaValue_Inr)
  with size all show ?thesis by (simp add: wf_score_def list_all2_lengthD)
qed

lemma compileNoulCriteria_wf:
  "compileNoulCriteria raw = Inr m \<Longrightarrow> wf_noul (q\<lparr>cqNoulCriteria := m\<rparr>)"
  using compileNoulCriteria_Inr [of raw] by (cases m) (simp_all add: wf_noul_def)

lemma compileQuestion_Inr:
  assumes "compileQuestion i q = Inr cq" and "criteria_ok (qCriteria q)"
  shows "wf_question i cq" and "cqType cq = qType q"
proof -
  from assms(1) obtain ins where i: "IsIdentifier i" and t: "QuestionType_IsValid (qType q)"
    and ins: "compileQuestionInstructions (qInstructions q) = Inr ins"
    and crit: "compileQuestionCriteria q (zeroQuestion\<lparr>cqID := i, cqType := qType q, cqInstructions := ins\<rparr>) = Inr cq"
    by (auto simp: compileQuestion_def rbind_Inr_iff split: if_splits)
  from crit show "cqType cq = qType q"
    by (auto simp: compileQuestionCriteria_def rbind_Inr_iff split: if_splits)
  have ins': "ins = VNil \<or> bounded_value MaxInstructionsLength ins"
    using compileQuestionInstructions_Inr [OF ins] .
  from t consider (noul) "qType q = QuestionTypeNoul" | (choice) "qType q = QuestionTypeChoice"
    | (score) "qType q = QuestionTypeScore"
    by (auto simp: QuestionType_IsValid_def)
  then show "wf_question i cq"
  proof cases
    case noul
    with crit i t ins' show ?thesis
      by (auto simp: compileQuestionCriteria_def wf_question_def rbind_Inr_iff
          dest: compileNoulCriteria_wf)
  next
    case choice
    with crit i t ins' show ?thesis
      by (auto simp: compileQuestionCriteria_def wf_question_def rbind_Inr_iff
          dest: compileChoiceCriteria_Inr [OF _ assms(2)])
  next
    case score
    with crit i t ins' show ?thesis
      by (auto simp: compileQuestionCriteria_def wf_question_def rbind_Inr_iff
          dest: compileScoreCriteria_Inr)
  qed
qed

lemma doc_ok_criteria:
  assumes "doc_ok doc" and "map_of (specQuestions (docSpec doc)) i = Some q"
  shows "criteria_ok (qCriteria q)"
  using assms by (auto simp: doc_ok_def criteria_ok_def list_all_iff dest!: map_of_SomeD)

definition questions_declared :: "Document \<Rightarrow> int \<Rightarrow> Compiled \<Rightarrow> bool" where
  "questions_declared doc limit p \<longleftrightarrow> gomap_ok (cQuestions p) \<and>
     fst ` set (cQuestions p) = fst ` set (specQuestions (docSpec doc)) \<and>
     cQuestionIDs p = sorted_keys (specQuestions (docSpec doc)) \<and>
     cQuestionIDs p \<noteq> [] \<and> int (length (cQuestionIDs p)) \<le> limit \<and>
     (\<forall>i q. map_of (cQuestions p) i = Some q \<longrightarrow> wf_question i q \<and>
        (\<exists>q0. map_of (specQuestions (docSpec doc)) i = Some q0 \<and> compileQuestion i q0 = Inr q))"

lemma compileQuestions_Inr:
  assumes "compileQuestions c doc out = Inr (c', out')" and "kQuestions c = []" and "doc_ok doc"
  shows "c' = c\<lparr>kQuestions := cQuestions out'\<rparr>"
    and "\<exists>qs ids. out' = out\<lparr>cQuestions := qs, cQuestionIDs := ids\<rparr>"
    and "questions_declared doc (kMaxQuestions c) out'"
proof -
  define declared where "declared = specQuestions (docSpec doc)"
  from assms(1,2) obtain qs where some: "declared \<noteq> []" and size: "int (length declared) \<le> kMaxQuestions c"
    and run: "collect (\<lambda>i. compileQuestion i (the (map_of declared i))) (sorted_keys declared) [] = Inr qs"
    and c': "c' = c\<lparr>kQuestions := qs\<rparr>"
    and out': "out' = out\<lparr>cQuestions := qs, cQuestionIDs := sorted_keys declared\<rparr>"
    by (auto simp: compileQuestions_def Let_def rbind_Inr_iff declared_def not_less split: if_splits)
  show "c' = c\<lparr>kQuestions := cQuestions out'\<rparr>" by (simp add: c' out')
  from out' show "\<exists>qs ids. out' = out\<lparr>cQuestions := qs, cQuestionIDs := ids\<rparr>" by blast
  have dom: "fst ` set qs = fst ` set declared"
    using collect_keys [OF run] by (simp add: set_sorted_keys)
  have at: "wf_question i q \<and> (\<exists>q0. map_of declared i = Some q0 \<and> compileQuestion i q0 = Inr q)"
    if q: "map_of qs i = Some q" for i q
  proof -
    from q dom have i: "i \<in> fst ` set declared" by (force dest: map_of_SomeD)
    then obtain q0 where q0: "map_of declared i = Some q0" by (auto dest!: map_of_key_ex)
    with collect_at [OF run, of i] i q have "compileQuestion i q0 = Inr q"
      by (auto simp: set_sorted_keys)
    with q0 compileQuestion_Inr(1) doc_ok_criteria [OF assms(3), of i q0] show ?thesis
      by (auto simp: declared_def)
  qed
  have "gomap_ok qs" using collect_ok [OF run] by (simp add: gomap_ok_def)
  with dom at some size show "questions_declared doc (kMaxQuestions c) out'"
    by (simp add: questions_declared_def out' declared_def length_sorted_keys)
       (metis length_0_conv length_sorted_keys)
qed

section \<open>Compiled rules\<close>

text \<open>How a compiled rule relates to the document's rule it came from.\<close>

definition rule_compiles ::
  "(string, FactType) gomap \<Rightarrow> (string, CompiledQuestion) gomap \<Rightarrow> Outcome list \<Rightarrow> rulePhase \<Rightarrow>
    Rule \<Rightarrow> CompiledRule \<Rightarrow> bool" where
  "rule_compiles facts questions outcomes phase r e \<longleftrightarrow>
     crID e = ruleID r \<and> IsDashedIdentifier (crID e) \<and> crDescription e = ruleDescription r \<and>
     length (crDescription e) \<le> MaxDescriptionLength \<and>
     crOutcome e = ruleOutcome r \<and> crOutcome e \<in> set outcomes \<and>
     rel_option (\<lambda>w cc. wt_cond facts questions phase 0 cc \<and>
       (\<forall>fs as. Evaluate cc fs as = Some (denote w fs as))) (ruleWhen r) (crCondition e)"

definition conditional_prefix :: "CompiledRule list \<Rightarrow> bool" where
  "conditional_prefix rs \<longleftrightarrow> (\<forall>r \<in> set (butlast rs). crCondition r \<noteq> None)"

lemma compileRule_Inr:
  assumes "compileRule c r phase = Inr (c', e)"
  shows "rule_compiles (kFacts c) (kQuestions c) (kOutcomes c) phase r e"
    and "c' = c\<lparr>kRuleIDs := kRuleIDs c @ [crID e]\<rparr>" and "crID e \<notin> set (kRuleIDs c)"
  using assms compileCondition_wt [of c' _ phase 0] compileCondition_Evaluate [of c' _ phase 0]
  by (auto simp: compileRule_def Let_def rule_compiles_def rbind_Inr_iff
      split: if_splits option.splits)

lemma compileRulesLoop_Inr:
  "compileRulesLoop rs phase saw c = Inr (c', es) \<Longrightarrow>
     list_all2 (rule_compiles (kFacts c) (kQuestions c) (kOutcomes c) phase) rs es \<and>
     c' = c\<lparr>kRuleIDs := kRuleIDs c @ map crID es\<rparr> \<and>
     (distinct (kRuleIDs c) \<longrightarrow> distinct (kRuleIDs c')) \<and> (saw \<longrightarrow> es = []) \<and> conditional_prefix es"
proof (induction rs arbitrary: saw c es)
  case Nil
  then show ?case by (simp add: conditional_prefix_def)
next
  case (Cons r rs)
  then obtain c1 e es' where saw: "\<not> saw" and r: "compileRule c r phase = Inr (c1, e)"
    and rest: "compileRulesLoop rs phase (crCondition e = None) c1 = Inr (c', es')"
    and es: "es = e # es'"
    by (auto simp: rbind_Inr_iff split: if_splits)
  note head = compileRule_Inr [OF r] and tail = Cons.IH [OF rest]
  from head(2) have "kFacts c1 = kFacts c" "kQuestions c1 = kQuestions c" "kOutcomes c1 = kOutcomes c"
    "kRuleIDs c1 = kRuleIDs c @ [crID e]" by simp_all
  moreover from this head(3) have "distinct (kRuleIDs c1) \<longleftrightarrow> distinct (kRuleIDs c)" by simp
  ultimately show ?case using head tail saw
    by (auto simp: es conditional_prefix_def simp del: distinct_append)
qed

lemma compileRules_Inr:
  assumes "compileRules c rs phase = Inr (c', es)"
  shows "list_all2 (rule_compiles (kFacts c) (kQuestions c) (kOutcomes c) phase) rs es"
    and "c' = c\<lparr>kRuleIDs := kRuleIDs c @ map crID es\<rparr>"
    and "distinct (kRuleIDs c) \<Longrightarrow> distinct (kRuleIDs c @ map crID es)"
    and "conditional_prefix es" and "length es \<le> MaxRules"
  using assms compileRulesLoop_Inr [of rs phase False c c' es]
  by (auto simp: compileRules_def list_all2_lengthD simp del: distinct_append
      dest: list_all2_lengthD split: if_splits)

lemma rule_compiles_lookup:
  "map_of facts = map_of facts' \<Longrightarrow>
     rule_compiles facts questions outcomes phase = rule_compiles facts' questions outcomes phase"
  by (simp add: rule_compiles_def fun_eq_iff wt_cond_lookup [of facts facts'])

section \<open>The invariant of a compiled policy\<close>

definition declared_facts :: "Compiled \<Rightarrow> (string, FactType) gomap" where
  "declared_facts p = cRequiredFacts p @ cOptionalFacts p"

definition wf_rule :: "Compiled \<Rightarrow> rulePhase \<Rightarrow> CompiledRule \<Rightarrow> bool" where
  "wf_rule p phase r \<longleftrightarrow> IsDashedIdentifier (crID r) \<and>
     length (crDescription r) \<le> MaxDescriptionLength \<and> crOutcome r \<in> set (cOutcomes p) \<and>
     pred_option (wt_cond (declared_facts p) (cQuestions p) phase 0) (crCondition r)"

definition wf_identity :: "Compiled \<Rightarrow> bool" where
  "wf_identity p \<longleftrightarrow> IsDashedIdentifier (refName (cRef p)) \<and> refVersion (cRef p) \<noteq> [] \<and>
     length (refVersion (cRef p)) \<le> MaxVersionLength \<and> TrimSpace (refVersion (cRef p)) = refVersion (cRef p) \<and>
     length (cDescription p) \<le> MaxDescriptionLength"

definition wf_outcomes :: "Compiled \<Rightarrow> bool" where
  "wf_outcomes p \<longleftrightarrow> cOutcomes p \<noteq> [] \<and> length (cOutcomes p) \<le> MaxOutcomes \<and>
     distinct (cOutcomes p) \<and> list_all Outcome_IsValid (cOutcomes p) \<and>
     cDefaultOutcome p \<in> set (cOutcomes p) \<and> cOutcomeSet p = cOutcomes p"

definition wf_facts :: "Compiled \<Rightarrow> bool" where
  "wf_facts p \<longleftrightarrow> gomap_ok (declared_facts p) \<and> length (declared_facts p) \<le> MaxRequiredFacts \<and>
     (\<forall>n t. map_of (declared_facts p) n = Some t \<longrightarrow> IsFactName n \<and> FactType_IsValid t)"

definition wf_questions :: "Compiled \<Rightarrow> bool" where
  "wf_questions p \<longleftrightarrow> gomap_ok (cQuestions p) \<and> cQuestionIDs p = sorted_keys (cQuestions p) \<and>
     cQuestionIDs p \<noteq> [] \<and> int (length (cQuestionIDs p)) \<le> MaxQuestions \<and>
     (\<forall>i q. map_of (cQuestions p) i = Some q \<longrightarrow> wf_question i q)"

definition wf_rules :: "Compiled \<Rightarrow> bool" where
  "wf_rules p \<longleftrightarrow> length (cPreRules p) \<le> MaxRules \<and> length (cDecisionRules p) \<le> MaxRules \<and>
     distinct (map crID (cPreRules p @ cDecisionRules p)) \<and>
     conditional_prefix (cPreRules p) \<and> conditional_prefix (cDecisionRules p) \<and>
     list_all (wf_rule p rulePhasePre) (cPreRules p) \<and>
     list_all (wf_rule p rulePhaseDecision) (cDecisionRules p)"

definition wf_compiled :: "Compiled \<Rightarrow> bool" where
  "wf_compiled p \<longleftrightarrow> wf_identity p \<and> wf_outcomes p \<and> wf_facts p \<and> wf_questions p \<and> wf_rules p"

lemma wf_parts_frame:
  "wf_compiled (p\<lparr>cCanonical := x, cHash := y\<rparr>) = wf_compiled p"
  by (simp add: wf_compiled_def wf_identity_def wf_outcomes_def wf_facts_def wf_questions_def
      wf_rules_def wf_rule_def declared_facts_def list_all_iff)

lemma wf_outcomeSet_frame:
  "wf_identity (p\<lparr>cOutcomeSet := x\<rparr>) = wf_identity p" "wf_facts (p\<lparr>cOutcomeSet := x\<rparr>) = wf_facts p"
  "wf_questions (p\<lparr>cOutcomeSet := x\<rparr>) = wf_questions p" "wf_rules (p\<lparr>cOutcomeSet := x\<rparr>) = wf_rules p"
  by (simp_all add: wf_identity_def wf_facts_def wf_questions_def wf_rules_def wf_rule_def
      declared_facts_def list_all_iff)

text \<open>What a compiled policy keeps of its document.\<close>

definition compiled_from :: "Document \<Rightarrow> Compiled \<Rightarrow> bool" where
  "compiled_from doc p \<longleftrightarrow>
     refName (cRef p) = metaName (docMetadata doc) \<and> refVersion (cRef p) = metaVersion (docMetadata doc) \<and>
     cModel p = specModel (docSpec doc) \<and> cOutcomes p = specOutcomes (docSpec doc) \<and>
     cDefaultOutcome p = specDefaultOutcome (docSpec doc) \<and>
     cStrictInput p = inStrict (specInput (docSpec doc)) \<and>
     map_of (cRequiredFacts p) = map_of (inRequiredFacts (specInput (docSpec doc))) \<and>
     map_of (cOptionalFacts p) = map_of (inOptionalFacts (specInput (docSpec doc))) \<and>
     cQuestionIDs p = sorted_keys (specQuestions (docSpec doc)) \<and>
     list_all2 (rule_compiles (declared_facts p) (cQuestions p) (cOutcomes p) rulePhasePre)
       (specPreRules (docSpec doc)) (cPreRules p) \<and>
     list_all2 (rule_compiles (declared_facts p) (cQuestions p) (cOutcomes p) rulePhaseDecision)
       (specDecisionRules (docSpec doc)) (cDecisionRules p)"

lemma compiled_fromD:
  assumes "compiled_from doc p"
  shows "list_all2 (rule_compiles (declared_facts p) (cQuestions p) (cOutcomes p) rulePhasePre)
      (specPreRules (docSpec doc)) (cPreRules p)"
    and "list_all2 (rule_compiles (declared_facts p) (cQuestions p) (cOutcomes p) rulePhaseDecision)
      (specDecisionRules (docSpec doc)) (cDecisionRules p)"
    and "cDefaultOutcome p = specDefaultOutcome (docSpec doc)"
  using assms unfolding compiled_from_def by - (elim conjE, assumption)+

lemma validateDocumentIdentity_Inr:
  "validateDocumentIdentity doc = Inr d \<longleftrightarrow>
     doc = Some d \<and> docAPIVersion d = APIVersion \<and> docKind d = Kind"
  by (auto simp: validateDocumentIdentity_def split: option.splits)

lemma resolveMaxQuestions_bounds: "0 < resolveMaxQuestions n \<and> resolveMaxQuestions n \<le> MaxQuestions"
  by (auto simp: resolveMaxQuestions_def MaxQuestions_def)

lemma rule_compiles_wf:
  assumes "list_all2 (rule_compiles (declared_facts p) (cQuestions p) (cOutcomes p) phase) rs es"
  shows "list_all (wf_rule p phase) es"
  using assms
  by (induction rule: list_all2_induct)
    (auto simp: rule_compiles_def wf_rule_def pred_option_def option.rel_sel)

text \<open>The stages in order, each with what it contributes to the result.\<close>

lemma compileStages_parts:
  assumes "compileStages (newCompiler n) doc (newCompiled doc) = Inr (c, p)" and "doc_ok doc"
  obtains c3 where "wf_identity p" and "wf_outcomes (p\<lparr>cOutcomeSet := kOutcomes c\<rparr>)"
    and "facts_declared doc c3 p" and "questions_declared doc (resolveMaxQuestions n) p"
    and "wf_rules p" and "compiled_from doc p"
proof -
  from assms(1) obtain p1 c2 p2 c3 p3 c4 p4 c5 pre dec where
    m: "compileMetadata doc (newCompiled doc) = Inr p1" and
    o: "compileOutcomes (newCompiler n) doc p1 = Inr (c2, p2)" and
    f: "compileFacts c2 doc p2 = Inr (c3, p3)" and
    q: "compileQuestions c3 doc p3 = Inr (c4, p4)" and
    r1: "compileRules c4 (specPreRules (docSpec doc)) rulePhasePre = Inr (c5, pre)" and
    r2: "compileRules c5 (specDecisionRules (docSpec doc)) rulePhaseDecision = Inr (c, dec)" and
    p: "p = p4\<lparr>cPreRules := pre, cDecisionRules := dec\<rparr>"
    by (auto simp: compileStages_def rbind_Inr_iff)
  note M = compileMetadata_Inr [OF m]
  have "kOutcomes (newCompiler n) = []" by (simp add: newCompiler_def)
  note O = compileOutcomes_Inr [OF o this]
  have "kFacts c2 = []" by (simp add: O(1) newCompiler_def)
  note F = compileFacts_Inr [OF f this]
  have "kQuestions c3 = []" using F(3) by (simp add: O(1) newCompiler_def)
  note Q = compileQuestions_Inr [OF q this assms(2)]
  note R1 = compileRules_Inr [OF r1] and R2 = compileRules_Inr [OF r2]
  from F(2) Q(2) obtain req opt qs ids where p3: "p3 = p2\<lparr>cRequiredFacts := req, cOptionalFacts := opt\<rparr>"
    and p4: "p4 = p3\<lparr>cQuestions := qs, cQuestionIDs := ids\<rparr>" by blast
  note fields = p p4 p3 O(2) M(1) newCompiled_def
  have "facts_declared doc c3 p = facts_declared doc c3 p3"
    and "questions_declared doc (resolveMaxQuestions n) p = questions_declared doc (resolveMaxQuestions n) p4"
    by (simp_all add: facts_declared_def questions_declared_def p p4)
  with F(1,3) Q(3) have facts: "facts_declared doc c3 p"
    and questions: "questions_declared doc (resolveMaxQuestions n) p"
    by (simp_all add: O(1) newCompiler_def)
  have kf: "map_of (kFacts c3) = map_of (declared_facts p)"
    using facts by (simp add: facts_declared_def declared_facts_def)
  have ctx: "kFacts c4 = kFacts c3" "kQuestions c4 = cQuestions p" "kOutcomes c4 = cOutcomes p"
      "kRuleIDs c4 = []" "c5 = c4\<lparr>kRuleIDs := map crID pre\<rparr>" "kOutcomes c = cOutcomes p"
    using F(3) R1(2) R2(2) by (simp_all add: Q(1) fields O(1) newCompiler_def)
  have rules: "list_all2 (rule_compiles (declared_facts p) (cQuestions p) (cOutcomes p) rulePhasePre)
      (specPreRules (docSpec doc)) (cPreRules p)"
    "list_all2 (rule_compiles (declared_facts p) (cQuestions p) (cOutcomes p) rulePhaseDecision)
      (specDecisionRules (docSpec doc)) (cDecisionRules p)"
    using R1(1) R2(1) by (simp_all add: ctx p rule_compiles_lookup [OF kf])
  show thesis
  proof (rule that [OF _ _ facts questions])
    show "wf_identity p" using M by (simp add: wf_identity_def fields)
    show "wf_outcomes (p\<lparr>cOutcomeSet := kOutcomes c\<rparr>)" using O by (simp add: wf_outcomes_def ctx) (simp add: fields)
    show "wf_rules p" using R1(3-5) R2(3-5) rules [THEN rule_compiles_wf] by (simp add: wf_rules_def ctx) (simp add: p)
    show "compiled_from doc p" using rules facts questions
      by (simp add: compiled_from_def facts_declared_def questions_declared_def) (simp add: fields)
  qed
qed

lemma facts_declared_wf:
  assumes "facts_declared doc c p" shows "wf_facts p"
proof -
  have "map_of (kFacts c) = map_of (declared_facts p)"
    using assms unfolding facts_declared_def declared_facts_def by blast
  moreover have "gomap_ok (declared_facts p)"
    using assms unfolding facts_declared_def declared_facts_def gomap_ok_append
    by (elim conjE) (intro conjI; assumption)
  moreover have "length (declared_facts p) \<le> MaxRequiredFacts"
    using assms unfolding facts_declared_def declared_facts_def by simp
  ultimately show ?thesis using assms by (auto simp: wf_facts_def facts_declared_def)
qed

lemma questions_declared_wf:
  assumes "questions_declared doc (resolveMaxQuestions n) p" and "doc_ok doc"
  shows "wf_questions p"
proof -
  have "cQuestionIDs p = sorted_keys (cQuestions p)"
    using assms sorted_keys_unique [of "cQuestions p" "specQuestions (docSpec doc)"]
    by (simp add: questions_declared_def doc_ok_def)
  with assms(1) resolveMaxQuestions_bounds [of n] show ?thesis
    by (auto simp: wf_questions_def questions_declared_def)
qed

text \<open>A successful compilation: the invariant, the relation to the document and the limits.\<close>

lemma CompileWithMaxQuestions_Inr:
  assumes "CompileWithMaxQuestions (Some doc) n = Inr p" and "doc_ok doc"
  shows "wf_compiled p" and "compiled_from doc p"
    and "int (length (cQuestionIDs p)) \<le> resolveMaxQuestions n"
    and "docAPIVersion doc = APIVersion \<and> docKind doc = Kind"
    and "canonicalize p = Inr (cCanonical p, cHash p)"
proof -
  from assms(1) obtain c p0 t h where ident: "docAPIVersion doc = APIVersion \<and> docKind doc = Kind"
    and stages: "compileStages (newCompiler n) doc (newCompiled doc) = Inr (c, p0)"
    and canon: "canonicalize (p0\<lparr>cOutcomeSet := kOutcomes c\<rparr>) = Inr (t, h)"
    and p: "p = p0\<lparr>cOutcomeSet := kOutcomes c, cCanonical := t, cHash := h\<rparr>"
    by (auto simp: CompileWithMaxQuestions_def Let_def rbind_Inr_iff validateDocumentIdentity_Inr)
  show "docAPIVersion doc = APIVersion \<and> docKind doc = Kind" by (fact ident)
  from compileStages_parts [OF stages assms(2)] obtain c3 where
    parts: "wf_identity p0" "wf_outcomes (p0\<lparr>cOutcomeSet := kOutcomes c\<rparr>)" "facts_declared doc c3 p0"
      "questions_declared doc (resolveMaxQuestions n) p0" "wf_rules p0" "compiled_from doc p0" .
  show "wf_compiled p"
    unfolding p wf_parts_frame
    using parts(1,2,5) facts_declared_wf [OF parts(3)] questions_declared_wf [OF parts(4) assms(2)]
    by (simp add: wf_compiled_def wf_outcomeSet_frame)
  have "compiled_from doc p = compiled_from doc p0"
    by (simp add: p compiled_from_def declared_facts_def)
  with parts(6) show "compiled_from doc p" by simp
  show "int (length (cQuestionIDs p)) \<le> resolveMaxQuestions n"
    using parts(4) by (auto simp: p questions_declared_def)
  have "canonicalForm p = canonicalForm (p0\<lparr>cOutcomeSet := kOutcomes c\<rparr>)"
    by (simp add: p canonicalForm_def)
  with canon show "canonicalize p = Inr (cCanonical p, cHash p)"
    by (simp add: canonicalize_def p)
qed

section \<open>Errors of the compiler\<close>

text \<open>
  Every failure but one is a sentinel of the package: the JSON encoder's error on a right
  operand that is NaN or infinite passes through \<open>canonicalize\<close> unwrapped.
\<close>

lemma condition_errors:
  "resolveOperand c od phase = Inl e \<Longrightarrow> e \<in> policy_sentinels"
  "checkRightValue c o' op' raw = Inl e \<Longrightarrow> e \<in> policy_sentinels"
  by (auto simp: operand_defs right_value_defs Let_def rbind_Inl_iff policy_sentinels_def
      split: if_splits option.splits goval.splits)

lemma compileLeaf_Inl: "compileLeaf c od op' raw phase = Inl e \<Longrightarrow> e \<in> policy_sentinels"
  by (auto simp: leaf_defs rbind_Inl_iff dest!: map_result_Inl_mem dest: condition_errors
      split: if_splits goval.splits) (auto simp: policy_sentinels_def)

lemma compileCondition_Inl:
  "compileCondition c cond phase d = Inl e \<Longrightarrow> e \<in> policy_sentinels"
  and compileCombinator_Inl:
  "compileCombinator c cs k phase d = Inl e \<Longrightarrow> e \<in> policy_sentinels"
  and compileChildren_Inl:
  "compileChildren c cs phase d = Inl e \<Longrightarrow> e \<in> policy_sentinels"
proof (induction c cond phase d and c cs k phase d and c cs phase d
    rule: compileCondition_compileCombinator_compileChildren.induct)
  case (1 c al an nt lf op' rt phase depth)
  have "ErrInvalidCondition \<in> policy_sentinels" by (simp add: policy_sentinels_def)
  with 1 show ?case
    by (auto simp del: compileCombinator.simps split: if_splits option.splits dest: compileLeaf_Inl)
next
  case (2 c cs k phase depth)
  have "ErrInvalidCondition \<in> policy_sentinels" by (simp add: policy_sentinels_def)
  with 2 show ?case by (auto simp: rbind_Inl_iff split: if_splits)
qed (auto simp: rbind_Inl_iff)

lemma compileRulesLoop_Inl:
  "compileRulesLoop rs phase saw c = Inl e \<Longrightarrow> e \<in> policy_sentinels"
proof (induction rs arbitrary: saw c)
  case (Cons r rs)
  have "ErrInvalidRule \<in> policy_sentinels" "ErrInvalidOutcome \<in> policy_sentinels"
    by (simp_all add: policy_sentinels_def)
  then have "e \<in> policy_sentinels" if "compileRule c r phase = Inl e"
    using that by (auto simp: compileRule_def Let_def rbind_Inl_iff
        split: if_splits option.splits dest: compileCondition_Inl)
  with Cons \<open>ErrInvalidRule \<in> policy_sentinels\<close> show ?case
    by (auto simp: rbind_Inl_iff split: if_splits)
qed simp

lemma compileQuestion_Inl: "compileQuestion i q = Inl e \<Longrightarrow> e = ErrInvalidQuestion"
  by (auto simp: compileQuestion_def compileQuestionInstructions_def compileQuestionCriteria_def
      compileChoiceCriteria_def compileScoreCriteria_def choiceCriterion_def validateChoiceOptionKey_def
      rbind_Inl_iff require_Inl_iff
      dest!: collect_Inl_mem map_result_Inl_mem compileCriteriaValue_Inl compileNoulCriteria_Inl
      split: if_splits sum.splits option.splits goval.splits)

lemma collectOutcomes_Inl: "collectOutcomes xs seen = Inl e \<Longrightarrow> e = ErrInvalidOutcome"
  by (induction xs arbitrary: seen) (auto split: if_splits)

lemma collectFacts_Inl: "collectFacts source names c target = Inl e \<Longrightarrow> e = ErrInvalidFact"
  by (induction names arbitrary: c target) (auto simp: Let_def split: if_splits)

lemma stage_errors:
  "compileMetadata doc p = Inl e \<Longrightarrow> e \<in> policy_sentinels"
  "compileOutcomes c doc p = Inl e \<Longrightarrow> e \<in> policy_sentinels"
  "compileFacts c doc p = Inl e \<Longrightarrow> e \<in> policy_sentinels"
  "compileQuestions c doc p = Inl e \<Longrightarrow> e \<in> policy_sentinels"
  "compileRules c rs phase = Inl e \<Longrightarrow> e \<in> policy_sentinels"
proof -
  have s: "{ErrInvalidMetadata, ErrInvalidOutcome, ErrInvalidFact, ErrInvalidQuestion, ErrInvalidRule}
      \<subseteq> policy_sentinels" by (simp add: policy_sentinels_def)
  show "compileMetadata doc p = Inl e \<Longrightarrow> e \<in> policy_sentinels"
    using s by (auto simp: compileMetadata_def Let_def split: if_splits)
  show "compileOutcomes c doc p = Inl e \<Longrightarrow> e \<in> policy_sentinels"
    using s by (auto simp: compileOutcomes_def Let_def rbind_Inl_iff dest: collectOutcomes_Inl split: if_splits)
  show "compileFacts c doc p = Inl e \<Longrightarrow> e \<in> policy_sentinels"
    using s by (auto simp: compileFacts_def Let_def rbind_Inl_iff dest: collectFacts_Inl split: if_splits)
  show "compileQuestions c doc p = Inl e \<Longrightarrow> e \<in> policy_sentinels"
    using s by (auto simp: compileQuestions_def Let_def rbind_Inl_iff
        dest!: collect_Inl_mem dest: compileQuestion_Inl split: if_splits)
  show "compileRules c rs phase = Inl e \<Longrightarrow> e \<in> policy_sentinels"
    using s by (auto simp: compileRules_def dest: compileRulesLoop_Inl split: if_splits)
qed

lemma compileStages_Inl: "compileStages c doc p = Inl e \<Longrightarrow> e \<in> policy_sentinels"
  by (auto simp: compileStages_def rbind_Inl_iff dest: stage_errors)

lemma CompileWithMaxQuestions_Inl:
  assumes "CompileWithMaxQuestions doc n = Inl e"
  shows "e \<in> policy_sentinels \<or> e = marshal_error"
proof -
  have "{ErrInvalidDocument, ErrUnsupportedAPIVersion, ErrUnsupportedKind} \<subseteq> policy_sentinels"
    by (simp add: policy_sentinels_def)
  with assms show ?thesis
    by (auto simp: CompileWithMaxQuestions_def Let_def rbind_Inl_iff validateDocumentIdentity_def
        canonicalize_def dest: compileStages_Inl split: option.splits if_splits)
qed

section \<open>Map iteration order is immaterial\<close>

definition same_criteria :: "goval \<Rightarrow> goval \<Rightarrow> bool" where
  "same_criteria v w \<longleftrightarrow> v = w \<or> (\<exists>m m'. v = VMap m \<and> w = VMap m' \<and> same_gomap m m')"

definition same_question :: "Question \<Rightarrow> Question \<Rightarrow> bool" where
  "same_question q q' \<longleftrightarrow> qType q = qType q' \<and> qInstructions q = qInstructions q' \<and>
     same_criteria (qCriteria q) (qCriteria q')"

text \<open>
  Two decodings of one document: equal but for the order in which its maps enumerate their
  entries, the option maps of its questions included.
\<close>

definition same_document :: "Document \<Rightarrow> Document \<Rightarrow> bool" where
  "same_document d d' \<longleftrightarrow> (\<exists>req opt qs.
     same_gomap (inRequiredFacts (specInput (docSpec d))) req \<and>
     same_gomap (inOptionalFacts (specInput (docSpec d))) opt \<and>
     gomap_ok (specQuestions (docSpec d)) \<and> gomap_ok qs \<and>
     (\<forall>i. rel_option same_question (map_of (specQuestions (docSpec d)) i) (map_of qs i)) \<and>
     d' = d\<lparr>docSpec := docSpec d\<lparr>specQuestions := qs,
       specInput := specInput (docSpec d)\<lparr>inRequiredFacts := req, inOptionalFacts := opt\<rparr>\<rparr>\<rparr>)"

lemma criteria_order:
  assumes "same_criteria v w"
  shows "compileNoulCriteria v = compileNoulCriteria w"
    and "compileChoiceCriteria v = compileChoiceCriteria w"
    and "compileScoreCriteria v = compileScoreCriteria w"
proof -
  consider "v = w" | m m' where "v = VMap m" "w = VMap m'" "same_gomap m m'"
    using assms by (auto simp: same_criteria_def)
  then have "compileNoulCriteria v = compileNoulCriteria w \<and>
    compileChoiceCriteria v = compileChoiceCriteria w \<and> compileScoreCriteria v = compileScoreCriteria w"
  proof cases
    case 2
    note laws = same_gomap_laws [OF 2(3)]
    have "noulCriterion m = noulCriterion m'" "choiceCriterion m = choiceCriterion m'"
      by (simp_all add: fun_eq_iff noulCriterion_def choiceCriterion_def laws)
    with 2(1,2) show ?thesis
      by (simp add: compileNoulCriteria_def noulCriteriaMap_def compileChoiceCriteria_def
          compileScoreCriteria_def laws)
  qed simp
  then show "compileNoulCriteria v = compileNoulCriteria w"
    and "compileChoiceCriteria v = compileChoiceCriteria w"
    and "compileScoreCriteria v = compileScoreCriteria w" by blast+
qed

lemma compileQuestion_order:
  assumes "same_question q q'" shows "compileQuestion i q = compileQuestion i q'"
proof -
  from assms have "qType q = qType q'" "qInstructions q = qInstructions q'"
    and "same_criteria (qCriteria q) (qCriteria q')"
    by (simp_all add: same_question_def)
  note eqs = this(1,2) criteria_order [OF this(3)]
  show ?thesis unfolding compileQuestion_def compileQuestionCriteria_def eqs ..
qed

lemma collectFacts_order:
  "map_of m = map_of m' \<Longrightarrow> collectFacts m ns c t = collectFacts m' ns c t"
  by (induction ns arbitrary: c t) (simp_all add: Let_def)

lemma compileFacts_order:
  assumes "same_document d d'" shows "compileFacts c d p = compileFacts c d' p"
proof -
  from assms have req: "same_gomap (inRequiredFacts (specInput (docSpec d))) (inRequiredFacts (specInput (docSpec d')))"
    and opt: "same_gomap (inOptionalFacts (specInput (docSpec d))) (inOptionalFacts (specInput (docSpec d')))"
    by (auto simp: same_document_def)
  show ?thesis
    unfolding compileFacts_def Let_def sortedFactNames_def same_gomap_length [OF req]
      same_gomap_length [OF opt] same_gomap_sorted_keys [OF req] same_gomap_sorted_keys [OF opt]
      collectFacts_order [OF same_gomap_map_of [OF req]] collectFacts_order [OF same_gomap_map_of [OF opt]] ..
qed

lemma compileQuestions_order:
  assumes "same_document d d'" shows "compileQuestions c d p = compileQuestions c d' p"
proof -
  define m m' where "m = specQuestions (docSpec d)" and "m' = specQuestions (docSpec d')"
  from assms have rel: "rel_option same_question (map_of m i) (map_of m' i)"
    and ok: "gomap_ok m" "gomap_ok m'" for i
    by (auto simp: same_document_def m_def m'_def)
  have dom: "map_of m i = None \<longleftrightarrow> map_of m' i = None" for i
    using rel [of i] by (auto simp: option.rel_sel)
  have keys: "fst ` set m = fst ` set m'"
    using dom by (auto simp: map_of_eq_None_iff)
  have sorted: "sorted_keys m = sorted_keys m'"
    using ok keys by (rule sorted_keys_unique)
  have len: "length m = length m'"
    using sorted length_sorted_keys by metis
  have run: "collect (\<lambda>i. compileQuestion i (the (map_of m i))) (sorted_keys m') (kQuestions c)
      = collect (\<lambda>i. compileQuestion i (the (map_of m' i))) (sorted_keys m') (kQuestions c)"
  proof (rule collect_cong [OF refl refl])
    fix i assume "i \<in> set (sorted_keys m')"
    then have "map_of m' i \<noteq> None" by (simp add: set_sorted_keys map_of_eq_None_iff)
    with rel [of i] show "compileQuestion i (the (map_of m i)) = compileQuestion i (the (map_of m' i))"
      by (auto simp: option.rel_sel intro: compileQuestion_order)
  qed
  show ?thesis
    unfolding compileQuestions_def Let_def m_def [symmetric] m'_def [symmetric] len sorted run ..
qed

lemma CompileWithMaxQuestions_order:
  assumes "same_document d d'"
  shows "CompileWithMaxQuestions (Some d) n = CompileWithMaxQuestions (Some d') n"
proof -
  from assms have eq: "docAPIVersion d' = docAPIVersion d" "docKind d' = docKind d"
    "docMetadata d' = docMetadata d" "specModel (docSpec d') = specModel (docSpec d)"
    "specOutcomes (docSpec d') = specOutcomes (docSpec d)"
    "specDefaultOutcome (docSpec d') = specDefaultOutcome (docSpec d)"
    "inStrict (specInput (docSpec d')) = inStrict (specInput (docSpec d))"
    "specPreRules (docSpec d') = specPreRules (docSpec d)"
    "specDecisionRules (docSpec d') = specDecisionRules (docSpec d)"
    by (auto simp: same_document_def)
  have meta: "compileMetadata d' = compileMetadata d" "newCompiled d' = newCompiled d"
    by (simp_all add: fun_eq_iff compileMetadata_def newCompiled_def eq)
  have outc: "compileOutcomes c d' = compileOutcomes c d" for c
    by (simp add: fun_eq_iff compileOutcomes_def eq)
  have "compileStages c d p = compileStages c d' p" for c p
    unfolding compileStages_def meta outc eq compileFacts_order [OF assms] compileQuestions_order [OF assms] ..
  then show ?thesis
    by (simp add: CompileWithMaxQuestions_def validateDocumentIdentity_def eq meta)
qed

end
