(* ===== verification/EvaluatePolicy.thy ===== *)
theory EvaluatePolicy
  imports Compile
begin

text \<open>
  Evaluation of a compiled policy (\<open>internal/pkg/policy/evaluate.go\<close>): the two rule phases
  and the validation of the provider's answers. The phases are instances of the interface
  \<open>first_match\<close>. An outer \<open>None\<close> is a panic of a malformed tree. The lemmas show that a
  well-formed policy never panics, that the first matching rule wins, that the outcome is a
  declared one, and what a validated set of answers guarantees to the rules.
\<close>

section \<open>First match wins\<close>

locale first_match =
  fixes matches :: "'r \<Rightarrow> bool option"
    and run :: "'r list \<Rightarrow> 'a option"
    and hit :: "'r \<Rightarrow> 'a"
    and miss :: 'a
  assumes run_Nil: "run [] = Some miss"
    and run_Cons: "run (r # rs) = (case matches r of None \<Rightarrow> None
      | Some b \<Rightarrow> if b then Some (hit r) else run rs)"
begin

lemma run_find:
  assumes "\<forall>r \<in> set rs. matches r \<noteq> None"
  shows "run rs = Some (case List.find (\<lambda>r. matches r = Some True) rs of None \<Rightarrow> miss | Some r \<Rightarrow> hit r)"
  using assms by (induction rs) (auto simp: run_Nil run_Cons)

lemma run_hit:
  assumes "run rs = Some v" and "v \<noteq> miss"
  shows "\<exists>before r after. rs = before @ r # after \<and> (\<forall>x \<in> set before. matches x = Some False) \<and>
    matches r = Some True \<and> v = hit r"
  using assms
proof (induction rs)
  case (Cons r rs)
  show ?case
  proof (cases "matches r")
    case (Some b)
    show ?thesis
    proof (cases b)
      case True
      with Some Cons.prems show ?thesis by (intro exI [of _ "[]"]) (auto simp: run_Cons)
    next
      case False
      with Some Cons obtain before x after where "rs = before @ x # after"
        "\<forall>x \<in> set before. matches x = Some False" "matches x = Some True" "v = hit x"
        by (auto simp: run_Cons)
      with Some False show ?thesis
        by (intro exI [of _ "r # before"] exI [of _ x] exI [of _ after]) auto
    qed
  qed (use Cons.prems in \<open>simp add: run_Cons\<close>)
qed (simp add: run_Nil)

lemma run_miss:
  assumes "\<forall>r \<in> set rs. matches r = Some False"
  shows "run rs = Some miss"
  using assms by (induction rs) (simp_all add: run_Nil run_Cons)

lemma run_append:
  assumes "\<forall>r \<in> set before. matches r = Some False"
  shows "run (before @ rs) = run rs"
  using assms by (induction before) (simp_all add: run_Cons)

end

section \<open>The rule phases\<close>

record Result =
  resOutcome :: Outcome
  resMatchedRuleID :: string
  resPath :: ExecutionPath

definition zeroResult :: Result where
  "zeroResult = \<lparr>resOutcome = [], resMatchedRuleID = [], resPath = []\<rparr>"

definition preResult :: "CompiledRule \<Rightarrow> Result" where
  "preResult r = \<lparr>resOutcome = crOutcome r, resMatchedRuleID = crID r, resPath = ExecutionPathPreRule\<rparr>"

definition decisionResult :: "CompiledRule \<Rightarrow> Result" where
  "decisionResult r =
     \<lparr>resOutcome = crOutcome r, resMatchedRuleID = crID r, resPath = ExecutionPathDecisionRule\<rparr>"

definition defaultResult :: "Compiled \<Rightarrow> Result" where
  "defaultResult c = \<lparr>resOutcome = cDefaultOutcome c, resMatchedRuleID = [], resPath = ExecutionPathDefault\<rparr>"

fun preRulesLoop :: "Facts \<Rightarrow> CompiledRule list \<Rightarrow> (Result \<times> bool) option" where
  "preRulesLoop facts [] = Some (zeroResult, False)"
| "preRulesLoop facts (r # rs) =
     (case Rule_Matches r facts [] of None \<Rightarrow> None
      | Some b \<Rightarrow> if b then Some (preResult r, True) else preRulesLoop facts rs)"

definition EvaluatePreRules :: "Compiled \<Rightarrow> Facts \<Rightarrow> (Result \<times> bool) option" where
  "EvaluatePreRules c facts = preRulesLoop facts (cPreRules c)"

fun decisionRulesLoop :: "Compiled \<Rightarrow> Facts \<Rightarrow> Answers \<Rightarrow> CompiledRule list \<Rightarrow> Result option" where
  "decisionRulesLoop c facts answers [] = Some (defaultResult c)"
| "decisionRulesLoop c facts answers (r # rs) =
     (case Rule_Matches r facts answers of None \<Rightarrow> None
      | Some b \<Rightarrow> if b then Some (decisionResult r) else decisionRulesLoop c facts answers rs)"

definition EvaluateDecisionRules :: "Compiled \<Rightarrow> Facts \<Rightarrow> Answers \<Rightarrow> Result option" where
  "EvaluateDecisionRules c facts answers = decisionRulesLoop c facts answers (cDecisionRules c)"

interpretation pre: first_match "\<lambda>r. Rule_Matches r facts []" "preRulesLoop facts"
    "\<lambda>r. (preResult r, True)" "(zeroResult, False)" for facts
  by unfold_locales simp_all

interpretation dec: first_match "\<lambda>r. Rule_Matches r facts answers" "decisionRulesLoop c facts answers"
    decisionResult "defaultResult c" for c facts answers
  by unfold_locales simp_all

section \<open>Validation of answers\<close>

definition isProbability :: "float64 \<Rightarrow> bool" where
  "isProbability v =
     (if f64_isNaN v \<or> f64_isInf v then False
      else f64_le minProbability v \<and> f64_le v maxProbability)"

text \<open>
  \<open>reflect.DeepEqual\<close> on decoded values: maps compare by key, not by order, and floats by
  \<open>==\<close>.
\<close>

fun DeepEqual :: "goval \<Rightarrow> goval \<Rightarrow> bool" where
  "DeepEqual v w =
     (case v of
        VFloat64 x \<Rightarrow> (case w of VFloat64 y \<Rightarrow> f64_eq x y | _ \<Rightarrow> False)
      | VFloat32 x \<Rightarrow> (case w of VFloat32 y \<Rightarrow> f64_eq x y | _ \<Rightarrow> False)
      | VList xs \<Rightarrow> (case w of VList ys \<Rightarrow> list_all2 DeepEqual xs ys | _ \<Rightarrow> False)
      | VMap xs \<Rightarrow> (case w of
          VMap ys \<Rightarrow> length xs = length ys \<and>
            list_all (\<lambda>(k, x). case map_of ys k of None \<Rightarrow> False | Some y \<Rightarrow> DeepEqual x y) xs
        | _ \<Rightarrow> False)
      | VAnyMap xs \<Rightarrow> (case w of
          VAnyMap ys \<Rightarrow> length xs = length ys \<and>
            list_all (\<lambda>(k, x). case map_of ys k of None \<Rightarrow> False | Some y \<Rightarrow> DeepEqual x y) xs
        | _ \<Rightarrow> False)
      | _ \<Rightarrow> v = w)"

declare DeepEqual.simps [simp del]

definition sumTolerance :: float64 where
  "sumTolerance = round64 (20000001 / 10 ^ 9)"

fun sumProbabilities :: "(string, float64) gomap \<Rightarrow> string list \<Rightarrow> float64 \<Rightarrow> sentinel + float64" where
  "sumProbabilities probabilities [] tot = Inr tot"
| "sumProbabilities probabilities (k # ks) tot =
     (let v = the (map_of probabilities k) in
      if \<not> isProbability v then Inl ErrProviderProtocol
      else sumProbabilities probabilities ks (f64_add tot v))"

definition validateDistribution :: "(string, float64) gomap \<Rightarrow> sentinel + unit" where
  "validateDistribution probabilities =
     rbind (sumProbabilities probabilities (sorted_keys probabilities) (Fin 0)) (\<lambda>tot.
       require (\<not> f64_lt sumTolerance (f64_abs (f64_sub tot (Fin 1)))) ErrProviderProtocol)"

definition validateConfidence :: "Answer \<Rightarrow> sentinel + unit" where
  "validateConfidence a =
     (if \<not> ansHasConfidence a then Inl ErrProviderProtocol
      else require (isProbability (ansConfidence a)) ErrProviderProtocol)"

definition validateNoulAnswer :: "Answer \<Rightarrow> sentinel + unit" where
  "validateNoulAnswer a = require (isProbability (ansNoul a)) ErrProviderProtocol"

definition validateChoiceAnswer :: "CompiledQuestion \<Rightarrow> Answer \<Rightarrow> sentinel + unit" where
  "validateChoiceAnswer q a =
     (if \<not> has_key (cqChoiceCriteria q) (ansChoice a) then Inl ErrProviderProtocol
      else rbind (validateConfidence a) (\<lambda>_.
        if length (ansProbabilities a) \<noteq> length (cqChoiceKeys q) then Inl ErrProviderProtocol
        else rbind (for_each (\<lambda>key. require (has_key (ansProbabilities a) key) ErrProviderProtocol)
            (cqChoiceKeys q)) (\<lambda>_. validateDistribution (ansProbabilities a))))"

definition validateScoreRange :: "Answer \<Rightarrow> nat \<Rightarrow> sentinel + unit" where
  "validateScoreRange a levels =
     (let maxScore = f64_of_int (int levels - 1) in
      if f64_isNaN (ansScore a) \<or> f64_isInf (ansScore a) \<or> f64_lt (ansScore a) (Fin 0)
        \<or> f64_lt maxScore (ansScore a)
      then Inl ErrProviderProtocol else Inr ())"

definition validateScoreCounts :: "Answer \<Rightarrow> nat \<Rightarrow> sentinel + unit" where
  "validateScoreCounts a levels =
     (if length (ansProbabilities a) \<noteq> levels then Inl ErrProviderProtocol
      else require (length (ansLegend a) = levels) ErrProviderProtocol)"

definition validateScoreLevel :: "CompiledQuestion \<Rightarrow> Answer \<Rightarrow> nat \<Rightarrow> sentinel + unit" where
  "validateScoreLevel q a index =
     (let key = Itoa (int index) in
      if \<not> has_key (ansProbabilities a) key then Inl ErrProviderProtocol
      else case map_of (ansLegend a) key of
        None \<Rightarrow> Inl ErrProviderProtocol
      | Some legend \<Rightarrow> require (DeepEqual legend (cqScoreCriteria q ! index)) ErrProviderProtocol)"

definition validateScoreLevelEntries :: "CompiledQuestion \<Rightarrow> Answer \<Rightarrow> sentinel + unit" where
  "validateScoreLevelEntries q a = for_each (validateScoreLevel q a) [0..<length (cqScoreCriteria q)]"

definition validateScoreAnswer :: "CompiledQuestion \<Rightarrow> Answer \<Rightarrow> sentinel + unit" where
  "validateScoreAnswer q a =
     (let levels = length (cqScoreCriteria q) in
      rbind (validateScoreRange a levels) (\<lambda>_.
      rbind (validateConfidence a) (\<lambda>_.
      rbind (validateScoreCounts a levels) (\<lambda>_.
      rbind (validateScoreLevelEntries q a) (\<lambda>_. validateDistribution (ansProbabilities a))))))"

definition validateAnswer :: "CompiledQuestion \<Rightarrow> Answer \<Rightarrow> sentinel + unit" where
  "validateAnswer q a =
     (if ansType a \<noteq> cqType q then Inl ErrProviderProtocol
      else if cqType q = QuestionTypeNoul then validateNoulAnswer a
      else if cqType q = QuestionTypeChoice then validateChoiceAnswer q a
      else if cqType q = QuestionTypeScore then validateScoreAnswer q a
      else Inl ErrProviderProtocol)"

definition ValidateAnswers :: "Compiled \<Rightarrow> Answers \<Rightarrow> sentinel + unit" where
  "ValidateAnswers c answers =
     (if length answers \<noteq> length (cQuestionIDs c) then Inl ErrProviderProtocol
      else for_each (\<lambda>i. case map_of answers i of
          None \<Rightarrow> Inl ErrProviderProtocol
        | Some a \<Rightarrow> validateAnswer (question_at (cQuestions c) i) a) (cQuestionIDs c))"

section \<open>Evaluation never panics\<close>

lemma wf_no_empty_names:
  assumes "wf_compiled p"
  shows "map_of (declared_facts p) [] = None" and "map_of (cQuestions p) [] = None"
proof -
  have "\<not> IsFactName []" "\<not> IsIdentifier []"
    by (simp_all add: IsFactName_def factNamePattern_def identifierPattern_def IsIdentifier_def)
  with assms show "map_of (declared_facts p) [] = None" and "map_of (cQuestions p) [] = None"
    by (auto simp: wf_compiled_def wf_facts_def wf_questions_def wf_question_def)
       (metis not_None_eq)+
qed

lemma wf_rule_cases:
  assumes "wf_compiled p" and "r \<in> set (cPreRules p) \<union> set (cDecisionRules p)"
  obtains phase where "wf_rule p phase r"
  using assms by (auto simp: wf_compiled_def wf_rules_def list_all_iff)

lemma wf_condition_ready:
  assumes "wf_compiled p" and "r \<in> set (cPreRules p) \<union> set (cDecisionRules p)"
    and "crCondition r = Some c"
  shows "canonical_ready c"
proof -
  from assms(1,2) obtain phase where "wf_rule p phase r" by (rule wf_rule_cases)
  with assms(3) have "wt_cond (declared_facts p) (cQuestions p) phase 0 c"
    by (simp add: wf_rule_def)
  with wf_no_empty_names [OF assms(1)] show ?thesis by (rule wt_cond_ready)
qed

definition rule_holds :: "CompiledRule \<Rightarrow> Facts \<Rightarrow> Answers \<Rightarrow> bool" where
  "rule_holds r facts answers = (case crCondition r of None \<Rightarrow> True | Some c \<Rightarrow> cond_holds c facts answers)"

lemma Rule_Matches_total:
  assumes "wf_compiled p" and "r \<in> set (cPreRules p) \<union> set (cDecisionRules p)"
  shows "Rule_Matches r facts answers = Some (rule_holds r facts answers)"
  using wf_condition_ready [OF assms]
  by (auto simp: Rule_Matches_def rule_holds_def Evaluate_shape canonical_ready_shape split: option.split)

lemma EvaluatePreRules_find:
  assumes "wf_compiled p"
  shows "EvaluatePreRules p facts = Some (case List.find (\<lambda>r. rule_holds r facts []) (cPreRules p) of
    None \<Rightarrow> (zeroResult, False) | Some r \<Rightarrow> (preResult r, True))"
proof -
  note total = Rule_Matches_total [OF assms]
  have "\<forall>r \<in> set (cPreRules p). Rule_Matches r facts [] \<noteq> None" by (simp add: total)
  moreover have "List.find (\<lambda>r. Rule_Matches r facts [] = Some True) (cPreRules p)
      = List.find (\<lambda>r. rule_holds r facts []) (cPreRules p)"
    by (rule find_cong) (simp_all add: total)
  ultimately show ?thesis by (simp add: EvaluatePreRules_def pre.run_find)
qed

lemma EvaluateDecisionRules_find:
  assumes "wf_compiled p"
  shows "EvaluateDecisionRules p facts answers =
    Some (case List.find (\<lambda>r. rule_holds r facts answers) (cDecisionRules p) of
      None \<Rightarrow> defaultResult p | Some r \<Rightarrow> decisionResult r)"
proof -
  note total = Rule_Matches_total [OF assms]
  have "\<forall>r \<in> set (cDecisionRules p). Rule_Matches r facts answers \<noteq> None" by (simp add: total)
  moreover have "List.find (\<lambda>r. Rule_Matches r facts answers = Some True) (cDecisionRules p)
      = List.find (\<lambda>r. rule_holds r facts answers) (cDecisionRules p)"
    by (rule find_cong) (simp_all add: total)
  ultimately show ?thesis by (simp add: EvaluateDecisionRules_def dec.run_find)
qed

lemma pre_outcome_declared:
  assumes "wf_compiled p" and "EvaluatePreRules p facts = Some (r, True)"
  shows "resOutcome r \<in> set (cOutcomes p)" and "HasOutcome p (resOutcome r)"
    and "resPath r = ExecutionPathPreRule"
proof -
  have *: "crOutcome x \<in> set (cOutcomes p)" if "x \<in> set (cPreRules p)" for x
    using assms(1) that by (auto simp: wf_compiled_def wf_rules_def list_all_iff wf_rule_def)
  show "resOutcome r \<in> set (cOutcomes p)" "resPath r = ExecutionPathPreRule"
    using assms(2) * by (auto simp: EvaluatePreRules_find [OF assms(1)] preResult_def find_Some_iff
        split: option.splits)
  with assms(1) show "HasOutcome p (resOutcome r)"
    by (simp add: HasOutcome_def wf_compiled_def wf_outcomes_def)
qed

lemma decision_outcome_declared:
  assumes "wf_compiled p" and "EvaluateDecisionRules p facts answers = Some r"
  shows "resOutcome r \<in> set (cOutcomes p)" and "HasOutcome p (resOutcome r)"
    and "resPath r \<in> {ExecutionPathDecisionRule, ExecutionPathDefault}"
proof -
  have *: "crOutcome x \<in> set (cOutcomes p)" if "x \<in> set (cDecisionRules p)" for x
    using assms(1) that by (auto simp: wf_compiled_def wf_rules_def list_all_iff wf_rule_def)
  have "cDefaultOutcome p \<in> set (cOutcomes p)"
    using assms(1) by (simp add: wf_compiled_def wf_outcomes_def)
  then show "resOutcome r \<in> set (cOutcomes p)" "resPath r \<in> {ExecutionPathDecisionRule, ExecutionPathDefault}"
    using assms(2) * by (auto simp: EvaluateDecisionRules_find [OF assms(1)] decisionResult_def
        defaultResult_def find_Some_iff split: option.splits)
  with assms(1) show "HasOutcome p (resOutcome r)"
    by (simp add: HasOutcome_def wf_compiled_def wf_outcomes_def)
qed

section \<open>The document's meaning\<close>

text \<open>
  The reference semantics of a document: the first rule, in document order, whose condition
  holds under \<open>denote\<close>.
\<close>

definition rule_applies :: "Facts \<Rightarrow> Answers \<Rightarrow> Rule \<Rightarrow> bool" where
  "rule_applies facts answers r = (case ruleWhen r of None \<Rightarrow> True | Some w \<Rightarrow> denote w facts answers)"

definition doc_pre_result :: "Document \<Rightarrow> Facts \<Rightarrow> Result \<times> bool" where
  "doc_pre_result doc facts =
     (case List.find (rule_applies facts []) (specPreRules (docSpec doc)) of
        None \<Rightarrow> (zeroResult, False)
      | Some r \<Rightarrow> (\<lparr>resOutcome = ruleOutcome r, resMatchedRuleID = ruleID r,
          resPath = ExecutionPathPreRule\<rparr>, True))"

definition doc_decision_result :: "Document \<Rightarrow> Facts \<Rightarrow> Answers \<Rightarrow> Result" where
  "doc_decision_result doc facts answers =
     (case List.find (rule_applies facts answers) (specDecisionRules (docSpec doc)) of
        None \<Rightarrow> \<lparr>resOutcome = specDefaultOutcome (docSpec doc), resMatchedRuleID = [],
          resPath = ExecutionPathDefault\<rparr>
      | Some r \<Rightarrow> \<lparr>resOutcome = ruleOutcome r, resMatchedRuleID = ruleID r,
          resPath = ExecutionPathDecisionRule\<rparr>)"

lemma rule_compiles_applies:
  assumes "rule_compiles facts0 questions outcomes phase r e"
  shows "Rule_Matches e facts answers = Some (rule_applies facts answers r)"
  using assms
  by (cases "ruleWhen r"; cases "crCondition e")
    (auto simp: rule_compiles_def Rule_Matches_def rule_applies_def)

lemma rules_compile_find:
  assumes "list_all2 (rule_compiles facts0 questions outcomes phase) rs es"
  shows "map_option (\<lambda>r. (ruleID r, ruleOutcome r)) (List.find (rule_applies facts answers) rs)
    = map_option (\<lambda>e. (crID e, crOutcome e)) (List.find (\<lambda>e. Rule_Matches e facts answers = Some True) es)"
proof (rule list_all2_find)
  show "list_all2 (\<lambda>r e. rule_applies facts answers r = (Rule_Matches e facts answers = Some True) \<and>
      (ruleID r, ruleOutcome r) = (crID e, crOutcome e)) rs es"
    using assms
    by (rule list.rel_mono_strong) (simp add: rule_compiles_applies, simp add: rule_compiles_def)
qed

lemma rules_compile_total:
  assumes "list_all2 (rule_compiles facts0 questions outcomes phase) rs es"
  shows "\<forall>e \<in> set es. Rule_Matches e facts answers \<noteq> None"
  using assms by (induction rule: list_all2_induct) (auto simp: rule_compiles_applies)

lemma EvaluatePreRules_document:
  assumes "compiled_from doc p"
  shows "EvaluatePreRules p facts = Some (doc_pre_result doc facts)"
proof -
  note rules = compiled_fromD(1) [OF assms]
  show ?thesis
    using rules_compile_find [OF rules, of facts "[]"] pre.run_find [OF rules_compile_total [OF rules]]
    by (auto simp: EvaluatePreRules_def doc_pre_result_def preResult_def split: option.splits)
qed

lemma EvaluateDecisionRules_document:
  assumes "compiled_from doc p"
  shows "EvaluateDecisionRules p facts answers = Some (doc_decision_result doc facts answers)"
proof -
  note rules = compiled_fromD(2) [OF assms]
  show ?thesis
    using rules_compile_find [OF rules, of facts answers] dec.run_find [OF rules_compile_total [OF rules]]
    by (auto simp: EvaluateDecisionRules_def doc_decision_result_def decisionResult_def defaultResult_def
        compiled_fromD(3) [OF assms] split: option.splits)
qed

section \<open>What validated answers guarantee\<close>

lemma isProbability_iff: "isProbability x \<longleftrightarrow> x = NegZero \<or> (\<exists>q. x = Fin q \<and> 0 \<le> q \<and> q \<le> 1)"
  by (cases x) (auto simp: isProbability_def f64_isNaN_def f64_isInf_def f64_le_def f64_lt_def f64_eq_def
      minProbability_def maxProbability_def)

definition probability_sum :: "(string, float64) gomap \<Rightarrow> float64" where
  "probability_sum m = foldl (\<lambda>t k. f64_add t (the (map_of m k))) (Fin 0) (sorted_keys m)"

definition distribution_ok :: "(string, float64) gomap \<Rightarrow> bool" where
  "distribution_ok m \<longleftrightarrow> (\<forall>k v. map_of m k = Some v \<longrightarrow> isProbability v) \<and>
     \<not> f64_lt sumTolerance (f64_abs (f64_sub (probability_sum m) (Fin 1)))"

definition level_keys :: "CompiledQuestion \<Rightarrow> string list" where
  "level_keys q = map (\<lambda>i. Itoa (int i)) [0..<length (cqScoreCriteria q)]"

text \<open>The provider contract for one answer, by question type.\<close>

definition answer_conforms :: "CompiledQuestion \<Rightarrow> Answer \<Rightarrow> bool" where
  "answer_conforms q a \<longleftrightarrow> ansType a = cqType q \<and>
     (cqType q = QuestionTypeNoul \<longrightarrow> isProbability (ansNoul a)) \<and>
     (cqType q = QuestionTypeChoice \<longrightarrow> has_key (cqChoiceCriteria q) (ansChoice a) \<and>
        ansHasConfidence a \<and> isProbability (ansConfidence a) \<and>
        fst ` set (ansProbabilities a) = fst ` set (cqChoiceCriteria q) \<and>
        distribution_ok (ansProbabilities a)) \<and>
     (cqType q = QuestionTypeScore \<longrightarrow>
        \<not> f64_isNaN (ansScore a) \<and> \<not> f64_isInf (ansScore a) \<and> \<not> f64_lt (ansScore a) (Fin 0) \<and>
        \<not> f64_lt (f64_of_int (int (length (cqScoreCriteria q)) - 1)) (ansScore a) \<and>
        ansHasConfidence a \<and> isProbability (ansConfidence a) \<and>
        fst ` set (ansProbabilities a) = set (level_keys q) \<and>
        fst ` set (ansLegend a) = set (level_keys q) \<and>
        (\<forall>i < length (cqScoreCriteria q). \<exists>v. map_of (ansLegend a) (Itoa (int i)) = Some v \<and>
           DeepEqual v (cqScoreCriteria q ! i)) \<and>
        distribution_ok (ansProbabilities a))"

lemma sumProbabilities_iff:
  "sumProbabilities m ks t = Inr s \<longleftrightarrow> (\<forall>k \<in> set ks. isProbability (the (map_of m k))) \<and>
     s = foldl (\<lambda>t k. f64_add t (the (map_of m k))) t ks"
  by (induction ks arbitrary: t) (auto simp: Let_def)

lemma validateDistribution_iff: "validateDistribution m = Inr () \<longleftrightarrow> distribution_ok m"
proof -
  have "(\<forall>k \<in> set (sorted_keys m). isProbability (the (map_of m k))) \<longleftrightarrow>
      (\<forall>k v. map_of m k = Some v \<longrightarrow> isProbability v)"
    unfolding set_sorted_keys by (metis has_key_def has_key_iff not_None_eq option.sel)
  then show ?thesis
    by (simp add: validateDistribution_def rbind_Inr_iff sumProbabilities_iff require_Inr_iff
        distribution_ok_def probability_sum_def)
qed

lemma level_keys_facts: "distinct (level_keys q)" "length (level_keys q) = length (cqScoreCriteria q)"
  by (auto simp: level_keys_def distinct_map inj_on_def dest: Itoa_inj)

lemma level_keys_cover:
  assumes "gomap_ok m"
  shows "fst ` set m = set (level_keys q) \<longleftrightarrow> length m = length (cqScoreCriteria q) \<and>
    (\<forall>i < length (cqScoreCriteria q). has_key m (Itoa (int i)))"
proof -
  have "(\<forall>k \<in> set (level_keys q). has_key m k) \<longleftrightarrow>
      (\<forall>i < length (cqScoreCriteria q). has_key m (Itoa (int i)))"
    by (auto simp: level_keys_def)
  then show ?thesis
    using gomap_exact_keys [OF assms level_keys_facts(1), of q] by (simp add: level_keys_facts(2))
qed

lemma validateScore_levels:
  assumes "gomap_ok (ansProbabilities a)" and "gomap_ok (ansLegend a)"
  shows "validateScoreCounts a (length (cqScoreCriteria q)) = Inr () \<and>
      validateScoreLevelEntries q a = Inr () \<longleftrightarrow>
    fst ` set (ansProbabilities a) = set (level_keys q) \<and> fst ` set (ansLegend a) = set (level_keys q) \<and>
    (\<forall>i < length (cqScoreCriteria q). \<exists>v. map_of (ansLegend a) (Itoa (int i)) = Some v \<and>
       DeepEqual v (cqScoreCriteria q ! i))"
proof -
  have level: "validateScoreLevel q a i = Inr () \<longleftrightarrow> has_key (ansProbabilities a) (Itoa (int i)) \<and>
      (\<exists>v. map_of (ansLegend a) (Itoa (int i)) = Some v \<and> DeepEqual v (cqScoreCriteria q ! i))" for i
    by (auto simp: validateScoreLevel_def Let_def require_Inr_iff split: option.splits if_splits)
  show ?thesis
    unfolding level_keys_cover [OF assms(1)] level_keys_cover [OF assms(2)]
    by (auto simp: validateScoreCounts_def validateScoreLevelEntries_def for_each_Inr_iff level
        require_Inr_iff has_key_def)
qed

lemma validateConfidence_iff:
  "validateConfidence a = Inr () \<longleftrightarrow> ansHasConfidence a \<and> isProbability (ansConfidence a)"
  by (simp add: validateConfidence_def require_Inr_iff)

lemma validateScoreRange_iff:
  "validateScoreRange a n = Inr () \<longleftrightarrow> \<not> f64_isNaN (ansScore a) \<and> \<not> f64_isInf (ansScore a) \<and>
     \<not> f64_lt (ansScore a) (Fin 0) \<and> \<not> f64_lt (f64_of_int (int n - 1)) (ansScore a)"
  by (simp add: validateScoreRange_def Let_def)

lemma validateChoiceAnswer_iff:
  assumes "wf_choice q" and "gomap_ok (ansProbabilities a)"
  shows "validateChoiceAnswer q a = Inr () \<longleftrightarrow> has_key (cqChoiceCriteria q) (ansChoice a) \<and>
    ansHasConfidence a \<and> isProbability (ansConfidence a) \<and>
    fst ` set (ansProbabilities a) = fst ` set (cqChoiceCriteria q) \<and> distribution_ok (ansProbabilities a)"
proof -
  from assms(1) have keys: "cqChoiceKeys q = sorted_keys (cqChoiceCriteria q)" "distinct (cqChoiceKeys q)"
    by (simp_all add: wf_choice_def distinct_sorted_keys)
  show ?thesis
    using gomap_exact_keys [OF assms(2) keys(2)]
    by (auto simp: validateChoiceAnswer_def rbind_Inr_iff validateConfidence_iff for_each_Inr_iff
        require_Inr_iff validateDistribution_iff keys(1) set_sorted_keys)
qed

definition answer_maps_ok :: "Answer \<Rightarrow> bool" where
  "answer_maps_ok a \<longleftrightarrow> gomap_ok (ansProbabilities a) \<and> gomap_ok (ansLegend a)"

lemma validateAnswer_iff:
  assumes "wf_question i q" and "answer_maps_ok a"
  shows "validateAnswer q a = Inr () \<longleftrightarrow> answer_conforms q a"
proof -
  from assms have "cqType q = QuestionTypeNoul \<or> cqType q = QuestionTypeChoice \<or> cqType q = QuestionTypeScore"
    by (auto simp: wf_question_def QuestionType_IsValid_def)
  then show ?thesis
  proof (elim disjE)
    assume "cqType q = QuestionTypeNoul"
    then show ?thesis
      by (simp add: validateAnswer_def answer_conforms_def validateNoulAnswer_def require_Inr_iff)
  next
    assume t: "cqType q = QuestionTypeChoice"
    with assms have "wf_choice q" "gomap_ok (ansProbabilities a)"
      by (simp_all add: wf_question_def answer_maps_ok_def)
    with t show ?thesis
      by (simp add: validateAnswer_def answer_conforms_def validateChoiceAnswer_iff)
  next
    assume t: "cqType q = QuestionTypeScore"
    have "validateScoreAnswer q a = Inr () \<longleftrightarrow> validateScoreRange a (length (cqScoreCriteria q)) = Inr () \<and>
        validateConfidence a = Inr () \<and> (validateScoreCounts a (length (cqScoreCriteria q)) = Inr () \<and>
        validateScoreLevelEntries q a = Inr ()) \<and> validateDistribution (ansProbabilities a) = Inr ()"
      by (auto simp: validateScoreAnswer_def Let_def rbind_Inr_iff)
    with t assms(2) show ?thesis
      by (simp add: validateAnswer_def answer_conforms_def validateScore_levels answer_maps_ok_def
          validateScoreRange_iff validateConfidence_iff validateDistribution_iff)
  qed
qed

definition answers_ok :: "Answers \<Rightarrow> bool" where
  "answers_ok answers \<longleftrightarrow> gomap_ok answers \<and> list_all (\<lambda>(i, a). answer_maps_ok a) answers"

definition answers_conform :: "Compiled \<Rightarrow> Answers \<Rightarrow> bool" where
  "answers_conform p answers \<longleftrightarrow> fst ` set answers = fst ` set (cQuestions p) \<and>
     (\<forall>i q a. map_of (cQuestions p) i = Some q \<longrightarrow> map_of answers i = Some a \<longrightarrow> answer_conforms q a)"

lemma ValidateAnswers_conform:
  assumes "wf_questions p" and "answers_ok answers"
  shows "ValidateAnswers p answers = Inr () \<longleftrightarrow> answers_conform p answers"
proof -
  from assms(1) have ids: "cQuestionIDs p = sorted_keys (cQuestions p)" "distinct (cQuestionIDs p)"
    by (simp_all add: wf_questions_def distinct_sorted_keys)
  have member: "i \<in> set (cQuestionIDs p) \<longleftrightarrow> map_of (cQuestions p) i \<noteq> None" for i
    by (simp add: ids(1) set_sorted_keys map_of_eq_None_iff)
  have valid: "validateAnswer (question_at (cQuestions p) i) a = Inr () \<longleftrightarrow> answer_conforms q a"
    if "map_of (cQuestions p) i = Some q" "map_of answers i = Some a" for i q a
    using that assms validateAnswer_iff [of i q a]
    by (auto simp: question_at_def wf_questions_def answers_ok_def list_all_iff dest: map_of_SomeD)
  have "ValidateAnswers p answers = Inr () \<longleftrightarrow> length answers = length (cQuestionIDs p) \<and>
      (\<forall>i \<in> set (cQuestionIDs p). \<exists>a. map_of answers i = Some a \<and>
         validateAnswer (question_at (cQuestions p) i) a = Inr ())"
    by (auto simp: ValidateAnswers_def for_each_Inr_iff split: option.splits)
  also have "\<dots> \<longleftrightarrow> (length answers = length (cQuestionIDs p) \<and> (\<forall>i \<in> set (cQuestionIDs p). has_key answers i)) \<and>
      (\<forall>i q a. map_of (cQuestions p) i = Some q \<longrightarrow> map_of answers i = Some a \<longrightarrow> answer_conforms q a)"
    using valid by (fastforce simp: member has_key_def)
  also have "\<dots> \<longleftrightarrow> answers_conform p answers"
    using gomap_exact_keys [OF _ ids(2), of answers] assms(2)
    by (simp add: answers_conform_def answers_ok_def ids(1) set_sorted_keys)
  finally show ?thesis .
qed

lemma ValidateAnswers_error:
  assumes "ValidateAnswers p answers = Inl e" shows "e = ErrProviderProtocol"
proof -
  have sum: "sumProbabilities m ks t = Inl e' \<Longrightarrow> e' = ErrProviderProtocol" for m ks t e'
    by (induction ks arbitrary: t) (auto simp: Let_def split: if_splits)
  have dist: "validateDistribution m = Inl e' \<Longrightarrow> e' = ErrProviderProtocol" for m e'
    by (auto simp: validateDistribution_def rbind_Inl_iff require_Inl_iff dest: sum)
  have conf: "validateConfidence a = Inl e' \<Longrightarrow> e' = ErrProviderProtocol" for a e'
    by (auto simp: validateConfidence_def require_Inl_iff split: if_splits)
  have "validateScoreLevelEntries q a = Inl e' \<Longrightarrow> e' = ErrProviderProtocol" for q a e'
    by (auto simp: validateScoreLevelEntries_def validateScoreLevel_def Let_def require_Inl_iff
        dest!: for_each_Inl_mem split: if_splits option.splits)
  then have score: "validateScoreAnswer q a = Inl e' \<Longrightarrow> e' = ErrProviderProtocol" for q a e'
    by (auto simp: validateScoreAnswer_def validateScoreRange_def validateScoreCounts_def Let_def
        rbind_Inl_iff require_Inl_iff dest: dist conf split: if_splits)
  have choice: "validateChoiceAnswer q a = Inl e' \<Longrightarrow> e' = ErrProviderProtocol" for q a e'
    by (auto simp: validateChoiceAnswer_def rbind_Inl_iff require_Inl_iff dest!: for_each_Inl_mem
        dest: dist conf split: if_splits)
  have "validateAnswer q a = Inl e' \<Longrightarrow> e' = ErrProviderProtocol" for q a e'
    by (auto simp: validateAnswer_def validateNoulAnswer_def require_Inl_iff dest: choice score split: if_splits)
  with assms show ?thesis
    by (auto simp: ValidateAnswers_def dest!: for_each_Inl_mem split: if_splits option.splits)
qed

section \<open>Type soundness of operands\<close>

text \<open>
  The kind of value an operand may denote: a declared option for the choice field, a number
  for every other field, a value of the declared type for a fact.
\<close>

definition operand_value_ok :: "Compiled \<Rightarrow> CompiledOperand \<Rightarrow> goval \<Rightarrow> bool" where
  "operand_value_ok p od v \<longleftrightarrow>
     (case opKind od of
        operandKindFact \<Rightarrow> FactType_Matches (factType od) v
      | operandKindAnswer \<Rightarrow>
          (if field od = AnswerFieldChoice
           then \<exists>q k. map_of (cQuestions p) (questionID od) = Some q \<and> v = VString k \<and>
             has_key (cqChoiceCriteria q) k
           else \<exists>x. v = VFloat64 x \<and> \<not> f64_isNaN x \<and> \<not> f64_isInf x))"

lemma isProbability_finite: "isProbability x \<Longrightarrow> \<not> f64_isNaN x \<and> \<not> f64_isInf x"
  by (auto simp: isProbability_def split: if_splits)

lemma answer_operand_sound:
  assumes "answer_conforms q a" and "AvailableOn (field od) (cqType q)"
    and "map_of (cQuestions p) (questionID od) = Some q" and "map_of answers (questionID od) = Some a"
    and "opKind od = operandKindAnswer"
    and "field od = AnswerFieldProbability \<longrightarrow> probability_key_ok q (probabilityKey od)"
  shows "\<exists>v. resolveOperand_run od facts answers = Some v \<and> operand_value_ok p od v"
proof (cases "field od = AnswerFieldProbability")
  case True
  with assms(2,6) have t: "cqType q = QuestionTypeChoice \<or> cqType q = QuestionTypeScore"
    and key: "probability_key_ok q (probabilityKey od)"
    by (auto simp: AvailableOn_def split: if_splits)
  have "probabilityKey od \<in> fst ` set (ansProbabilities a)" and dist: "distribution_ok (ansProbabilities a)"
    using t key assms(1)
    by (auto simp: probability_key_ok_def answer_conforms_def has_key_iff level_keys_def)
  from map_of_key_ex [OF this(1)] obtain x where
    x: "map_of (ansProbabilities a) (probabilityKey od) = Some x" ..
  with dist have "isProbability x" by (auto simp: distribution_ok_def)
  with x True t assms show ?thesis
    by (auto simp: resolveOperand_run_def Answer_Probability_def AvailableOn_def operand_value_ok_def
        answer_conforms_def dest: isProbability_finite)
next
  case False
  with assms show ?thesis
    by (auto simp: resolveOperand_run_def Answer_Field_def operand_value_ok_def answer_conforms_def
        AvailableOn_def dest: isProbability_finite split: if_splits)
qed

lemma operand_sound:
  assumes "wf_compiled p" and "wt_operand (declared_facts p) (cQuestions p) phase od"
    and "facts_conform p facts" and "phase = rulePhaseDecision \<Longrightarrow> answers_conform p answers"
  shows "resolveOperand_run od facts answers = Some v \<Longrightarrow> operand_value_ok p od v"
    and "opKind od = operandKindAnswer \<Longrightarrow> \<exists>v. resolveOperand_run od facts answers = Some v"
proof -
  have fact: "FactType_Matches (factType od) v"
    if "opKind od = operandKindFact" "map_of facts (factName od) = Some v" for v
  proof -
    from that(1) assms(2) have "map_of (cRequiredFacts p) (factName od) = Some (factType od) \<or>
        map_of (cOptionalFacts p) (factName od) = Some (factType od)"
      by (auto simp: wt_operand_def declared_facts_def map_add_Some_iff)
    with that(2) assms(3) show ?thesis
      unfolding facts_conform_def by (metis option.inject)
  qed
  have answer: "\<exists>v. resolveOperand_run od facts answers = Some v \<and> operand_value_ok p od v"
    if k: "opKind od = operandKindAnswer"
  proof -
    from k assms(2) obtain q where q: "phase = rulePhaseDecision" "map_of (cQuestions p) (questionID od) = Some q"
      "AvailableOn (field od) (cqType q)"
      "field od = AnswerFieldProbability \<longrightarrow> probability_key_ok q (probabilityKey od)"
      by (auto simp: wt_operand_def)
    with assms(4) have ac: "answers_conform p answers" by simp
    with q(2) have "questionID od \<in> fst ` set answers"
      by (force simp: answers_conform_def dest: map_of_SomeD)
    from map_of_key_ex [OF this] obtain a where "map_of answers (questionID od) = Some a" ..
    with ac q k show ?thesis
      by (intro answer_operand_sound [of q a]) (auto simp: answers_conform_def)
  qed
  show "opKind od = operandKindAnswer \<Longrightarrow> \<exists>v. resolveOperand_run od facts answers = Some v"
    using answer by blast
  show "resolveOperand_run od facts answers = Some v \<Longrightarrow> operand_value_ok p od v"
    using answer fact by (cases "opKind od") (auto simp: resolveOperand_run_fact operand_value_ok_def)
qed

section \<open>The canonical form fixes the behaviour\<close>

lemma canonicalRules_agree:
  assumes "wf_compiled p" "wf_compiled p'" and "set rs \<subseteq> set (cPreRules p) \<union> set (cDecisionRules p)"
    "set rs' \<subseteq> set (cPreRules p') \<union> set (cDecisionRules p')" and "canonicalRules rs = canonicalRules rs'"
  shows "list_all2 (\<lambda>r r'. rule_holds r facts answers = rule_holds r' facts answers \<and>
    (crID r, crOutcome r) = (crID r', crOutcome r')) rs rs'"
proof -
  define f where "f r = (crID r, crOutcome r, map_option canonicalizeCondition (crCondition r))" for r :: CompiledRule
  from arg_cong [OF assms(5), of "map (\<lambda>c. (caID c, caOutcome c, caWhen c))"] have "map f rs = map f rs'"
    by (simp add: canonicalRules_def f_def [abs_def] comp_def)
  then have "list_all2 (\<lambda>r r'. f r = f r') rs rs'" by (simp add: map_eq_list_all2)
  then show ?thesis
  proof (rule list.rel_mono_strong)
    fix r r' assume mem: "r \<in> set rs" "r' \<in> set rs'" and eq: "f r = f r'"
    have "canonical_ready c" if "crCondition r = Some c" for c
      using wf_condition_ready [OF assms(1) _ that] mem(1) assms(3) by blast
    moreover have "canonical_ready c" if "crCondition r' = Some c" for c
      using wf_condition_ready [OF assms(2) _ that] mem(2) assms(4) by blast
    ultimately show "rule_holds r facts answers = rule_holds r' facts answers \<and>
        (crID r, crOutcome r) = (crID r', crOutcome r')"
      using eq by (auto simp: f_def rule_holds_def split: option.splits
          dest: canonicalizeCondition_evaluates)
  qed
qed

lemma canonicalForm_evaluates:
  assumes "wf_compiled p" "wf_compiled p'" and "canonicalForm p = canonicalForm p'"
  shows "EvaluatePreRules p facts = EvaluatePreRules p' facts"
    and "EvaluateDecisionRules p facts answers = EvaluateDecisionRules p' facts answers"
    and "ValidateFacts p facts = ValidateFacts p' facts"
proof -
  have form: "canonicalRules (cPreRules p) = canonicalRules (cPreRules p')"
    "canonicalRules (cDecisionRules p) = canonicalRules (cDecisionRules p')"
    "cDefaultOutcome p = cDefaultOutcome p'" "cRequiredFacts p = cRequiredFacts p'"
    "cOptionalFacts p = cOptionalFacts p'" "cStrictInput p = cStrictInput p'"
    using assms(3) by (simp_all add: canonicalForm_def)
  let ?h = "\<lambda>r. (crID r, crOutcome r)"
  have found: "map_option ?h (List.find (\<lambda>r. rule_holds r facts []) (cPreRules p)) =
      map_option ?h (List.find (\<lambda>r. rule_holds r facts []) (cPreRules p'))"
    "map_option ?h (List.find (\<lambda>r. rule_holds r facts answers) (cDecisionRules p)) =
      map_option ?h (List.find (\<lambda>r. rule_holds r facts answers) (cDecisionRules p'))"
    by (rule list_all2_find, rule canonicalRules_agree [OF assms(1, 2) _ _ form(1)]; simp)
      (rule list_all2_find, rule canonicalRules_agree [OF assms(1, 2) _ _ form(2)]; simp)
  from found(1) show "EvaluatePreRules p facts = EvaluatePreRules p' facts"
    unfolding EvaluatePreRules_find [OF assms(1)] EvaluatePreRules_find [OF assms(2)]
    by (cases "List.find (\<lambda>r. rule_holds r facts []) (cPreRules p)";
        cases "List.find (\<lambda>r. rule_holds r facts []) (cPreRules p')") (auto simp: preResult_def)
  from found(2) form(3) show "EvaluateDecisionRules p facts answers = EvaluateDecisionRules p' facts answers"
    unfolding EvaluateDecisionRules_find [OF assms(1)] EvaluateDecisionRules_find [OF assms(2)]
    by (cases "List.find (\<lambda>r. rule_holds r facts answers) (cDecisionRules p)";
        cases "List.find (\<lambda>r. rule_holds r facts answers) (cDecisionRules p')")
      (auto simp: decisionResult_def defaultResult_def)
  show "ValidateFacts p facts = ValidateFacts p' facts"
    unfolding ValidateFacts_def validateRequiredFacts_def validateOptionalFacts_def validateNoUndeclaredFacts_def
      checkRequiredFact_def checkOptionalFact_def form(4-6) ..
qed

end
