(* ===== verification/Loader.thy ===== *)
theory Loader
  imports EvaluatePolicy "HOL-Library.Product_Lexorder"
begin

text \<open>
  Loading policies (\<open>internal/pkg/policy/loader.go\<close>): the document parser, the immutable
  set of policies and the policy directory. The YAML decoder of \<open>gopkg.in/yaml.v3\<close> and the
  file system are arguments. The interface \<open>policy_index\<close> states what the services rely on
  when they look a policy up; the set of the source is its instance.
\<close>

section \<open>Parsing\<close>

definition DefaultMaxPolicyBytes :: int where "DefaultMaxPolicyBytes = 262144"

text \<open>
  The decoder's two calls on one byte string: \<open>None\<close> when the first \<open>Decode\<close> fails,
  otherwise the document and whether the second call reported \<open>io.EOF\<close>.
\<close>

type_synonym yamlDecoder = "string \<Rightarrow> (Document \<times> bool) option"

definition resolveMaxBytes :: "int \<Rightarrow> int" where
  "resolveMaxBytes maxBytes = (if maxBytes \<le> 0 then DefaultMaxPolicyBytes else maxBytes)"

definition ParseDocument :: "yamlDecoder \<Rightarrow> string \<Rightarrow> int \<Rightarrow> sentinel + Document" where
  "ParseDocument yaml data maxBytes =
     (let limit = (if maxBytes \<le> 0 then DefaultMaxPolicyBytes else maxBytes) in
      if limit < int (length data) then Inl ErrPolicyTooLarge
      else if length (TrimSpace data) = 0 then Inl ErrInvalidDocument
      else case yaml data of
        None \<Rightarrow> Inl ErrInvalidDocument
      | Some (doc, eof) \<Rightarrow> if eof then Inr doc else Inl ErrInvalidDocument)"

definition CompileBytesWithMaxQuestions :: "yamlDecoder \<Rightarrow> string \<Rightarrow> int \<Rightarrow> int \<Rightarrow> sentinel + Compiled" where
  "CompileBytesWithMaxQuestions yaml data maxBytes maxQuestions =
     rbind (ParseDocument yaml data maxBytes) (\<lambda>doc. CompileWithMaxQuestions (Some doc) maxQuestions)"

definition CompileBytes :: "yamlDecoder \<Rightarrow> string \<Rightarrow> int \<Rightarrow> sentinel + Compiled" where
  "CompileBytes yaml data maxBytes = CompileBytesWithMaxQuestions yaml data maxBytes MaxQuestions"

section \<open>The set of policies\<close>

record PolicySet =
  setByRef :: "(Ref, Compiled) gomap"
  setRefs :: "Ref list"

fun indexPolicies :: "Compiled list \<Rightarrow> PolicySet \<Rightarrow> sentinel + PolicySet" where
  "indexPolicies [] s = Inr s"
| "indexPolicies (p # ps) s =
     (if has_key (setByRef s) (cRef p) then Inl ErrDuplicatePolicy
      else indexPolicies ps (s\<lparr>setByRef := AList.update (cRef p) p (setByRef s),
        setRefs := setRefs s @ [cRef p]\<rparr>))"

definition NewSet :: "Compiled list \<Rightarrow> sentinel + PolicySet" where
  "NewSet policies =
     rbind (indexPolicies policies \<lparr>setByRef = [], setRefs = []\<rparr>) (\<lambda>s.
       Inr (s\<lparr>setRefs := sort_key (\<lambda>r. (refName r, refVersion r)) (setRefs s)\<rparr>))"

definition Get :: "PolicySet \<Rightarrow> Ref \<Rightarrow> Compiled option" where
  "Get s r = map_of (setByRef s) r"

definition Len :: "PolicySet \<Rightarrow> nat" where
  "Len s = length (setRefs s)"

definition Refs :: "PolicySet \<Rightarrow> Ref list" where
  "Refs s = setRefs s"

definition All :: "PolicySet \<Rightarrow> Compiled list" where
  "All s = map (\<lambda>r. the (map_of (setByRef s) r)) (setRefs s)"

section \<open>The policy directory\<close>

record FileInfo =
  fiSymlink :: bool
  fiRegular :: bool
  fiSize :: int

text \<open>
  The file system as the loader sees it: the names of a directory, and the status and content
  of the entry \<open>filepath.Join(dir, name)\<close>. \<open>None\<close> is an operating system error.
\<close>

record fileSystem =
  fsReadDir :: "string \<Rightarrow> string list option"
  fsLstat :: "string \<Rightarrow> string \<Rightarrow> FileInfo option"
  fsReadFile :: "string \<Rightarrow> string \<Rightarrow> string option"

definition isPolicyExtension :: "string \<Rightarrow> bool" where
  "isPolicyExtension ext = (ext = ''.yaml'' \<or> ext = ''.yml'')"

text \<open>
  \<open>filepath.Ext\<close> and \<open>filepath.Base\<close> on a Unix path. Lower-casing maps ASCII letters; no
  other rune lowers to a letter of the two extensions compared against.
\<close>

definition Ext :: "string \<Rightarrow> string" where
  "Ext path = (let tail = takeWhile (\<lambda>c. c \<noteq> CHR ''/'') (rev path) in
     if CHR ''.'' \<in> set tail then CHR ''.'' # rev (takeWhile (\<lambda>c. c \<noteq> CHR ''.'') tail) else [])"

definition lower :: "char \<Rightarrow> char" where
  "lower c = (if in_range 65 90 c then char_of (byte c + 32) else c)"

definition Base :: "string \<Rightarrow> string" where
  "Base path =
     (if path = [] then ''.''
      else let stripped = dropWhile (\<lambda>c. c = CHR ''/'') (rev path);
               base = rev (takeWhile (\<lambda>c. c \<noteq> CHR ''/'') stripped) in
        if base = [] then ''/'' else base)"

definition checkRegularFile :: "FileInfo \<Rightarrow> sentinel + unit" where
  "checkRegularFile info =
     (if fiSymlink info then Inl ErrUnsafePolicyPath
      else if \<not> fiRegular info then Inl ErrUnsafePolicyPath else Inr ())"

definition loadPolicyFile ::
  "yamlDecoder \<Rightarrow> fileSystem \<Rightarrow> string \<Rightarrow> string \<Rightarrow> int \<Rightarrow> int \<Rightarrow> sentinel + Compiled" where
  "loadPolicyFile yaml fs dir name maxBytes maxQuestions =
     (if name \<noteq> Base name then Inl ErrUnsafePolicyPath
      else case fsLstat fs dir name of
        None \<Rightarrow> Inl (ErrOther ''lstat'')
      | Some info \<Rightarrow>
          rbind (checkRegularFile info) (\<lambda>_.
          if resolveMaxBytes maxBytes < fiSize info then Inl ErrPolicyTooLarge
          else case fsReadFile fs dir name of
            None \<Rightarrow> Inl (ErrOther ''read'')
          | Some data \<Rightarrow> CompileBytesWithMaxQuestions yaml data maxBytes maxQuestions))"

definition LoadDirWithMaxQuestions ::
  "yamlDecoder \<Rightarrow> fileSystem \<Rightarrow> string \<Rightarrow> int \<Rightarrow> int \<Rightarrow> sentinel + PolicySet" where
  "LoadDirWithMaxQuestions yaml fs dir maxBytes maxQuestions =
     (if dir = [] then NewSet []
      else case fsReadDir fs dir of
        None \<Rightarrow> Inl (ErrOther ''readdir'')
      | Some entries \<Rightarrow>
          let names = sort (filter (\<lambda>name. isPolicyExtension (map lower (Ext name))) entries) in
          rbind (map_result (\<lambda>name. loadPolicyFile yaml fs dir name maxBytes maxQuestions) names)
            NewSet)"

definition LoadDir :: "yamlDecoder \<Rightarrow> fileSystem \<Rightarrow> string \<Rightarrow> int \<Rightarrow> sentinel + PolicySet" where
  "LoadDir yaml fs dir maxBytes = LoadDirWithMaxQuestions yaml fs dir maxBytes MaxQuestions"

section \<open>The lookup interface\<close>

locale policy_index =
  fixes build :: "Compiled list \<Rightarrow> sentinel + 's"
    and get :: "'s \<Rightarrow> Ref \<Rightarrow> Compiled option"
    and refs :: "'s \<Rightarrow> Ref list"
    and all :: "'s \<Rightarrow> Compiled list"
  assumes build_iff: "(\<exists>s. build ps = Inr s) \<longleftrightarrow> distinct (map cRef ps)"
    and get_build: "build ps = Inr s \<Longrightarrow> get s r = List.find (\<lambda>p. cRef p = r) ps"
    and refs_build: "build ps = Inr s \<Longrightarrow> mset (refs s) = mset (map cRef ps)"
    and all_refs: "all s = map (\<lambda>r. the (get s r)) (refs s)"
begin

lemma get_member:
  assumes "build ps = Inr s"
  shows "get s r = Some p \<longleftrightarrow> p \<in> set ps \<and> cRef p = r"
proof
  assume "get s r = Some p"
  then show "p \<in> set ps \<and> cRef p = r"
    using get_build [OF assms, of r] by (auto dest: find_SomeD)
next
  assume p: "p \<in> set ps \<and> cRef p = r"
  from assms build_iff have "distinct (map cRef ps)" by blast
  then have unique: "x = p" if "x \<in> set ps" "cRef x = r" for x
    using p that by (auto simp: distinct_map inj_on_def)
  from p have "List.find (\<lambda>x. cRef x = r) ps \<noteq> None"
    by (auto simp: find_None_iff)
  then obtain x where "List.find (\<lambda>x. cRef x = r) ps = Some x" by blast
  with unique show "get s r = Some p"
    using get_build [OF assms, of r] by (auto dest: find_SomeD)
qed

lemma get_ref: "build ps = Inr s \<Longrightarrow> get s r = Some p \<Longrightarrow> cRef p = r"
  by (simp add: get_member)

lemma get_refs: "build ps = Inr s \<Longrightarrow> r \<in> set (refs s) \<longleftrightarrow> (\<exists>p. get s r = Some p)"
  using refs_build [of ps s, THEN mset_eq_setD] by (auto simp: get_member)

lemma set_all: assumes "build ps = Inr s" shows "set (all s) = set ps"
proof -
  have "set (all s) = {p. \<exists>r \<in> set (refs s). get s r = Some p}"
    using get_refs [OF assms] by (force simp: all_refs)
  also have "\<dots> = set ps"
    using get_refs [OF assms] by (auto simp: get_member [OF assms])
  finally show ?thesis .
qed

end

lemma indexPolicies_Inr:
  "indexPolicies ps s = Inr s' \<Longrightarrow> fst ` set (setByRef s) = set (setRefs s) \<Longrightarrow>
     setRefs s' = setRefs s @ map cRef ps \<and> distinct (map cRef ps) \<and> set (map cRef ps) \<inter> set (setRefs s) = {} \<and>
     map_of (setByRef s') r = (case List.find (\<lambda>p. cRef p = r) ps of Some p \<Rightarrow> Some p | None \<Rightarrow> map_of (setByRef s) r)"
proof (induction ps arbitrary: s)
  case (Cons p ps)
  define s1 where "s1 = s\<lparr>setByRef := AList.update (cRef p) p (setByRef s), setRefs := setRefs s @ [cRef p]\<rparr>"
  from Cons.prems have fresh: "cRef p \<notin> set (setRefs s)" and run: "indexPolicies ps s1 = Inr s'"
    by (auto simp: s1_def has_key_iff split: if_splits)
  have "fst ` set (setByRef s1) = set (setRefs s1)"
    using Cons.prems(2) by (simp add: s1_def keys_update)
  note IH = Cons.IH [OF run this]
  then have "cRef p \<notin> set (map cRef ps)" by (auto simp: s1_def)
  then have "List.find (\<lambda>x. cRef x = cRef p) ps = None"
    unfolding find_None_iff by (auto simp: image_iff)
  with IH fresh show ?case
    by (auto simp: s1_def map_of_update split: option.splits)
qed simp

lemma indexPolicies_total:
  "distinct (map cRef ps) \<Longrightarrow> set (map cRef ps) \<inter> fst ` set (setByRef s) = {} \<Longrightarrow>
     \<exists>s'. indexPolicies ps s = Inr s'"
proof (induction ps arbitrary: s)
  case (Cons p ps)
  define s1 where "s1 = s\<lparr>setByRef := AList.update (cRef p) p (setByRef s), setRefs := setRefs s @ [cRef p]\<rparr>"
  have "set (map cRef ps) \<inter> fst ` set (setByRef s1) = {}"
    using Cons.prems by (auto simp: s1_def keys_update)
  with Cons.IH [of s1] Cons.prems show ?case
    by (auto simp: s1_def has_key_iff)
qed simp

interpretation loaded: policy_index NewSet Get Refs All
proof
  fix ps :: "Compiled list" and s :: PolicySet and r
  define e :: PolicySet where "e = \<lparr>setByRef = [], setRefs = []\<rparr>"
  have e: "fst ` set (setByRef e) = set (setRefs e)" by (simp add: e_def)
  show "(\<exists>s. NewSet ps = Inr s) \<longleftrightarrow> distinct (map cRef ps)"
    using indexPolicies_Inr [OF _ e, of ps] indexPolicies_total [of ps e]
    by (auto simp: NewSet_def rbind_Inr_iff e_def)
  { assume "NewSet ps = Inr s"
    then obtain s' where run: "indexPolicies ps e = Inr s'"
      and s: "s = s'\<lparr>setRefs := sort_key (\<lambda>r. (refName r, refVersion r)) (setRefs s')\<rparr>"
      by (auto simp: NewSet_def rbind_Inr_iff e_def)
    note facts = indexPolicies_Inr [OF run e, of r]
    then show "Get s r = List.find (\<lambda>p. cRef p = r) ps"
      by (simp add: Get_def s e_def split: option.splits)
    from facts show "mset (Refs s) = mset (map cRef ps)"
      by (simp add: Refs_def s e_def) }
  show "All s = map (\<lambda>r. the (Get s r)) (Refs s)"
    by (simp add: All_def Get_def Refs_def)
qed

section \<open>What loading guarantees\<close>

lemma Refs_sorted:
  assumes "NewSet ps = Inr s"
  shows "sorted (map (\<lambda>r. (refName r, refVersion r)) (Refs s))" and "Len s = length ps"
proof -
  from assms obtain s' where "s = s'\<lparr>setRefs := sort_key (\<lambda>r. (refName r, refVersion r)) (setRefs s')\<rparr>"
    by (auto simp: NewSet_def rbind_Inr_iff)
  then show "sorted (map (\<lambda>r. (refName r, refVersion r)) (Refs s))" by (simp add: Refs_def)
  show "Len s = length ps"
    using loaded.refs_build [OF assms] by (metis Len_def Refs_def length_map size_mset)
qed

lemma NewSet_Inl: "NewSet ps = Inl e \<Longrightarrow> e = ErrDuplicatePolicy \<and> \<not> distinct (map cRef ps)"
proof -
  have "indexPolicies qs s = Inl e' \<Longrightarrow> e' = ErrDuplicatePolicy" for qs s e'
    by (induction qs arbitrary: s) (auto split: if_splits)
  moreover assume "NewSet ps = Inl e"
  moreover from this have "\<not> (\<exists>s. NewSet ps = Inr s)" by simp
  ultimately show ?thesis
    using loaded.build_iff [of ps] by (auto simp: NewSet_def rbind_Inl_iff)
qed

text \<open>The YAML decoder builds maps with distinct keys.\<close>

definition yaml_ok :: "yamlDecoder \<Rightarrow> bool" where
  "yaml_ok yaml \<longleftrightarrow> (\<forall>data doc eof. yaml data = Some (doc, eof) \<longrightarrow> doc_ok doc)"

text \<open>A policy as the compiler hands it out: well formed, with the hash of its own canonical text.\<close>

definition authentic :: "Compiled \<Rightarrow> bool" where
  "authentic p \<longleftrightarrow> wf_compiled p \<and> canonicalize p = Inr (cCanonical p, cHash p)"

lemma authentic_hash: "authentic p \<Longrightarrow> cHash p = sha256_hex (cCanonical p)"
  by (auto simp: authentic_def canonicalize_Inr)

lemma CompileBytes_Inr:
  assumes "CompileBytesWithMaxQuestions yaml data maxBytes maxQuestions = Inr p" and "yaml_ok yaml"
  shows "authentic p" and "int (length (cQuestionIDs p)) \<le> resolveMaxQuestions maxQuestions"
    and "int (length data) \<le> resolveMaxBytes maxBytes"
    and "\<exists>doc. yaml data = Some (doc, True) \<and> compiled_from doc p"
proof -
  from assms(1) obtain doc where doc: "yaml data = Some (doc, True)"
    and size: "int (length data) \<le> resolveMaxBytes maxBytes"
    and run: "CompileWithMaxQuestions (Some doc) maxQuestions = Inr p"
    by (auto simp: CompileBytesWithMaxQuestions_def ParseDocument_def resolveMaxBytes_def Let_def
        rbind_Inr_iff split: if_splits option.splits)
  from doc assms(2) have "doc_ok doc" by (auto simp: yaml_ok_def)
  note facts = CompileWithMaxQuestions_Inr [OF run this]
  from facts(1, 5) show "authentic p" by (simp add: authentic_def)
  from facts(3) show "int (length (cQuestionIDs p)) \<le> resolveMaxQuestions maxQuestions" .
  from size show "int (length data) \<le> resolveMaxBytes maxBytes" .
  from doc facts(2) show "\<exists>doc. yaml data = Some (doc, True) \<and> compiled_from doc p" by blast
qed

definition plain_policy_file :: "fileSystem \<Rightarrow> string \<Rightarrow> string \<Rightarrow> int \<Rightarrow> string \<Rightarrow> bool" where
  "plain_policy_file fs dir name maxBytes data \<longleftrightarrow> CHR ''/'' \<notin> set name \<and>
     isPolicyExtension (map lower (Ext name)) \<and>
     (\<exists>info. fsLstat fs dir name = Some info \<and> \<not> fiSymlink info \<and> fiRegular info \<and>
        fiSize info \<le> resolveMaxBytes maxBytes) \<and> fsReadFile fs dir name = Some data"

lemma Base_plain: "name = Base name \<Longrightarrow> isPolicyExtension (map lower (Ext name)) \<Longrightarrow> CHR ''/'' \<notin> set name"
proof -
  assume base: "name = Base name" and ext: "isPolicyExtension (map lower (Ext name))"
  have "name = ''.'' \<or> name = ''/'' \<or> CHR ''/'' \<notin> set name"
    using base by (subst (asm) Base_def) (auto simp: Let_def split: if_splits dest!: arg_cong [of _ _ set] set_takeWhileD)
  moreover have "name \<noteq> ''/''"
    using ext by (auto simp: Ext_def isPolicyExtension_def)
  ultimately show ?thesis by auto
qed

lemma LoadDir_set:
  assumes "LoadDirWithMaxQuestions yaml fs dir maxBytes maxQuestions = Inr s"
  obtains ps where "NewSet ps = Inr s"
    and "\<forall>p \<in> set ps. \<exists>entries name data. fsReadDir fs dir = Some entries \<and> name \<in> set entries \<and>
      plain_policy_file fs dir name maxBytes data \<and>
      CompileBytesWithMaxQuestions yaml data maxBytes maxQuestions = Inr p"
proof (cases "dir = []")
  case True
  with assms have "NewSet [] = Inr s" by (simp add: LoadDirWithMaxQuestions_def)
  then show ?thesis by (rule that) simp
next
  case False
  define names where "names es = sort (filter (\<lambda>name. isPolicyExtension (map lower (Ext name))) es)" for es
  from False assms obtain entries ps where entries: "fsReadDir fs dir = Some entries"
    and all: "list_all2 (\<lambda>name p. loadPolicyFile yaml fs dir name maxBytes maxQuestions = Inr p) (names entries) ps"
    and set: "NewSet ps = Inr s"
    by (auto simp: LoadDirWithMaxQuestions_def rbind_Inr_iff map_result_Inr_iff names_def Let_def
        split: option.splits)
  show ?thesis
  proof (rule that [OF set], rule ballI)
    fix p assume "p \<in> set ps"
    with all obtain name where name: "name \<in> set (names entries)"
      and load: "loadPolicyFile yaml fs dir name maxBytes maxQuestions = Inr p"
      by (auto dest: list_all2_member)
    from load obtain info data where "name = Base name" "fsLstat fs dir name = Some info"
      "\<not> fiSymlink info" "fiRegular info" "fiSize info \<le> resolveMaxBytes maxBytes"
      "fsReadFile fs dir name = Some data"
      "CompileBytesWithMaxQuestions yaml data maxBytes maxQuestions = Inr p"
      by (auto simp: loadPolicyFile_def checkRegularFile_def rbind_Inr_iff split: if_splits option.splits)
    moreover from name have "name \<in> set entries" "isPolicyExtension (map lower (Ext name))"
      by (auto simp: names_def)
    ultimately show "\<exists>entries name data. fsReadDir fs dir = Some entries \<and> name \<in> set entries \<and>
        plain_policy_file fs dir name maxBytes data \<and>
        CompileBytesWithMaxQuestions yaml data maxBytes maxQuestions = Inr p"
      using entries by (auto simp: plain_policy_file_def dest: Base_plain)
  qed
qed

lemma LoadDir_Inr:
  assumes "LoadDirWithMaxQuestions yaml fs dir maxBytes maxQuestions = Inr s"
    and "Get s r = Some p"
  shows "cRef p = r \<and> (\<exists>entries name data. fsReadDir fs dir = Some entries \<and> name \<in> set entries \<and>
    plain_policy_file fs dir name maxBytes data \<and>
    CompileBytesWithMaxQuestions yaml data maxBytes maxQuestions = Inr p)"
proof -
  obtain ps where set: "NewSet ps = Inr s"
    and files: "\<forall>p \<in> set ps. \<exists>entries name data. fsReadDir fs dir = Some entries \<and> name \<in> set entries \<and>
      plain_policy_file fs dir name maxBytes data \<and>
      CompileBytesWithMaxQuestions yaml data maxBytes maxQuestions = Inr p"
    using assms(1) by (rule LoadDir_set)
  from loaded.get_member [OF set] assms(2) have "p \<in> set ps" "cRef p = r" by auto
  with files show ?thesis by blast
qed

end
