(* ===== verification/Policies.thy ===== *)
theory Policies
  imports Loader
begin

text \<open>
  The policy service (\<open>internal/pkg/core/policies\<close>): lookup of a loaded policy, listing,
  validation of a document that is never installed, and the projection onto the public shape.
  The service is read only, so its operations return no new state. Pointers of the generated
  API types are options.
\<close>

section \<open>The public shape of a policy\<close>

record apiPolicyQuestion =
  apqID :: string
  apqType :: string
  apqInstructions :: goval
  apqChoiceCriteria :: "(string, goval) gomap option"
  apqNoulCriteria :: "(string, goval) gomap option"
  apqScoreCriteria :: "goval list option"

record apiPolicy =
  apName :: string
  apVersion :: string
  apDescription :: "string option"
  apHash :: string
  apModel :: "string option"
  apOutcomes :: "string list"
  apDefaultOutcome :: string
  apRequiredFacts :: "(string, string) gomap option"
  apOptionalFacts :: "(string, string) gomap option"
  apStrictInput :: "bool option"
  apQuestions :: "apiPolicyQuestion list"
  apPreRuleIds :: "string list option"
  apDecisionRuleIds :: "string list option"

definition optionalString :: "string \<Rightarrow> string option" where
  "optionalString v = (if v = [] then None else Some v)"

definition optionalList :: "'a list \<Rightarrow> 'a list option" where
  "optionalList xs = (if length xs = 0 then None else Some xs)"

definition factTypesToAPI :: "(string, FactType) gomap \<Rightarrow> (string, string) gomap option" where
  "factTypesToAPI source = optionalList source"

definition ruleIDsToAPI :: "CompiledRule list \<Rightarrow> string list option" where
  "ruleIDsToAPI rules = (if length rules = 0 then None else Some (map crID rules))"

definition questionToAPI :: "CompiledQuestion \<Rightarrow> apiPolicyQuestion" where
  "questionToAPI q = \<lparr>apqID = cqID q, apqType = cqType q, apqInstructions = cqInstructions q,
     apqChoiceCriteria = optionalList (cqChoiceCriteria q),
     apqNoulCriteria = optionalList (case_option [] id (cqNoulCriteria q)),
     apqScoreCriteria = optionalList (cqScoreCriteria q)\<rparr>"

definition CompiledToAPI :: "Compiled \<Rightarrow> apiPolicy" where
  "CompiledToAPI c = \<lparr>apName = refName (cRef c), apVersion = refVersion (cRef c),
     apDescription = optionalString (cDescription c), apHash = cHash c,
     apModel = optionalString (cModel c), apOutcomes = cOutcomes c,
     apDefaultOutcome = cDefaultOutcome c,
     apRequiredFacts = factTypesToAPI (cRequiredFacts c),
     apOptionalFacts = factTypesToAPI (cOptionalFacts c), apStrictInput = Some (cStrictInput c),
     apQuestions = map (\<lambda>i. questionToAPI (question_at (cQuestions c) i)) (cQuestionIDs c),
     apPreRuleIds = ruleIDsToAPI (cPreRules c), apDecisionRuleIds = ruleIDsToAPI (cDecisionRules c)\<rparr>"

section \<open>The service\<close>

record policiesService =
  svSet :: PolicySet
  svMaxPolicyBytes :: int
  svMaxQuestions :: int

definition Service_Compiled :: "policiesService \<Rightarrow> Ref \<Rightarrow> sentinel + Compiled" where
  "Service_Compiled s r = (case Get (svSet s) r of None \<Rightarrow> Inl ErrNotFound | Some c \<Rightarrow> Inr c)"

definition Service_List :: "policiesService \<Rightarrow> apiPolicy list" where
  "Service_List s = map CompiledToAPI (All (svSet s))"

definition Service_Get :: "policiesService \<Rightarrow> string \<Rightarrow> string \<Rightarrow> sentinel + apiPolicy" where
  "Service_Get s name version =
     rbind (Service_Compiled s \<lparr>refName = name, refVersion = version\<rparr>) (\<lambda>c. Inr (CompiledToAPI c))"

text \<open>The message of a compile error is represented by its sentinel.\<close>

record PolicyValidation =
  pvValid :: bool
  pvError :: "sentinel option"
  pvPolicy :: "apiPolicy option"

definition encodeDocument :: "(string, goval) gomap \<Rightarrow> sentinel + string" where
  "encodeDocument document = (case Marshal (VMap document) of None \<Rightarrow> Inl ErrMarshalFailed | Some t \<Rightarrow> Inr t)"

definition Service_Validate ::
  "yamlDecoder \<Rightarrow> policiesService \<Rightarrow> (string, goval) gomap \<Rightarrow> sentinel + PolicyValidation" where
  "Service_Validate yaml s document =
     (if length document = 0 then Inl ErrValidationFailed
      else rbind (encodeDocument document) (\<lambda>encoded.
        case CompileBytesWithMaxQuestions yaml encoded (svMaxPolicyBytes s) (svMaxQuestions s) of
          Inl e \<Rightarrow> Inr \<lparr>pvValid = False, pvError = Some e, pvPolicy = None\<rparr>
        | Inr c \<Rightarrow> Inr \<lparr>pvValid = True, pvError = None, pvPolicy = Some (CompiledToAPI c)\<rparr>))"

section \<open>What the service promises\<close>

text \<open>A service over a set built from compiled policies.\<close>

definition serves :: "policiesService \<Rightarrow> Compiled list \<Rightarrow> bool" where
  "serves s ps \<longleftrightarrow> NewSet ps = Inr (svSet s) \<and> list_all authentic ps"

lemma Service_Compiled_iff:
  assumes "serves s ps"
  shows "Service_Compiled s r = Inr c \<longleftrightarrow> c \<in> set ps \<and> cRef c = r"
    and "Service_Compiled s r = Inl e \<longleftrightarrow> e = ErrNotFound \<and> r \<notin> cRef ` set ps"
proof -
  from assms have set: "NewSet ps = Inr (svSet s)" by (simp add: serves_def)
  note member = loaded.get_member [OF set]
  show "Service_Compiled s r = Inr c \<longleftrightarrow> c \<in> set ps \<and> cRef c = r"
    using member [of r c] by (auto simp: Service_Compiled_def split: option.splits)
  show "Service_Compiled s r = Inl e \<longleftrightarrow> e = ErrNotFound \<and> r \<notin> cRef ` set ps"
    using member [of r] by (auto simp: Service_Compiled_def split: option.splits) (metis not_None_eq)+
qed

lemma LoadDir_serves:
  assumes "LoadDirWithMaxQuestions yaml fs dir maxBytes maxQuestions = Inr (svSet s)" and "yaml_ok yaml"
  shows "\<exists>ps. serves s ps"
proof -
  obtain ps where set: "NewSet ps = Inr (svSet s)"
    and files: "\<forall>p \<in> set ps. \<exists>entries name data. fsReadDir fs dir = Some entries \<and> name \<in> set entries \<and>
      plain_policy_file fs dir name maxBytes data \<and>
      CompileBytesWithMaxQuestions yaml data maxBytes maxQuestions = Inr p"
    using assms(1) by (rule LoadDir_set)
  from files have "authentic p" if "p \<in> set ps" for p
    using CompileBytes_Inr(1) [OF _ assms(2)] that by blast
  with set show ?thesis by (auto simp: serves_def list_all_iff)
qed

lemma Service_Compiled_authentic:
  "serves s ps \<Longrightarrow> Service_Compiled s r = Inr c \<Longrightarrow> authentic c \<and> cRef c = r"
  by (auto simp: Service_Compiled_iff serves_def list_all_iff)

lemma Service_List_covers:
  assumes "serves s ps"
  shows "set (Service_List s) = CompiledToAPI ` set ps" and "length (Service_List s) = length ps"
    and "sorted (map (\<lambda>p. (apName p, apVersion p)) (Service_List s))"
proof -
  from assms have set: "NewSet ps = Inr (svSet s)" by (simp add: serves_def)
  show "set (Service_List s) = CompiledToAPI ` set ps"
    using loaded.set_all [OF set] by (simp add: Service_List_def)
  show "length (Service_List s) = length ps"
    using Refs_sorted(2) [OF set] by (simp add: Service_List_def All_def Len_def)
  have "cRef (the (Get (svSet s) r)) = r" if "r \<in> set (Refs (svSet s))" for r
    using that loaded.get_refs [OF set] loaded.get_ref [OF set] by auto
  then have "map (\<lambda>p. (apName p, apVersion p)) (Service_List s)
      = map (\<lambda>r. (refName r, refVersion r)) (Refs (svSet s))"
    by (simp add: Service_List_def loaded.all_refs CompiledToAPI_def)
  with Refs_sorted(1) [OF set] show "sorted (map (\<lambda>p. (apName p, apVersion p)) (Service_List s))" by simp
qed

lemma Service_Validate_verdict:
  assumes "Service_Validate yaml s document = Inr v"
  shows "\<exists>t. Marshal (VMap document) = Some t \<and>
    (pvValid v \<longleftrightarrow> (\<exists>c. CompileBytesWithMaxQuestions yaml t (svMaxPolicyBytes s) (svMaxQuestions s) = Inr c
       \<and> pvPolicy v = Some (CompiledToAPI c))) \<and>
    (\<not> pvValid v \<longleftrightarrow> (\<exists>e. CompileBytesWithMaxQuestions yaml t (svMaxPolicyBytes s) (svMaxQuestions s) = Inl e
       \<and> pvError v = Some e))"
  using assms
  by (auto simp: Service_Validate_def encodeDocument_def rbind_Inr_iff
      split: if_splits option.splits sum.splits)

end
