(* ===== verification/Store.thy ===== *)
theory Store
  imports Prelude GoNumber
begin

text \<open>
  The database tables of \<open>internal/pkg/db/models/models.go\<close> and the statements the services
  issue against them. A table is the list of its rows; the primary key of the migrations is
  enforced by \<open>insertRow\<close>, which fails with a unique violation. The interface
  \<open>keyed_table\<close> states what a client of a table relies on; every table is an instance.
  Instants and durations are integers in nanoseconds; \<open>storedInstant\<close> is what the column of a
  driver keeps of one.
\<close>

section \<open>Statements on one table\<close>

definition findRow :: "('r \<Rightarrow> 'k) \<Rightarrow> 'k \<Rightarrow> 'r list \<Rightarrow> 'r option" where
  "findRow key k rows = List.find (\<lambda>r. key r = k) rows"

definition insertRow :: "('r \<Rightarrow> 'k) \<Rightarrow> 'r \<Rightarrow> 'r list \<Rightarrow> 'r list option" where
  "insertRow key r rows = (if key r \<in> key ` set rows then None else Some (rows @ [r]))"

text \<open>\<open>INSERT ... ON CONFLICT DO NOTHING\<close>.\<close>

definition insertIgnore :: "('r \<Rightarrow> 'k) \<Rightarrow> 'r \<Rightarrow> 'r list \<Rightarrow> 'r list" where
  "insertIgnore key r rows = (case insertRow key r rows of None \<Rightarrow> rows | Some rows' \<Rightarrow> rows')"

definition deleteKeys :: "('r \<Rightarrow> 'k) \<Rightarrow> 'k list \<Rightarrow> 'r list \<Rightarrow> 'r list" where
  "deleteKeys key ks rows = filter (\<lambda>r. key r \<notin> set ks) rows"

locale keyed_table =
  fixes key :: "'r \<Rightarrow> 'k"
    and find :: "'k \<Rightarrow> 'r list \<Rightarrow> 'r option"
    and insert :: "'r \<Rightarrow> 'r list \<Rightarrow> 'r list option"
    and ignore :: "'r \<Rightarrow> 'r list \<Rightarrow> 'r list"
    and delete :: "'k list \<Rightarrow> 'r list \<Rightarrow> 'r list"
    and keyed :: "'r list \<Rightarrow> bool"
  assumes keyed_Nil: "keyed []"
    and find_iff: "keyed t \<Longrightarrow> find k t = Some r \<longleftrightarrow> r \<in> set t \<and> key r = k"
    and insert_iff: "insert r t = Some t' \<longleftrightarrow> find (key r) t = None \<and> t' = t @ [r]"
    and insert_keyed: "keyed t \<Longrightarrow> insert r t = Some t' \<Longrightarrow> keyed t'"
    and ignore_insert: "ignore r t = (case insert r t of None \<Rightarrow> t | Some t' \<Rightarrow> t')"
    and delete_set: "set (delete ks t) = {r \<in> set t. key r \<notin> set ks}"
    and delete_keyed: "keyed t \<Longrightarrow> keyed (delete ks t)"
begin

lemma find_insert:
  assumes "keyed t" and "insert r t = Some t'"
  shows "find (key r) t' = Some r" and "k \<noteq> key r \<Longrightarrow> find k t' = find k t"
proof -
  note t' = insert_keyed [OF assms] and shape = assms(2) [unfolded insert_iff]
  show "find (key r) t' = Some r" using find_iff [OF t'] shape by simp
  assume k: "k \<noteq> key r"
  have "find k t' = Some x \<longleftrightarrow> find k t = Some x" for x
    using find_iff [OF t'] find_iff [OF assms(1)] shape k by auto
  then show "find k t' = find k t" by (metis not_None_eq)
qed

lemma find_None: "keyed t \<Longrightarrow> find k t = None \<longleftrightarrow> k \<notin> key ` set t"
  using find_iff [of t k] by (metis imageE image_eqI not_None_eq)

lemma ignore_keyed: "keyed t \<Longrightarrow> keyed (ignore r t)"
  by (auto simp: ignore_insert insert_keyed split: option.split)

lemma ignore_keeps: "set t \<subseteq> set (ignore r t)"
  by (auto simp: ignore_insert insert_iff split: option.split)

lemma ignore_present: "keyed t \<Longrightarrow> find k t = Some x \<Longrightarrow> find k (ignore r t) = Some x"
  using find_iff [of t k x] find_iff [OF ignore_keyed, of t k r x] ignore_keeps [of t r] by auto

lemma ignore_finds: "keyed t \<Longrightarrow> \<exists>x. find (key r) (ignore r t) = Some x"
proof (cases "insert r t")
  case None
  then have "find (key r) t \<noteq> None" using insert_iff [of r t "t @ [r]"] by auto
  with None show ?thesis by (auto simp: ignore_insert)
next
  case (Some t')
  assume "keyed t"
  from find_insert(1) [OF this Some] Some show ?thesis by (auto simp: ignore_insert)
qed

lemma ignore_covers: "keyed t \<Longrightarrow> key r \<in> key ` set (ignore r t)"
  using ignore_finds [of t r] find_iff [OF ignore_keyed [of t r], of "key r"] by (metis image_eqI)

end

lemma insertRow_find: "insertRow key r t = Some t' \<longleftrightarrow> findRow key (key r) t = None \<and> t' = t @ [r]"
  by (auto simp: insertRow_def findRow_def find_None_iff image_iff)

lemma findRow_iff:
  assumes "distinct (map key t)"
  shows "findRow key k t = Some r \<longleftrightarrow> r \<in> set t \<and> key r = k"
  using assms
proof (induction t)
  case (Cons x t)
  then show ?case by (auto simp: findRow_def image_iff)
qed (simp add: findRow_def)

lemma insertRow_distinct:
  "distinct (map key t) \<Longrightarrow> insertRow key r t = Some t' \<Longrightarrow> distinct (map key t')"
  by (auto simp: insertRow_def split: if_splits)

lemma deleteKeys_distinct: "distinct (map key t) \<Longrightarrow> distinct (map key (deleteKeys key ks t))"
  by (simp add: deleteKeys_def distinct_map_filter)

lemma keyed_rows:
  "keyed_table key (findRow key) (insertRow key) (insertIgnore key) (deleteKeys key)
     (\<lambda>t. distinct (map key t))"
proof
  show "distinct (map key [])" by simp
  show "distinct (map key t) \<Longrightarrow> findRow key k t = Some r \<longleftrightarrow> r \<in> set t \<and> key r = k" for t k r
    by (rule findRow_iff)
  show "insertRow key r t = Some t' \<longleftrightarrow> findRow key (key r) t = None \<and> t' = t @ [r]" for r t t'
    by (rule insertRow_find)
  show "distinct (map key t) \<Longrightarrow> insertRow key r t = Some t' \<Longrightarrow> distinct (map key t')" for t r t'
    by (rule insertRow_distinct)
  show "insertIgnore key r t = (case insertRow key r t of None \<Rightarrow> t | Some t' \<Rightarrow> t')" for r t
    by (simp add: insertIgnore_def)
  show "set (deleteKeys key ks t) = {r \<in> set t. key r \<notin> set ks}" for ks t
    by (simp add: deleteKeys_def)
  show "distinct (map key t) \<Longrightarrow> distinct (map key (deleteKeys key ks t))" for t ks
    by (rule deleteKeys_distinct)
qed

section \<open>The tables\<close>

type_synonym uuid = string
type_synonym instant = int
type_synonym duration = int

definition EvaluationStatusCompleted :: string where "EvaluationStatusCompleted = ''completed''"
definition EvaluationStatusProviderFailed :: string where
  "EvaluationStatusProviderFailed = ''provider_failed''"
definition EvaluationStatusRejected :: string where "EvaluationStatusRejected = ''rejected''"

definition EvaluationStatus_IsValid :: "string \<Rightarrow> bool" where
  "EvaluationStatus_IsValid s = (s = EvaluationStatusCompleted \<or> s = EvaluationStatusProviderFailed
     \<or> s = EvaluationStatusRejected)"

record PolicySnapshot =
  psHash :: string
  psName :: string
  psVersion :: string
  psCanonicalJSON :: string
  psLoadedAt :: instant

record EvaluationRow =
  evID :: uuid
  evPolicySnapshotHash :: string
  evPolicyName :: string
  evPolicyVersion :: string
  evPolicyKind :: string
  evStatus :: string
  evOutcome :: string
  evMatchedRuleID :: string
  evExecutionPath :: string
  evRequestedModel :: string
  evResolvedModel :: string
  evAnswersJSON :: string
  evInputTokens :: int
  evOutputTokens :: int
  evProviderAttempts :: int
  evProviderDurationMS :: int
  evTotalDurationMS :: int
  evRequestID :: string
  evMetadataJSON :: string
  evEncryptedInput :: "string option"
  evFailureCode :: string
  evCreatedAt :: instant

record IdempotencyRecord =
  idKeyHash :: string
  idCanonicalRequestHash :: string
  idEvaluationID :: uuid
  idExpiresAt :: instant
  idCreatedAt :: instant

record EvaluationFeedback =
  fbID :: uuid
  fbEvaluationID :: uuid
  fbExpectedOutcome :: string
  fbNote :: string
  fbCreatedAt :: instant

record DB =
  dbSnapshots :: "PolicySnapshot list"
  dbEvaluations :: "EvaluationRow list"
  dbIdempotency :: "IdempotencyRecord list"
  dbFeedback :: "EvaluationFeedback list"

interpretation snapshots: keyed_table psHash "findRow psHash" "insertRow psHash" "insertIgnore psHash"
    "deleteKeys psHash" "\<lambda>t. distinct (map psHash t)"
  by (rule keyed_rows)

interpretation evaluations: keyed_table evID "findRow evID" "insertRow evID" "insertIgnore evID"
    "deleteKeys evID" "\<lambda>t. distinct (map evID t)"
  by (rule keyed_rows)

interpretation idempotency: keyed_table idKeyHash "findRow idKeyHash" "insertRow idKeyHash"
    "insertIgnore idKeyHash" "deleteKeys idKeyHash" "\<lambda>t. distinct (map idKeyHash t)"
  by (rule keyed_rows)

interpretation feedback: keyed_table fbID "findRow fbID" "insertRow fbID" "insertIgnore fbID"
    "deleteKeys fbID" "\<lambda>t. distinct (map fbID t)"
  by (rule keyed_rows)

section \<open>Integrity\<close>

definition db_keys :: "DB \<Rightarrow> bool" where
  "db_keys db \<longleftrightarrow> distinct (map psHash (dbSnapshots db)) \<and> distinct (map evID (dbEvaluations db)) \<and>
     distinct (map idKeyHash (dbIdempotency db)) \<and> distinct (map fbID (dbFeedback db))"

text \<open>
  Every evaluation points at a recorded policy, every feedback at a recorded evaluation. The third
  reference, from an idempotency key to its evaluation, is not part of this: retention may remove
  the evaluation of a key that is still live, and \<open>replay\<close> then treats the key as unused.
\<close>

definition db_references :: "DB \<Rightarrow> bool" where
  "db_references db \<longleftrightarrow>
     evPolicySnapshotHash ` set (dbEvaluations db) \<subseteq> psHash ` set (dbSnapshots db) \<and>
     fbEvaluationID ` set (dbFeedback db) \<subseteq> evID ` set (dbEvaluations db)"

section \<open>Time\<close>

definition time_Add :: "instant \<Rightarrow> duration \<Rightarrow> instant" where "time_Add t d = t + d"
definition time_Before :: "instant \<Rightarrow> instant \<Rightarrow> bool" where "time_Before t u = (t < u)"

text \<open>\<open>Sub\<close> saturates at the range of \<open>time.Duration\<close>; \<open>Milliseconds\<close> truncates toward zero.\<close>

definition time_Sub :: "instant \<Rightarrow> instant \<Rightarrow> duration" where
  "time_Sub t u = max minInt (min maxInt (t - u))"

definition Milliseconds :: "duration \<Rightarrow> int" where
  "Milliseconds d = (if d < 0 then - ((- d) div 1000000) else d div 1000000)"

section \<open>Instants in a column\<close>

definition DriverSQLite :: string where "DriverSQLite = ''sqlite''"
definition DriverPostgres :: string where "DriverPostgres = ''postgres''"

text \<open>
  A \<open>TIMESTAMPTZ\<close> of PostgreSQL holds whole microseconds, and the driver cuts an instant down to
  them wherever it passes one, in an inserted row as in a comparison. SQLite keeps the text of the
  instant with all nine digits.
\<close>

definition storedInstant :: "string \<Rightarrow> instant \<Rightarrow> instant" where
  "storedInstant driver t = (if driver = DriverPostgres then 1000 * (t div 1000) else t)"

lemma storedInstant_if: "storedInstant driver t = (if driver = DriverPostgres then t - t mod 1000 else t)"
  by (simp add: storedInstant_def minus_mod_eq_mult_div)

lemma storedInstant_le: "storedInstant driver t \<le> t"
  by (simp add: storedInstant_def) presburger

lemma storedInstant_exact: "driver \<noteq> DriverPostgres \<Longrightarrow> storedInstant driver t = t"
  by (simp add: storedInstant_def)

lemma storedInstant_again [simp]: "storedInstant driver (storedInstant driver t) = storedInstant driver t"
  by (simp add: storedInstant_def)

lemma storedInstant_mono: "t \<le> u \<Longrightarrow> storedInstant driver t \<le> storedInstant driver u"
  by (simp add: storedInstant_def zdiv_mono1)

lemma storedInstant_close: "t - storedInstant driver t < 1000"
  by (simp add: storedInstant_def) presburger

lemma storedInstant_zero [simp]: "storedInstant driver 0 = 0"
  by (simp add: storedInstant_def)

end
