(* ===== verification/Provider.thy ===== *)
theory Provider
  imports Hash
begin

text \<open>
  The provider boundary (\<open>internal/pkg/provider\<close>) and its TypeSafe adapter
  (\<open>internal/pkg/provider/typesafe/client.go\<close>). An error value is the list of sentinels its
  chain matches under \<open>errors.Is\<close>. The public TypeSafe client is an argument of the
  adapter. Durations are nanoseconds.
\<close>

section \<open>Requests and responses\<close>

type_synonym goerror = "sentinel list"

record ProviderQuestion =
  pqID :: string
  pqType :: QuestionType
  pqInstructions :: goval
  pqNoulCriteria :: "(string, goval) gomap option"
  pqChoiceCriteria :: "(string, goval) gomap"
  pqScoreCriteria :: "goval list"

record Request =
  rqModel :: string
  rqState :: goval
  rqQuestions :: "ProviderQuestion list"

record Usage =
  usInputTokens :: int
  usOutputTokens :: int

record Attempt =
  atNumber :: int
  atStatusCode :: int
  atDuration :: int
  atErr :: "goerror option"

record Response =
  rsModel :: string
  rsAnswers :: Answers
  rsUsage :: Usage
  rsAttempts :: "Attempt list"
  rsDuration :: int

definition AttemptCount :: "Response \<Rightarrow> int" where
  "AttemptCount r = int (length (rsAttempts r))"

section \<open>The adapter\<close>

definition tsErrResponseTooLarge :: sentinel where
  "tsErrResponseTooLarge = ErrOther ''typesafe: response too large''"
definition tsErrOverloaded :: sentinel where
  "tsErrOverloaded = ErrOther ''typesafe: overloaded''"

record QuestionInput =
  qiType :: QuestionType
  qiInstructions :: goval
  qiCriteria :: goval

record tsRequest =
  tsState :: goval
  tsModel :: string
  tsQuestions :: "(string, QuestionInput) gomap"

record tsResponse =
  trModel :: string
  trAnswers :: Answers
  trUsage :: Usage
  trAttempts :: "Attempt list"
  trDuration :: int

text \<open>A nil criteria map is \<open>VNil\<close>: it encodes as \<open>null\<close>.\<close>

definition questionCriteria :: "ProviderQuestion \<Rightarrow> goval" where
  "questionCriteria q =
     (if pqType q = QuestionTypeNoul then (case pqNoulCriteria q of None \<Rightarrow> VNil | Some m \<Rightarrow> VMap m)
      else if pqType q = QuestionTypeChoice then VMap (pqChoiceCriteria q)
      else if pqType q = QuestionTypeScore then VList (pqScoreCriteria q)
      else VNil)"

definition questionInput :: "ProviderQuestion \<Rightarrow> QuestionInput" where
  "questionInput q = \<lparr>qiType = pqType q, qiInstructions = pqInstructions q, qiCriteria = questionCriteria q\<rparr>"

fun convertQuestions :: "ProviderQuestion list \<Rightarrow> (string, QuestionInput) gomap \<Rightarrow>
    goerror + (string, QuestionInput) gomap" where
  "convertQuestions [] m = Inr m"
| "convertQuestions (q # qs) m =
     (if has_key m (pqID q) then Inl [ErrInvalidArgument]
      else convertQuestions qs (AList.update (pqID q) (questionInput q) m))"

definition convertAnswers :: "Answers \<Rightarrow> Answers" where
  "convertAnswers source = map (\<lambda>(i, a). (i, \<lparr>ansType = ansType a, ansChoice = ansChoice a,
     ansScore = ansScore a, ansNoul = ansNoul a, ansConfidence = ansConfidence a,
     ansHasConfidence = ansHasConfidence a, ansProbabilities = ansProbabilities a,
     ansLegend = ansLegend a\<rparr>)) source"

definition convertAttempts :: "Attempt list \<Rightarrow> Attempt list" where
  "convertAttempts source = map (\<lambda>a. \<lparr>atNumber = atNumber a, atStatusCode = atStatusCode a,
     atDuration = atDuration a, atErr = atErr a\<rparr>) source"

definition mapError :: "goerror \<Rightarrow> goerror" where
  "mapError e =
     (if tsErrResponseTooLarge \<in> set e then [ErrResponseTooLarge]
      else if tsErrOverloaded \<in> set e then [ErrOverloaded]
      else e)"

definition Client_Evaluate ::
  "(tsRequest \<Rightarrow> goerror + tsResponse) \<Rightarrow> Request \<Rightarrow> goerror + Response" where
  "Client_Evaluate client request =
     rbind (convertQuestions (rqQuestions request) []) (\<lambda>questions.
     case client \<lparr>tsState = rqState request, tsModel = rqModel request, tsQuestions = questions\<rparr> of
       Inl e \<Rightarrow> Inl (mapError e)
     | Inr r \<Rightarrow> Inr \<lparr>rsModel = trModel r, rsAnswers = convertAnswers (trAnswers r), rsUsage = trUsage r,
         rsAttempts = convertAttempts (trAttempts r), rsDuration = trDuration r\<rparr>)"

section \<open>What the adapter preserves\<close>

lemma convertAnswers_id [simp]: "convertAnswers m = m"
  by (induction m) (auto simp: convertAnswers_def)

lemma convertAttempts_id [simp]: "convertAttempts m = m"
  by (induction m) (auto simp: convertAttempts_def)

lemma convertQuestions_Inr:
  "convertQuestions qs m = Inr m' \<Longrightarrow> distinct (map pqID qs) \<and> set (map pqID qs) \<inter> fst ` set m = {} \<and>
     map_of m' i = (case List.find (\<lambda>q. pqID q = i) qs of Some q \<Rightarrow> Some (questionInput q) | None \<Rightarrow> map_of m i)"
proof (induction qs arbitrary: m)
  case (Cons q qs)
  define m1 where "m1 = AList.update (pqID q) (questionInput q) m"
  from Cons.prems have fresh: "pqID q \<notin> fst ` set m" and run: "convertQuestions qs m1 = Inr m'"
    by (auto simp: m1_def has_key_iff split: if_splits)
  note IH = Cons.IH [OF run]
  then have new: "pqID q \<notin> set (map pqID qs)" by (auto simp: m1_def keys_update)
  then have "List.find (\<lambda>x. pqID x = pqID q) qs = None"
    unfolding find_None_iff by (auto simp: image_iff)
  with IH fresh new show ?case
    by (auto simp: m1_def map_of_update keys_update split: option.splits)
qed simp

lemma convertQuestions_total:
  "distinct (map pqID qs) \<Longrightarrow> set (map pqID qs) \<inter> fst ` set m = {} \<Longrightarrow> \<exists>m'. convertQuestions qs m = Inr m'"
proof (induction qs arbitrary: m)
  case (Cons q qs)
  have "set (map pqID qs) \<inter> fst ` set (AList.update (pqID q) (questionInput q) m) = {}"
    using Cons.prems by (auto simp: keys_update)
  with Cons show ?case by (auto simp: has_key_iff)
qed simp

lemma Client_Evaluate_asks:
  assumes "distinct (map pqID (rqQuestions request))"
  shows "\<exists>questions. (\<forall>i. map_of questions i =
      map_option questionInput (List.find (\<lambda>q. pqID q = i) (rqQuestions request))) \<and>
    Client_Evaluate client request =
      (case client \<lparr>tsState = rqState request, tsModel = rqModel request, tsQuestions = questions\<rparr> of
         Inl e \<Rightarrow> Inl (mapError e)
       | Inr r \<Rightarrow> Inr \<lparr>rsModel = trModel r, rsAnswers = trAnswers r, rsUsage = trUsage r,
           rsAttempts = trAttempts r, rsDuration = trDuration r\<rparr>)"
proof -
  obtain m where m: "convertQuestions (rqQuestions request) [] = Inr m"
    using convertQuestions_total [OF assms, of "[]"] by auto
  have "map_of m i = map_option questionInput (List.find (\<lambda>q. pqID q = i) (rqQuestions request))" for i
    using convertQuestions_Inr [OF m, of i] by (auto split: option.splits)
  with m show ?thesis by (auto simp: Client_Evaluate_def intro!: exI [of _ m] split: sum.split)
qed

end
