(* ===== verification/Evaluations.thy ===== *)
theory Evaluations
  imports Policies Store Provider
begin

text \<open>
  The evaluation pipeline (\<open>internal/pkg/core/evaluations\<close>): request validation, the
  idempotency protocol, the decision, persistence, and the read and feedback operations. The
  state is the \<open>World\<close>: the database, the log of provider calls and the log of observer
  events. A \<open>Session\<close> holds what one request draws from its surroundings: the clock
  readings by call site, the identifier it draws, the database driver and the statements it fails,
  the sealer, and the JSON decoder for stored columns. A panic of the rule engine is
  \<open>panicked\<close>; it does not occur for well-formed policies.
\<close>

section \<open>Configuration, request and state\<close>

record Config =
  cfgAllowInlinePolicies :: bool
  cfgMaxPolicyBytes :: int
  cfgMaxStateBytes :: int
  cfgMaxQuestions :: int
  cfgMaxFacts :: int
  cfgMaxMetadataEntries :: int
  cfgMaxMetadataValueLength :: int
  cfgStoreInputs :: bool
  cfgIdempotencyRetention :: duration

text \<open>A nil map is \<open>None\<close>: it reads as empty but encodes as \<open>null\<close>.\<close>

record CreateInput =
  ciPolicyRef :: "Ref option"
  ciInlinePolicy :: "(string, goval) gomap"
  ciState :: goval
  ciFacts :: "Facts option"
  ciMetadata :: "(string, string) gomap option"
  ciIdempotencyKey :: string
  ciRequestID :: string

definition entries :: "('k, 'v) gomap option \<Rightarrow> ('k, 'v) gomap" where
  "entries m = (case m of None \<Rightarrow> [] | Some kvs \<Rightarrow> kvs)"

record Service =
  svcPolicies :: policiesService
  svcConfig :: Config
  svcYaml :: yamlDecoder
  svcProvider :: "Request \<Rightarrow> goerror + Response"
  svcObserved :: bool

datatype statement =
    FindIdempotency | FindEvaluation | InsertSnapshot | InsertEvaluation | InsertIdempotency
  | CommitEvaluation | InsertFeedback | ListRows | ListProbe

record Session =
  seNewID :: uuid
  seNowReplay :: instant
  seNowSnapshot :: instant
  seNowStart :: instant
  seNowEnd :: instant
  seNowIdempotency :: instant
  seNowFeedback :: instant
  seDriver :: string
  seFails :: "statement \<Rightarrow> bool"
  seSealer :: "(string \<Rightarrow> sentinel + string) option"
  seAnswers :: "string \<Rightarrow> Answers option"
  seMetadata :: "string \<Rightarrow> (string, string) gomap option"

datatype event =
    ProviderCallStarted
  | ProviderCallFinished
  | ObserveProviderCall int
  | ObserveTokens string int int
  | ObserveEvaluation string string string int

record World =
  wDB :: DB
  wCalls :: "Request list"
  wEvents :: "event list"

definition dbError :: sentinel where "dbError = ErrOther ''database''"
definition panicked :: sentinel where "panicked = ErrOther ''panic''"

definition emit :: "Service \<Rightarrow> event list \<Rightarrow> World \<Rightarrow> World" where
  "emit svc es w = (if svcObserved svc then w\<lparr>wEvents := wEvents w @ es\<rparr> else w)"

section \<open>Request validation\<close>

definition validateStateSize :: "Config \<Rightarrow> goval \<Rightarrow> sentinel + unit" where
  "validateStateSize cfg state =
     (case Marshal state of
        None \<Rightarrow> Inl ErrValidationFailed
      | Some encoded \<Rightarrow>
          if 0 < cfgMaxStateBytes cfg \<and> cfgMaxStateBytes cfg < int (length encoded)
          then Inl ErrValidationFailed else Inr ())"

definition isScalarFact :: "goval \<Rightarrow> bool" where
  "isScalarFact v = (is_string v \<or> is_bool v \<or> AsNumber v \<noteq> None)"

definition validateFactCount :: "Config \<Rightarrow> Facts \<Rightarrow> sentinel + unit" where
  "validateFactCount cfg facts =
     (if 0 < cfgMaxFacts cfg \<and> cfgMaxFacts cfg < int (length facts) then Inl ErrValidationFailed
      else for_each (\<lambda>name.
        if \<not> IsFactName name then Inl ErrValidationFailed
        else require (isScalarFact (the (map_of facts name))) ErrValidationFailed) (sorted_keys facts))"

definition validateMetadata :: "Config \<Rightarrow> (string, string) gomap \<Rightarrow> sentinel + unit" where
  "validateMetadata cfg metadata =
     (if 0 < cfgMaxMetadataEntries cfg \<and> cfgMaxMetadataEntries cfg < int (length metadata)
      then Inl ErrValidationFailed
      else for_each (\<lambda>key.
        if \<not> IsFactName key then Inl ErrValidationFailed
        else require (\<not> (0 < cfgMaxMetadataValueLength cfg \<and>
          cfgMaxMetadataValueLength cfg < int (length (the (map_of metadata key))))) ErrValidationFailed)
        (sorted_keys metadata))"

definition validateRequestShape :: "Config \<Rightarrow> CreateInput \<Rightarrow> sentinel + unit" where
  "validateRequestShape cfg input =
     rbind (validateStateSize cfg (ciState input)) (\<lambda>_.
     rbind (validateFactCount cfg (entries (ciFacts input))) (\<lambda>_.
       validateMetadata cfg (entries (ciMetadata input))))"

section \<open>Policy resolution\<close>

definition PolicyKindNamed :: string where "PolicyKindNamed = ''named''"
definition PolicyKindInline :: string where "PolicyKindInline = ''inline''"

definition compileInline :: "yamlDecoder \<Rightarrow> (string, goval) gomap \<Rightarrow> int \<Rightarrow> int \<Rightarrow> sentinel + Compiled" where
  "compileInline yaml document maxBytes maxQuestions =
     rbind (encodeDocument document) (\<lambda>encoded.
       CompileBytesWithMaxQuestions yaml encoded maxBytes maxQuestions)"

definition resolvePolicy :: "Service \<Rightarrow> CreateInput \<Rightarrow> sentinel + Compiled \<times> string" where
  "resolvePolicy svc input =
     (let hasRef = (ciPolicyRef input \<noteq> None); hasInline = (0 < length (ciInlinePolicy input)) in
      if hasRef = hasInline then Inl ErrPolicySelection
      else case ciPolicyRef input of
        Some ref \<Rightarrow> rbind (Service_Compiled (svcPolicies svc) ref) (\<lambda>c. Inr (c, PolicyKindNamed))
      | None \<Rightarrow>
          if \<not> cfgAllowInlinePolicies (svcConfig svc) then Inl ErrInlinePoliciesDisabled
          else rbind (compileInline (svcYaml svc) (ciInlinePolicy input)
            (cfgMaxPolicyBytes (svcConfig svc)) (cfgMaxQuestions (svcConfig svc))) (\<lambda>c.
              Inr (c, PolicyKindInline)))"

section \<open>Encoding\<close>

definition to_json_map :: "(string, goval) gomap option \<Rightarrow> json option" where
  "to_json_map m = (case m of None \<Rightarrow> Some JNull | Some kvs \<Rightarrow> to_json (VMap kvs))"

definition json_strings :: "(string, string) gomap option \<Rightarrow> json" where
  "json_strings m = (case m of None \<Rightarrow> JNull | Some kvs \<Rightarrow> encode_strings kvs)"

definition canonicalRequest :: "string \<Rightarrow> CreateInput \<Rightarrow> json option" where
  "canonicalRequest policyHash input = do {
     state \<leftarrow> to_json (ciState input);
     facts \<leftarrow> to_json_map (ciFacts input);
     Some (JObj [(''policyHash'', JStr policyHash), (''state'', state), (''facts'', facts),
       (''metadata'', json_strings (ciMetadata input))]) }"

definition canonicalRequestHash :: "string \<Rightarrow> CreateInput \<Rightarrow> sentinel + string" where
  "canonicalRequestHash policyHash input =
     (case canonicalRequest policyHash input of
        None \<Rightarrow> Inl ErrMarshalFailed | Some j \<Rightarrow> Inr (sha256_hex (render j)))"

definition hashKey :: "string \<Rightarrow> string" where
  "hashKey key = sha256_hex key"

definition encode_answer :: "Answer \<Rightarrow> json option" where
  "encode_answer a = do {
     score \<leftarrow> json_float round64 (ansScore a);
     noul \<leftarrow> json_float round64 (ansNoul a);
     confidence \<leftarrow> json_float round64 (ansConfidence a);
     probabilities \<leftarrow> to_json (VMap (map (\<lambda>(k, v). (k, VFloat64 v)) (ansProbabilities a)));
     legend \<leftarrow> to_json (VMap (ansLegend a));
     Some (JObj ([(''type'', JStr (ansType a))] @ unless (ansChoice a = []) ''choice'' (JStr (ansChoice a))
       @ unless (f64_eq (ansScore a) (Fin 0)) ''score'' (JNum score)
       @ unless (f64_eq (ansNoul a) (Fin 0)) ''noul'' (JNum noul)
       @ unless (f64_eq (ansConfidence a) (Fin 0)) ''confidence'' (JNum confidence)
       @ [(''hasConfidence'', JBool (ansHasConfidence a))]
       @ unless (ansProbabilities a = []) ''probabilities'' probabilities
       @ unless (ansLegend a = []) ''legend'' legend)) }"

definition encodeAnswers :: "Answers \<Rightarrow> sentinel + string" where
  "encodeAnswers answers =
     (case opt_list (map (\<lambda>(i, a). map_option (Pair i) (encode_answer a)) (sort_key fst answers)) of
        None \<Rightarrow> Inl ErrMarshalFailed | Some kvs \<Rightarrow> Inr (render (JObj kvs)))"

definition encodeMetadata :: "(string, string) gomap \<Rightarrow> string" where
  "encodeMetadata metadata = (if length metadata = 0 then [] else render (encode_strings metadata))"

definition decodeAnswersJSON :: "Session \<Rightarrow> string \<Rightarrow> Answers" where
  "decodeAnswersJSON se encoded =
     (if encoded = [] then [] else case seAnswers se encoded of None \<Rightarrow> [] | Some a \<Rightarrow> a)"

definition decodeMetadataJSON :: "Session \<Rightarrow> string \<Rightarrow> (string, string) gomap" where
  "decodeMetadataJSON se encoded =
     (if encoded = [] then [] else case seMetadata se encoded of None \<Rightarrow> [] | Some m \<Rightarrow> m)"

section \<open>The public shape of an evaluation\<close>

record apiAnswer =
  aaType :: string
  aaNoul :: "float64 option"
  aaChoice :: "string option"
  aaScore :: "float64 option"
  aaProbabilities :: "(string, float64) gomap option"
  aaLegend :: "(string, goval) gomap option"
  aaConfidence :: "float64 option"

record apiEvaluation =
  aeId :: uuid
  aePolicy :: Ref
  aePolicyHash :: string
  aePolicyKind :: string
  aeStatus :: string
  aeOutcome :: string
  aeExecutionPath :: string
  aeAnswers :: "(string, apiAnswer) gomap"
  aeUsage :: Usage
  aeCreatedAt :: instant
  aeMatchedRuleId :: "string option"
  aeFailureCode :: "string option"
  aeRequestedModel :: "string option"
  aeResolvedModel :: "string option"
  aeRequestId :: "string option"
  aeProviderAttempts :: int
  aeProviderDurationMs :: int
  aeTotalDurationMs :: int
  aeMetadata :: "(string, string) gomap option"

definition answerToAPI :: "Answer \<Rightarrow> apiAnswer" where
  "answerToAPI a =
     (let t = ansType a; noul = (t = QuestionTypeNoul); choice = (t = QuestionTypeChoice);
          score = (t = QuestionTypeScore) in
      \<lparr>aaType = t, aaNoul = (if noul then Some (ansNoul a) else None),
       aaChoice = (if choice then Some (ansChoice a) else None),
       aaScore = (if score then Some (ansScore a) else None),
       aaProbabilities = (if choice \<or> score then optionalList (ansProbabilities a) else None),
       aaLegend = (if score then optionalList (ansLegend a) else None),
       aaConfidence = (if ansHasConfidence a then Some (ansConfidence a) else None)\<rparr>)"

definition answersToAPI :: "Answers \<Rightarrow> (string, apiAnswer) gomap" where
  "answersToAPI answers = map (\<lambda>(i, a). (i, answerToAPI a)) answers"

definition evaluationModelToAPI :: "Session \<Rightarrow> EvaluationRow \<Rightarrow> apiEvaluation" where
  "evaluationModelToAPI se r =
     \<lparr>aeId = evID r, aePolicy = \<lparr>refName = evPolicyName r, refVersion = evPolicyVersion r\<rparr>,
      aePolicyHash = evPolicySnapshotHash r, aePolicyKind = evPolicyKind r, aeStatus = evStatus r,
      aeOutcome = evOutcome r, aeExecutionPath = evExecutionPath r,
      aeAnswers = answersToAPI (decodeAnswersJSON se (evAnswersJSON r)),
      aeUsage = \<lparr>usInputTokens = evInputTokens r, usOutputTokens = evOutputTokens r\<rparr>,
      aeCreatedAt = evCreatedAt r, aeMatchedRuleId = optionalString (evMatchedRuleID r),
      aeFailureCode = optionalString (evFailureCode r),
      aeRequestedModel = optionalString (evRequestedModel r),
      aeResolvedModel = optionalString (evResolvedModel r),
      aeRequestId = optionalString (evRequestID r), aeProviderAttempts = evProviderAttempts r,
      aeProviderDurationMs = evProviderDurationMS r, aeTotalDurationMs = evTotalDurationMS r,
      aeMetadata = optionalList (decodeMetadataJSON se (evMetadataJSON r))\<rparr>"

section \<open>Rows as the database keeps them\<close>

text \<open>
  What an insert leaves in the table: the columns of the row, its instants as the driver stores
  them. The row in memory, from which the response is made, is not changed by it.
\<close>

definition storeSnapshot :: "Session \<Rightarrow> PolicySnapshot \<Rightarrow> PolicySnapshot" where
  "storeSnapshot se r = r\<lparr>psLoadedAt := storedInstant (seDriver se) (psLoadedAt r)\<rparr>"

definition storeEvaluation :: "Session \<Rightarrow> EvaluationRow \<Rightarrow> EvaluationRow" where
  "storeEvaluation se r = r\<lparr>evCreatedAt := storedInstant (seDriver se) (evCreatedAt r)\<rparr>"

definition storeIdempotency :: "Session \<Rightarrow> IdempotencyRecord \<Rightarrow> IdempotencyRecord" where
  "storeIdempotency se r = r\<lparr>idExpiresAt := storedInstant (seDriver se) (idExpiresAt r),
     idCreatedAt := storedInstant (seDriver se) (idCreatedAt r)\<rparr>"

definition storeFeedback :: "Session \<Rightarrow> EvaluationFeedback \<Rightarrow> EvaluationFeedback" where
  "storeFeedback se r = r\<lparr>fbCreatedAt := storedInstant (seDriver se) (fbCreatedAt r)\<rparr>"

section \<open>Reading\<close>

definition findEvaluation :: "Session \<Rightarrow> DB \<Rightarrow> uuid \<Rightarrow> sentinel + EvaluationRow" where
  "findEvaluation se db i =
     (if seFails se FindEvaluation then Inl dbError
      else case findRow evID i (dbEvaluations db) of None \<Rightarrow> Inl ErrNotFound | Some r \<Rightarrow> Inr r)"

definition Evaluation_Get :: "Session \<Rightarrow> DB \<Rightarrow> uuid \<Rightarrow> sentinel + apiEvaluation" where
  "Evaluation_Get se db i = rbind (findEvaluation se db i) (\<lambda>r. Inr (evaluationModelToAPI se r))"

record ListFilter =
  lfLimit :: int
  lfOffset :: int
  lfPolicyName :: string
  lfPolicyVersion :: string
  lfOutcome :: string
  lfStatus :: string

definition filtered :: "ListFilter \<Rightarrow> EvaluationRow list \<Rightarrow> EvaluationRow list" where
  "filtered f rows = filter (\<lambda>r. (lfPolicyName f \<noteq> [] \<longrightarrow> evPolicyName r = lfPolicyName f) \<and>
     (lfPolicyVersion f \<noteq> [] \<longrightarrow> evPolicyVersion r = lfPolicyVersion f) \<and>
     (lfOutcome f \<noteq> [] \<longrightarrow> evOutcome r = lfOutcome f) \<and>
     (lfStatus f \<noteq> [] \<longrightarrow> evStatus r = lfStatus f)) rows"

text \<open>\<open>ORDER BY created_at DESC, id DESC\<close>; identifiers are compared as stored text.\<close>

definition newest_first :: "EvaluationRow list \<Rightarrow> EvaluationRow list" where
  "newest_first rows = rev (sort_key (\<lambda>r. (evCreatedAt r, evID r)) rows)"

text \<open>
  \<open>LIMIT\<close> and \<open>OFFSET\<close>; an offset of zero or less adds no clause. The sum of the two is
  computed in 64 bits.
\<close>

definition page :: "int \<Rightarrow> int \<Rightarrow> 'a list \<Rightarrow> 'a list" where
  "page limit offset rows = take (nat limit) (drop (nat offset) rows)"

definition int64_add :: "int \<Rightarrow> int \<Rightarrow> int" where
  "int64_add a b = (a + b + 2 ^ 63) mod 2 ^ 64 - 2 ^ 63"

record EvaluationList =
  elItems :: "apiEvaluation list"
  elLimit :: int
  elOffset :: int
  elHasMore :: bool

definition Evaluation_List :: "Session \<Rightarrow> DB \<Rightarrow> ListFilter \<Rightarrow> sentinel + EvaluationList" where
  "Evaluation_List se db f =
     (if lfLimit f \<le> 0 \<or> lfOffset f < 0 then Inl ErrInvalidArgument
      else if seFails se ListRows then Inl dbError
      else let rows = page (lfLimit f) (lfOffset f) (newest_first (filtered f (dbEvaluations db))) in
        if seFails se ListProbe then Inl dbError
        else let probe = page 1 (int64_add (lfOffset f) (lfLimit f))
            (newest_first (filtered f (dbEvaluations db))) in
          Inr \<lparr>elItems = map (evaluationModelToAPI se) rows, elLimit = lfLimit f, elOffset = lfOffset f,
            elHasMore = (0 < length probe)\<rparr>)"

section \<open>Idempotency and snapshots\<close>

definition replay ::
  "Session \<Rightarrow> DB \<Rightarrow> CreateInput \<Rightarrow> string \<Rightarrow> sentinel + apiEvaluation option" where
  "replay se db input requestHash =
     (if ciIdempotencyKey input = [] then Inr None
      else if seFails se FindIdempotency then Inl dbError
      else case findRow idKeyHash (hashKey (ciIdempotencyKey input)) (dbIdempotency db) of
        None \<Rightarrow> Inr None
      | Some rec \<Rightarrow>
          if time_Before (idExpiresAt rec) (seNowReplay se) then Inr None
          else if idCanonicalRequestHash rec \<noteq> requestHash then Inl ErrIdempotencyConflict
          else case Evaluation_Get se db (idEvaluationID rec) of
            Inl e \<Rightarrow> if e = ErrNotFound then Inr None else Inl e
          | Inr evaluation \<Rightarrow> Inr (Some evaluation))"

definition snapshotOf :: "Session \<Rightarrow> Compiled \<Rightarrow> PolicySnapshot" where
  "snapshotOf se compiled = \<lparr>psHash = cHash compiled, psName = refName (cRef compiled),
     psVersion = refVersion (cRef compiled), psCanonicalJSON = cCanonical compiled,
     psLoadedAt = seNowSnapshot se\<rparr>"

definition ensureSnapshot :: "Session \<Rightarrow> DB \<Rightarrow> Compiled \<Rightarrow> sentinel + DB" where
  "ensureSnapshot se db compiled =
     (if seFails se InsertSnapshot then Inl dbError
      else Inr (db\<lparr>dbSnapshots := insertIgnore psHash (storeSnapshot se (snapshotOf se compiled))
        (dbSnapshots db)\<rparr>))"

section \<open>The decision\<close>

definition newRecord :: "Session \<Rightarrow> Compiled \<Rightarrow> string \<Rightarrow> CreateInput \<Rightarrow> EvaluationRow" where
  "newRecord se compiled pk input = \<lparr>evID = seNewID se, evPolicySnapshotHash = cHash compiled,
     evPolicyName = refName (cRef compiled), evPolicyVersion = refVersion (cRef compiled),
     evPolicyKind = pk, evStatus = [], evOutcome = [], evMatchedRuleID = [], evExecutionPath = [],
     evRequestedModel = cModel compiled, evResolvedModel = [], evAnswersJSON = [],
     evInputTokens = 0, evOutputTokens = 0, evProviderAttempts = 0, evProviderDurationMS = 0,
     evTotalDurationMS = 0, evRequestID = ciRequestID input,
     evMetadataJSON = encodeMetadata (entries (ciMetadata input)), evEncryptedInput = None,
     evFailureCode = [], evCreatedAt = seNowStart se\<rparr>"

definition applyResult :: "EvaluationRow \<Rightarrow> Result \<Rightarrow> EvaluationRow" where
  "applyResult r result = r\<lparr>evOutcome := resOutcome result, evMatchedRuleID := resMatchedRuleID result,
     evExecutionPath := resPath result\<rparr>"

definition elapsedMS :: "Session \<Rightarrow> int" where
  "elapsedMS se = Milliseconds (time_Sub (seNowEnd se) (seNowStart se))"

definition buildProviderRequest :: "Compiled \<Rightarrow> CreateInput \<Rightarrow> Request" where
  "buildProviderRequest compiled input = \<lparr>rqModel = cModel compiled, rqState = ciState input,
     rqQuestions = map (\<lambda>i. let q = question_at (cQuestions compiled) i in
       \<lparr>pqID = cqID q, pqType = cqType q, pqInstructions = cqInstructions q,
        pqNoulCriteria = cqNoulCriteria q, pqChoiceCriteria = cqChoiceCriteria q,
        pqScoreCriteria = cqScoreCriteria q\<rparr>) (cQuestionIDs compiled)\<rparr>"

definition applyUsage :: "EvaluationRow \<Rightarrow> Response \<Rightarrow> EvaluationRow" where
  "applyUsage r response = r\<lparr>evResolvedModel := rsModel response,
     evInputTokens := usInputTokens (rsUsage response),
     evOutputTokens := usOutputTokens (rsUsage response),
     evProviderAttempts := AttemptCount response,
     evProviderDurationMS := Milliseconds (rsDuration response)\<rparr>"

definition askProvider ::
  "Service \<Rightarrow> World \<Rightarrow> EvaluationRow \<Rightarrow> Compiled \<Rightarrow> CreateInput \<Rightarrow>
    World \<times> (goerror + EvaluationRow \<times> Response)" where
  "askProvider svc w r compiled input =
     (let request = buildProviderRequest compiled input;
          w1 = emit svc [ProviderCallStarted] w;
          w2 = w1\<lparr>wCalls := wCalls w1 @ [request]\<rparr> in
      case svcProvider svc request of
        Inl e \<Rightarrow> (emit svc [ProviderCallFinished] w2, Inl e)
      | Inr response \<Rightarrow>
          (emit svc [ObserveProviderCall (AttemptCount response),
             ObserveTokens (rsModel response) (usInputTokens (rsUsage response))
               (usOutputTokens (rsUsage response)), ProviderCallFinished] w2,
           Inr (applyUsage r response, response)))"

definition FailureCodeProviderAuth :: string where "FailureCodeProviderAuth = ''PROVIDER_AUTH_FAILED''"
definition FailureCodeProviderRateLimited :: string where
  "FailureCodeProviderRateLimited = ''PROVIDER_RATE_LIMITED''"
definition FailureCodeProviderUnavailable :: string where
  "FailureCodeProviderUnavailable = ''PROVIDER_UNAVAILABLE''"
definition FailureCodeProviderTimeout :: string where "FailureCodeProviderTimeout = ''PROVIDER_TIMEOUT''"
definition FailureCodeProviderProtocol :: string where
  "FailureCodeProviderProtocol = ''PROVIDER_PROTOCOL_ERROR''"
definition FailureCodeProviderRejected :: string where
  "FailureCodeProviderRejected = ''PROVIDER_REJECTED_REQUEST''"

definition classifyProviderFailure :: "goerror \<Rightarrow> string" where
  "classifyProviderFailure e =
     (if ErrNotAuthenticated \<in> set e \<or> ErrRequiredConfigValueNotSet \<in> set e then FailureCodeProviderAuth
      else if ErrRateLimited \<in> set e then FailureCodeProviderRateLimited
      else if ErrTimeout \<in> set e then FailureCodeProviderTimeout
      else if ErrValidationFailed \<in> set e then FailureCodeProviderRejected
      else if ErrParseFailed \<in> set e \<or> ErrResponseTooLarge \<in> set e then FailureCodeProviderProtocol
      else FailureCodeProviderUnavailable)"

definition recordProviderFailure :: "Session \<Rightarrow> EvaluationRow \<Rightarrow> goerror \<Rightarrow> sentinel + EvaluationRow" where
  "recordProviderFailure se r e =
     (if ErrCanceled \<in> set e then Inl ErrCanceled
      else Inr (r\<lparr>evStatus := EvaluationStatusProviderFailed, evFailureCode := classifyProviderFailure e,
        evTotalDurationMS := elapsedMS se\<rparr>))"

definition recordProtocolFailure :: "Session \<Rightarrow> EvaluationRow \<Rightarrow> EvaluationRow" where
  "recordProtocolFailure se r = r\<lparr>evStatus := EvaluationStatusProviderFailed,
     evFailureCode := FailureCodeProviderProtocol, evTotalDurationMS := elapsedMS se\<rparr>"

definition completeRecord :: "Session \<Rightarrow> EvaluationRow \<Rightarrow> Result \<Rightarrow> EvaluationRow" where
  "completeRecord se r result = (applyResult r result)\<lparr>evStatus := EvaluationStatusCompleted,
     evTotalDurationMS := elapsedMS se\<rparr>"

text \<open>The outcome of the pre-rules: \<open>None\<close> is a panic, \<open>Some None\<close> no match.\<close>

definition applyPreRules ::
  "Session \<Rightarrow> EvaluationRow \<Rightarrow> Compiled \<Rightarrow> CreateInput \<Rightarrow> EvaluationRow option option" where
  "applyPreRules se r compiled input =
     (case EvaluatePreRules compiled (entries (ciFacts input)) of
        None \<Rightarrow> None
      | Some (result, matched) \<Rightarrow>
          if \<not> matched then Some None else Some (Some (completeRecord se r result)))"

definition scoreAnswers ::
  "Session \<Rightarrow> EvaluationRow \<Rightarrow> Compiled \<Rightarrow> CreateInput \<Rightarrow> Response \<Rightarrow> sentinel + EvaluationRow" where
  "scoreAnswers se r compiled input response =
     (case ValidateAnswers compiled (rsAnswers response) of
        Inl _ \<Rightarrow> Inr (recordProtocolFailure se r)
      | Inr _ \<Rightarrow>
          rbind (encodeAnswers (rsAnswers response)) (\<lambda>text.
          case EvaluateDecisionRules compiled (entries (ciFacts input)) (rsAnswers response) of
            None \<Rightarrow> Inl panicked
          | Some result \<Rightarrow> Inr (completeRecord se (r\<lparr>evAnswersJSON := text\<rparr>) result)))"

definition decide ::
  "Service \<Rightarrow> Session \<Rightarrow> World \<Rightarrow> Compiled \<Rightarrow> string \<Rightarrow> CreateInput \<Rightarrow> World \<times> (sentinel + EvaluationRow)" where
  "decide svc se w compiled pk input =
     (let r = newRecord se compiled pk input in
      case ValidateFacts compiled (entries (ciFacts input)) of
        Inl e \<Rightarrow> (w, Inl e)
      | Inr _ \<Rightarrow>
          (case applyPreRules se r compiled input of
             None \<Rightarrow> (w, Inl panicked)
           | Some (Some done) \<Rightarrow> (w, Inr done)
           | Some None \<Rightarrow>
               (case askProvider svc w r compiled input of
                  (w', Inl e) \<Rightarrow> (w', recordProviderFailure se r e)
                | (w', Inr (r', response)) \<Rightarrow> (w', scoreAnswers se r' compiled input response))))"

section \<open>Persistence\<close>

definition inputPayload :: "CreateInput \<Rightarrow> json option" where
  "inputPayload input = do {
     state \<leftarrow> to_json (ciState input);
     facts \<leftarrow> to_json_map (ciFacts input);
     Some (JObj [(''state'', state), (''facts'', facts), (''metadata'', json_strings (ciMetadata input))]) }"

definition sealInput :: "Service \<Rightarrow> Session \<Rightarrow> CreateInput \<Rightarrow> sentinel + string option" where
  "sealInput svc se input =
     (case seSealer se of
        None \<Rightarrow> Inr None
      | Some seal \<Rightarrow>
          if \<not> cfgStoreInputs (svcConfig svc) then Inr None
          else case inputPayload input of
            None \<Rightarrow> Inl ErrMarshalFailed
          | Some j \<Rightarrow> rbind (seal (render j)) (\<lambda>sealed. Inr (Some sealed)))"

definition idempotencyRow :: "Service \<Rightarrow> Session \<Rightarrow> EvaluationRow \<Rightarrow> CreateInput \<Rightarrow> string \<Rightarrow> IdempotencyRecord" where
  "idempotencyRow svc se r input requestHash = \<lparr>idKeyHash = hashKey (ciIdempotencyKey input),
     idCanonicalRequestHash = requestHash, idEvaluationID = evID r,
     idExpiresAt = time_Add (seNowIdempotency se) (cfgIdempotencyRetention (svcConfig svc)),
     idCreatedAt = seNowIdempotency se\<rparr>"

text \<open>The body of the transaction: the new database, or the error that rolls it back.\<close>

definition persistTx ::
  "Service \<Rightarrow> Session \<Rightarrow> DB \<Rightarrow> EvaluationRow \<Rightarrow> CreateInput \<Rightarrow> string \<Rightarrow> sentinel + DB" where
  "persistTx svc se db r input requestHash =
     (if seFails se InsertEvaluation then Inl dbError
      else case insertRow evID (storeEvaluation se r) (dbEvaluations db) of
        None \<Rightarrow> Inl dbError
      | Some evs \<Rightarrow>
          let db1 = db\<lparr>dbEvaluations := evs\<rparr> in
          if ciIdempotencyKey input = [] then Inr db1
          else if seFails se InsertIdempotency then Inl dbError
          else case insertRow idKeyHash (storeIdempotency se (idempotencyRow svc se r input requestHash))
              (dbIdempotency db1) of
            None \<Rightarrow> Inl dbError
          | Some ids \<Rightarrow> Inr (db1\<lparr>dbIdempotency := ids\<rparr>))"

definition persist ::
  "Service \<Rightarrow> Session \<Rightarrow> World \<Rightarrow> EvaluationRow \<Rightarrow> CreateInput \<Rightarrow> string \<Rightarrow> World \<times> (sentinel + EvaluationRow)" where
  "persist svc se w r input requestHash =
     (case sealInput svc se input of
        Inl e \<Rightarrow> (w, Inl e)
      | Inr sealed \<Rightarrow>
          let r' = r\<lparr>evEncryptedInput := sealed\<rparr> in
          case persistTx svc se (wDB w) r' input requestHash of
            Inl e \<Rightarrow> (w, Inl e)
          | Inr db' \<Rightarrow> if seFails se CommitEvaluation then (w, Inl dbError) else (w\<lparr>wDB := db'\<rparr>, Inr r'))"

definition observeCompleted :: "Service \<Rightarrow> World \<Rightarrow> EvaluationRow \<Rightarrow> string \<Rightarrow> World" where
  "observeCompleted svc w r pk =
     emit svc [ObserveEvaluation pk
       (if evOutcome r = [] then evStatus r else evOutcome r)
       (if evExecutionPath r = [] then EvaluationStatusProviderFailed else evExecutionPath r)
       (evTotalDurationMS r)] w"

section \<open>Create\<close>

text \<open>
  \<open>Create\<close> in two halves, split where concurrent requests interleave: everything up to and
  including the decision, and the transaction that records it.
\<close>

record pending =
  pdRecord :: EvaluationRow
  pdKind :: string
  pdInput :: CreateInput
  pdHash :: string

definition createBegin ::
  "Service \<Rightarrow> Session \<Rightarrow> World \<Rightarrow> CreateInput \<Rightarrow> World \<times> ((sentinel + apiEvaluation) + pending)" where
  "createBegin svc se w input =
     (case resolvePolicy svc input of
        Inl e \<Rightarrow> (w, Inl (Inl e))
      | Inr (compiled, pk) \<Rightarrow>
        (case validateRequestShape (svcConfig svc) input of
           Inl e \<Rightarrow> (w, Inl (Inl e))
         | Inr _ \<Rightarrow>
           (case canonicalRequestHash (cHash compiled) input of
              Inl e \<Rightarrow> (w, Inl (Inl e))
            | Inr requestHash \<Rightarrow>
              (case replay se (wDB w) input requestHash of
                 Inl e \<Rightarrow> (w, Inl (Inl e))
               | Inr (Some replayed) \<Rightarrow> (w, Inl (Inr replayed))
               | Inr None \<Rightarrow>
                 (case ensureSnapshot se (wDB w) compiled of
                    Inl e \<Rightarrow> (w, Inl (Inl e))
                  | Inr db \<Rightarrow>
                    (case decide svc se (w\<lparr>wDB := db\<rparr>) compiled pk input of
                       (w', Inl e) \<Rightarrow> (w', Inl (Inl e))
                     | (w', Inr r) \<Rightarrow> (w', Inr \<lparr>pdRecord = r, pdKind = pk, pdInput = input,
                         pdHash = requestHash\<rparr>)))))))"

definition createCommit ::
  "Service \<Rightarrow> Session \<Rightarrow> World \<Rightarrow> pending \<Rightarrow> World \<times> (sentinel + apiEvaluation)" where
  "createCommit svc se w p =
     (case persist svc se w (pdRecord p) (pdInput p) (pdHash p) of
        (w', Inl e) \<Rightarrow> (w', Inl e)
      | (w', Inr r) \<Rightarrow> (observeCompleted svc w' r (pdKind p), Inr (evaluationModelToAPI se r)))"

definition Create :: "Service \<Rightarrow> Session \<Rightarrow> World \<Rightarrow> CreateInput \<Rightarrow> World \<times> (sentinel + apiEvaluation)" where
  "Create svc se w input =
     (case createBegin svc se w input of
        (w', Inl result) \<Rightarrow> (w', result)
      | (w', Inr p) \<Rightarrow> createCommit svc se w' p)"

section \<open>Feedback\<close>

definition MaxFeedbackNoteLength :: int where "MaxFeedbackNoteLength = 2000"

record FeedbackInput =
  fiEvaluationID :: uuid
  fiExpectedOutcome :: string
  fiNote :: string

record apiFeedback =
  afId :: uuid
  afEvaluationId :: uuid
  afExpectedOutcome :: string
  afCreatedAt :: instant
  afNote :: "string option"

definition feedbackModelToAPI :: "EvaluationFeedback \<Rightarrow> apiFeedback" where
  "feedbackModelToAPI r = \<lparr>afId = fbID r, afEvaluationId = fbEvaluationID r,
     afExpectedOutcome = fbExpectedOutcome r, afCreatedAt = fbCreatedAt r,
     afNote = optionalString (fbNote r)\<rparr>"

definition validateFeedback :: "FeedbackInput \<Rightarrow> sentinel + unit" where
  "validateFeedback input =
     (if \<not> Outcome_IsValid (fiExpectedOutcome input) then Inl ErrValidationFailed
      else require (int (length (fiNote input)) \<le> MaxFeedbackNoteLength) ErrValidationFailed)"

definition validateExpectedOutcome :: "Service \<Rightarrow> EvaluationRow \<Rightarrow> FeedbackInput \<Rightarrow> sentinel + unit" where
  "validateExpectedOutcome svc evaluation input =
     (case Service_Compiled (svcPolicies svc)
         \<lparr>refName = evPolicyName evaluation, refVersion = evPolicyVersion evaluation\<rparr> of
        Inl _ \<Rightarrow> Inr ()
      | Inr compiled \<Rightarrow> require (fiExpectedOutcome input \<in> set (cOutcomes compiled)) ErrValidationFailed)"

text \<open>
  \<open>SubmitFeedback\<close> in two halves as well: the checks with the lookup, and the insert of the
  row they produce.
\<close>

definition feedbackBegin :: "Service \<Rightarrow> Session \<Rightarrow> DB \<Rightarrow> FeedbackInput \<Rightarrow> sentinel + EvaluationFeedback" where
  "feedbackBegin svc se db input =
     rbind (validateFeedback input) (\<lambda>_.
     rbind (findEvaluation se db (fiEvaluationID input)) (\<lambda>evaluation.
     rbind (validateExpectedOutcome svc evaluation input) (\<lambda>_.
       Inr \<lparr>fbID = seNewID se, fbEvaluationID = evID evaluation,
         fbExpectedOutcome = fiExpectedOutcome input, fbNote = fiNote input,
         fbCreatedAt = seNowFeedback se\<rparr>)))"

definition feedbackCommit :: "Session \<Rightarrow> World \<Rightarrow> EvaluationFeedback \<Rightarrow> World \<times> (sentinel + apiFeedback)" where
  "feedbackCommit se w r =
     (if seFails se InsertFeedback then (w, Inl dbError)
      else case insertRow fbID (storeFeedback se r) (dbFeedback (wDB w)) of
        None \<Rightarrow> (w, Inl dbError)
      | Some rows \<Rightarrow> (w\<lparr>wDB := (wDB w)\<lparr>dbFeedback := rows\<rparr>\<rparr>, Inr (feedbackModelToAPI r)))"

definition SubmitFeedback ::
  "Service \<Rightarrow> Session \<Rightarrow> World \<Rightarrow> FeedbackInput \<Rightarrow> World \<times> (sentinel + apiFeedback)" where
  "SubmitFeedback svc se w input =
     (case feedbackBegin svc se (wDB w) input of
        Inl e \<Rightarrow> (w, Inl e)
      | Inr r \<Rightarrow> feedbackCommit se w r)"

end
