(* ===== verification/EvaluationFacts.thy ===== *)
theory EvaluationFacts
  imports Evaluations
begin

text \<open>
  What the evaluation pipeline guarantees. The relation \<open>decided\<close> lists the four ways an
  evaluation ends in a row (a pre-rule, a failed provider, an off-contract answer, an answered
  evaluation); \<open>decide\<close> is shown to follow it, and the properties of rows, of provider calls
  and of the observer's gauge are read off its rules. The lemmas on \<open>Create\<close>, \<open>replay\<close>,
  \<open>SubmitFeedback\<close> and \<open>Evaluation_List\<close> say what each leaves in the tables and what it
  returns.
\<close>

section \<open>The ways an evaluation is decided\<close>

inductive decided ::
  "Service \<Rightarrow> Session \<Rightarrow> Compiled \<Rightarrow> string \<Rightarrow> CreateInput \<Rightarrow> Request list \<Rightarrow> EvaluationRow \<Rightarrow> bool"
  for svc se compiled pk input where
  PreRule:
    "EvaluatePreRules compiled (entries (ciFacts input)) = Some (res, True) \<Longrightarrow>
     decided svc se compiled pk input [] (completeRecord se (newRecord se compiled pk input) res)"
| ProviderFailed:
    "EvaluatePreRules compiled (entries (ciFacts input)) = Some (res, False) \<Longrightarrow>
     svcProvider svc (buildProviderRequest compiled input) = Inl e \<Longrightarrow> ErrCanceled \<notin> set e \<Longrightarrow>
     decided svc se compiled pk input [buildProviderRequest compiled input]
       ((newRecord se compiled pk input)\<lparr>evStatus := EvaluationStatusProviderFailed,
         evFailureCode := classifyProviderFailure e, evTotalDurationMS := elapsedMS se\<rparr>)"
| OffContract:
    "EvaluatePreRules compiled (entries (ciFacts input)) = Some (res, False) \<Longrightarrow>
     svcProvider svc (buildProviderRequest compiled input) = Inr response \<Longrightarrow>
     ValidateAnswers compiled (rsAnswers response) = Inl e \<Longrightarrow>
     decided svc se compiled pk input [buildProviderRequest compiled input]
       (recordProtocolFailure se (applyUsage (newRecord se compiled pk input) response))"
| Answered:
    "EvaluatePreRules compiled (entries (ciFacts input)) = Some (res, False) \<Longrightarrow>
     svcProvider svc (buildProviderRequest compiled input) = Inr response \<Longrightarrow>
     ValidateAnswers compiled (rsAnswers response) = Inr u \<Longrightarrow>
     encodeAnswers (rsAnswers response) = Inr text \<Longrightarrow>
     EvaluateDecisionRules compiled (entries (ciFacts input)) (rsAnswers response) = Some result \<Longrightarrow>
     decided svc se compiled pk input [buildProviderRequest compiled input]
       (completeRecord se ((applyUsage (newRecord se compiled pk input) response)\<lparr>evAnswersJSON := text\<rparr>)
          result)"

definition gauge :: "event list \<Rightarrow> int" where
  "gauge es = sum_list (map (\<lambda>e. case e of ProviderCallStarted \<Rightarrow> 1 | ProviderCallFinished \<Rightarrow> - 1 | _ \<Rightarrow> 0) es)"

lemma gauge_simps [simp]:
  "gauge [] = 0" "gauge (xs @ ys) = gauge xs + gauge ys"
  "gauge (ProviderCallStarted # es) = 1 + gauge es"
  "gauge (ProviderCallFinished # es) = gauge es - 1"
  "gauge (ObserveProviderCall n # es) = gauge es"
  "gauge (ObserveTokens m i j # es) = gauge es"
  "gauge (ObserveEvaluation a b c d # es) = gauge es"
  by (simp_all add: gauge_def)

lemma emit_frame [simp]:
  "wDB (emit svc es w) = wDB w" "wCalls (emit svc es w) = wCalls w"
  "wEvents (emit svc es w) = wEvents w @ (if svcObserved svc then es else [])"
  by (simp_all add: emit_def)

lemma askProvider_result:
  "\<exists>es. gauge es = 0 \<and> askProvider svc w r compiled input =
     (w\<lparr>wCalls := wCalls w @ [buildProviderRequest compiled input], wEvents := wEvents w @ es\<rparr>,
      case svcProvider svc (buildProviderRequest compiled input) of
        Inl e \<Rightarrow> Inl e | Inr response \<Rightarrow> Inr (applyUsage r response, response))"
proof (rule exI [of _ "if svcObserved svc then [ProviderCallStarted] @
    (case svcProvider svc (buildProviderRequest compiled input) of
       Inl e \<Rightarrow> []
     | Inr response \<Rightarrow> [ObserveProviderCall (AttemptCount response), ObserveTokens (rsModel response)
         (usInputTokens (rsUsage response)) (usOutputTokens (rsUsage response))]) @ [ProviderCallFinished]
    else []"])
qed (auto simp: askProvider_def Let_def emit_def split: sum.split)

lemma decide_frame:
  assumes "decide svc se w compiled pk input = (w', result)"
  shows "wDB w' = wDB w"
    and "wCalls w' \<in> {wCalls w, wCalls w @ [buildProviderRequest compiled input]}"
    and "gauge (wEvents w') = gauge (wEvents w)"
proof -
  define r where "r = newRecord se compiled pk input"
  obtain es where "gauge es = 0" and "askProvider svc w r compiled input =
     (w\<lparr>wCalls := wCalls w @ [buildProviderRequest compiled input], wEvents := wEvents w @ es\<rparr>,
      case svcProvider svc (buildProviderRequest compiled input) of
        Inl e \<Rightarrow> Inl e | Inr response \<Rightarrow> Inr (applyUsage r response, response))"
    using askProvider_result by blast
  with assms show "wDB w' = wDB w"
    and "wCalls w' \<in> {wCalls w, wCalls w @ [buildProviderRequest compiled input]}"
    and "gauge (wEvents w') = gauge (wEvents w)"
    by (auto simp: decide_def r_def Let_def split: sum.splits option.splits)
qed

lemma decide_decided:
  assumes "decide svc se w compiled pk input = (w', Inr r)"
  shows "ValidateFacts compiled (entries (ciFacts input)) = Inr ()"
    and "\<exists>calls. decided svc se compiled pk input calls r \<and> wCalls w' = wCalls w @ calls"
proof -
  define r0 where "r0 = newRecord se compiled pk input"
  from assms show "ValidateFacts compiled (entries (ciFacts input)) = Inr ()"
    by (auto simp: decide_def Let_def split: sum.splits)
  obtain es where ask: "askProvider svc w r0 compiled input =
     (w\<lparr>wCalls := wCalls w @ [buildProviderRequest compiled input], wEvents := wEvents w @ es\<rparr>,
      case svcProvider svc (buildProviderRequest compiled input) of
        Inl e \<Rightarrow> Inl e | Inr response \<Rightarrow> Inr (applyUsage r0 response, response))"
    using askProvider_result by blast
  show "\<exists>calls. decided svc se compiled pk input calls r \<and> wCalls w' = wCalls w @ calls"
  proof (cases "applyPreRules se r0 compiled input")
    case None
    with assms show ?thesis by (auto simp: decide_def r0_def Let_def split: sum.splits)
  next
    case (Some found)
    show ?thesis
    proof (cases found)
      case (Some row)
      with \<open>applyPreRules se r0 compiled input = Some found\<close> assms
      show ?thesis
        by (auto simp: decide_def applyPreRules_def r0_def Let_def split: sum.splits option.splits if_splits
            intro: decided.PreRule)
    next
      case None
      with Some obtain res where pre: "EvaluatePreRules compiled (entries (ciFacts input)) = Some (res, False)"
        by (auto simp: applyPreRules_def split: option.splits if_splits)
      show ?thesis
      proof (cases "svcProvider svc (buildProviderRequest compiled input)")
        case (Inl e)
        with Some None assms ask show ?thesis
          by (auto simp: decide_def recordProviderFailure_def r0_def Let_def split: sum.splits if_splits
              intro: decided.ProviderFailed [OF pre Inl])
      next
        case (Inr response)
        with Some None assms ask show ?thesis
          by (auto simp: decide_def scoreAnswers_def r0_def Let_def rbind_Inr_iff
              split: sum.splits option.splits
              intro: decided.OffContract [OF pre Inr] decided.Answered [OF pre Inr])
      qed
    qed
  qed
qed

section \<open>The recorded row\<close>

definition failure_codes :: "string set" where
  "failure_codes = {FailureCodeProviderAuth, FailureCodeProviderRateLimited,
     FailureCodeProviderUnavailable, FailureCodeProviderTimeout, FailureCodeProviderProtocol,
     FailureCodeProviderRejected}"

text \<open>
  A completed row names a declared outcome and how it was reached; a failed one names the
  failure and carries no outcome, rule or answer. A row settled by a pre-rule cost nothing.
\<close>

definition completed_row :: "Compiled \<Rightarrow> EvaluationRow \<Rightarrow> bool" where
  "completed_row p r \<longleftrightarrow> evStatus r = EvaluationStatusCompleted \<and> evFailureCode r = [] \<and>
     evOutcome r \<in> set (cOutcomes p) \<and>
     (evExecutionPath r = ExecutionPathPreRule \<and> evMatchedRuleID r \<in> crID ` set (cPreRules p) \<and>
        evAnswersJSON r = [] \<and> evProviderAttempts r = 0 \<and> evInputTokens r = 0 \<and> evOutputTokens r = 0 \<or>
      evExecutionPath r = ExecutionPathDecisionRule \<and> evMatchedRuleID r \<in> crID ` set (cDecisionRules p) \<or>
      evExecutionPath r = ExecutionPathDefault \<and> evMatchedRuleID r = [] \<and> evOutcome r = cDefaultOutcome p)"

definition failed_row :: "EvaluationRow \<Rightarrow> bool" where
  "failed_row r \<longleftrightarrow> evStatus r = EvaluationStatusProviderFailed \<and> evFailureCode r \<in> failure_codes \<and>
     evOutcome r = [] \<and> evMatchedRuleID r = [] \<and> evExecutionPath r = [] \<and> evAnswersJSON r = []"

definition row_of :: "Compiled \<Rightarrow> EvaluationRow \<Rightarrow> bool" where
  "row_of p r \<longleftrightarrow> evPolicySnapshotHash r = cHash p \<and> evPolicyName r = refName (cRef p) \<and>
     evPolicyVersion r = refVersion (cRef p) \<and> evRequestedModel r = cModel p \<and>
     (completed_row p r \<or> failed_row r)"

lemma classifyProviderFailure_code: "classifyProviderFailure e \<in> failure_codes"
  by (simp add: classifyProviderFailure_def failure_codes_def)

lemma pre_rule_matched:
  assumes "wf_compiled p" and "EvaluatePreRules p facts = Some (res, True)"
  shows "resMatchedRuleID res \<in> crID ` set (cPreRules p)"
  using assms(2) by (auto simp: EvaluatePreRules_find [OF assms(1)] preResult_def find_Some_iff
      split: option.splits)

lemma decision_rule_matched:
  assumes "wf_compiled p" and "EvaluateDecisionRules p facts answers = Some res"
  shows "resPath res = ExecutionPathDecisionRule \<and> resMatchedRuleID res \<in> crID ` set (cDecisionRules p) \<or>
    resPath res = ExecutionPathDefault \<and> resMatchedRuleID res = [] \<and> resOutcome res = cDefaultOutcome p"
  using assms(2) by (auto simp: EvaluateDecisionRules_find [OF assms(1)] decisionResult_def
      defaultResult_def find_Some_iff split: option.splits)

lemmas row_defs = row_of_def completed_row_def failed_row_def newRecord_def completeRecord_def
  applyResult_def applyUsage_def recordProtocolFailure_def

lemma decided_row_of:
  assumes "decided svc se compiled pk input calls r" and "wf_compiled compiled"
  shows "row_of compiled r"
  using assms(1)
proof cases
  case (PreRule res)
  with assms(2) show ?thesis
    by (simp add: row_defs pre_outcome_declared pre_rule_matched)
next
  case (ProviderFailed res e)
  then show ?thesis by (simp add: row_defs classifyProviderFailure_code)
next
  case (OffContract res response e)
  then show ?thesis by (simp add: row_defs failure_codes_def)
next
  case (Answered res response u encoded result)
  then show ?thesis
    using decision_outcome_declared(1) [OF assms(2)] decision_rule_matched [OF assms(2)]
    by (simp add: row_defs)
qed

lemma decided_origin:
  assumes "decided svc se compiled pk input calls r"
  shows "evID r = seNewID se" and "evPolicyKind r = pk" and "evEncryptedInput r = None"
    and "evPolicySnapshotHash r = cHash compiled" and "evCreatedAt r = seNowStart se"
    and "evRequestID r = ciRequestID input"
  using assms by (cases; simp add: row_defs)+

text \<open>The provider is asked exactly when no pre-rule matched.\<close>

lemma decided_calls:
  assumes "decided svc se compiled pk input calls r" and "wf_compiled compiled"
  shows "calls = (if List.find (\<lambda>x. rule_holds x (entries (ciFacts input)) []) (cPreRules compiled) = None
    then [buildProviderRequest compiled input] else [])"
  using assms(1) by cases (auto simp: EvaluatePreRules_find [OF assms(2)] split: option.splits)

lemma decided_path:
  assumes "decided svc se compiled pk input calls r" and "wf_compiled compiled"
  shows "calls = [] \<longleftrightarrow> evExecutionPath r = ExecutionPathPreRule"
  using assms(1)
  by cases (auto simp: row_defs ExecutionPathPreRule_def ExecutionPathDecisionRule_def ExecutionPathDefault_def
      dest!: decision_rule_matched [OF assms(2)] pre_outcome_declared(3) [OF assms(2)])

lemma decide_error:
  assumes "decide svc se w compiled pk input = (w', Inl e)" and "wf_compiled compiled"
  shows "e \<in> {ErrValidationFailed, ErrCanceled, ErrMarshalFailed}"
proof -
  have marshal: "encodeAnswers a = Inl e' \<Longrightarrow> e' = ErrMarshalFailed" for a e'
    by (auto simp: encodeAnswers_def split: option.splits)
  from assms(1) show ?thesis
    by (auto simp: decide_def applyPreRules_def scoreAnswers_def recordProviderFailure_def Let_def
        EvaluatePreRules_find [OF assms(2)] EvaluateDecisionRules_find [OF assms(2)] rbind_Inl_iff
        split: sum.splits option.splits prod.splits if_splits dest: ValidateFacts_error marshal)
qed

section \<open>Rows in memory and in the table\<close>

text \<open>The row in the table is the row in memory but for its instants.\<close>

lemma storeEvaluation_simps [simp]:
  "evID (storeEvaluation se r) = evID r" "evPolicySnapshotHash (storeEvaluation se r) = evPolicySnapshotHash r"
  "evPolicyName (storeEvaluation se r) = evPolicyName r"
  "evPolicyVersion (storeEvaluation se r) = evPolicyVersion r"
  "evPolicyKind (storeEvaluation se r) = evPolicyKind r" "evStatus (storeEvaluation se r) = evStatus r"
  "evOutcome (storeEvaluation se r) = evOutcome r" "evMatchedRuleID (storeEvaluation se r) = evMatchedRuleID r"
  "evExecutionPath (storeEvaluation se r) = evExecutionPath r"
  "evRequestedModel (storeEvaluation se r) = evRequestedModel r"
  "evResolvedModel (storeEvaluation se r) = evResolvedModel r"
  "evAnswersJSON (storeEvaluation se r) = evAnswersJSON r"
  "evInputTokens (storeEvaluation se r) = evInputTokens r"
  "evOutputTokens (storeEvaluation se r) = evOutputTokens r"
  "evProviderAttempts (storeEvaluation se r) = evProviderAttempts r"
  "evProviderDurationMS (storeEvaluation se r) = evProviderDurationMS r"
  "evTotalDurationMS (storeEvaluation se r) = evTotalDurationMS r"
  "evRequestID (storeEvaluation se r) = evRequestID r"
  "evMetadataJSON (storeEvaluation se r) = evMetadataJSON r"
  "evEncryptedInput (storeEvaluation se r) = evEncryptedInput r"
  "evFailureCode (storeEvaluation se r) = evFailureCode r"
  "evCreatedAt (storeEvaluation se r) = storedInstant (seDriver se) (evCreatedAt r)"
  by (simp_all add: storeEvaluation_def)

lemma storeSnapshot_simps [simp]:
  "psHash (storeSnapshot se r) = psHash r" "psName (storeSnapshot se r) = psName r"
  "psVersion (storeSnapshot se r) = psVersion r" "psCanonicalJSON (storeSnapshot se r) = psCanonicalJSON r"
  by (simp_all add: storeSnapshot_def)

lemma storeIdempotency_simps [simp]:
  "idKeyHash (storeIdempotency se r) = idKeyHash r"
  "idCanonicalRequestHash (storeIdempotency se r) = idCanonicalRequestHash r"
  "idEvaluationID (storeIdempotency se r) = idEvaluationID r"
  by (simp_all add: storeIdempotency_def)

lemma storeFeedback_simps [simp]:
  "fbID (storeFeedback se r) = fbID r" "fbEvaluationID (storeFeedback se r) = fbEvaluationID r"
  "fbExpectedOutcome (storeFeedback se r) = fbExpectedOutcome r" "fbNote (storeFeedback se r) = fbNote r"
  by (simp_all add: storeFeedback_def)

lemma storeFeedback_exact: "seDriver se \<noteq> DriverPostgres \<Longrightarrow> storeFeedback se r = r"
  by (simp add: storeFeedback_def storedInstant_exact)

lemma row_of_stored [simp]: "row_of p (storeEvaluation se r) = row_of p r"
  by (simp add: row_of_def completed_row_def failed_row_def)

lemma storeEvaluation_exact: "seDriver se \<noteq> DriverPostgres \<Longrightarrow> storeEvaluation se r = r"
  by (simp add: storeEvaluation_def storedInstant_exact)

text \<open>The response made from the stored row differs from the one made in memory in its instant only.\<close>

definition as_stored :: "Session \<Rightarrow> apiEvaluation \<Rightarrow> apiEvaluation" where
  "as_stored se a = a\<lparr>aeCreatedAt := storedInstant (seDriver se) (aeCreatedAt a)\<rparr>"

lemma stored_api: "evaluationModelToAPI se (storeEvaluation se r) = as_stored se (evaluationModelToAPI se r)"
  by (simp add: evaluationModelToAPI_def as_stored_def storeEvaluation_def)

lemma as_stored_exact: "seDriver se \<noteq> DriverPostgres \<Longrightarrow> as_stored se a = a"
  by (simp add: as_stored_def storedInstant_exact)

section \<open>Creating an evaluation\<close>

text \<open>A service over policies the compiler produced, with a decoder that keeps keys distinct.\<close>

definition service_ok :: "Service \<Rightarrow> bool" where
  "service_ok svc \<longleftrightarrow> (\<exists>ps. serves (svcPolicies svc) ps) \<and> yaml_ok (svcYaml svc)"

lemma resolvePolicy_authentic:
  assumes "service_ok svc" and "resolvePolicy svc input = Inr (c, pk)"
  shows "authentic c" and "pk = (if ciPolicyRef input = None then PolicyKindInline else PolicyKindNamed)"
    and "(ciPolicyRef input = None) = (ciInlinePolicy input \<noteq> [])"
    and "ciPolicyRef input = Some r \<Longrightarrow> cRef c = r"
    and "ciPolicyRef input = None \<Longrightarrow> cfgAllowInlinePolicies (svcConfig svc)"
proof -
  from assms(1) obtain ps where ps: "serves (svcPolicies svc) ps" and yaml: "yaml_ok (svcYaml svc)"
    by (auto simp: service_ok_def)
  have named: "Service_Compiled (svcPolicies svc) r = Inr x \<Longrightarrow> authentic x \<and> cRef x = r" for r x
    by (rule Service_Compiled_authentic [OF ps])
  from assms(2) show "authentic c"
    by (auto simp: resolvePolicy_def Let_def compileInline_def rbind_Inr_iff
        split: if_splits option.splits dest: named CompileBytes_Inr(1) [OF _ yaml])
  from assms(2) show "pk = (if ciPolicyRef input = None then PolicyKindInline else PolicyKindNamed)"
    and "(ciPolicyRef input = None) = (ciInlinePolicy input \<noteq> [])"
    and "ciPolicyRef input = None \<Longrightarrow> cfgAllowInlinePolicies (svcConfig svc)"
    by (auto simp: resolvePolicy_def Let_def rbind_Inr_iff split: if_splits option.splits)
  from assms(2) show "ciPolicyRef input = Some r \<Longrightarrow> cRef c = r"
    by (auto simp: resolvePolicy_def Let_def rbind_Inr_iff split: if_splits dest: named)
qed

text \<open>The only table the first half of \<open>Create\<close> writes is that of the snapshots.\<close>

definition snapshots_added :: "DB \<Rightarrow> DB \<Rightarrow> bool" where
  "snapshots_added db db' \<longleftrightarrow> db' = db\<lparr>dbSnapshots := dbSnapshots db'\<rparr> \<and>
     set (dbSnapshots db) \<subseteq> set (dbSnapshots db')"

lemma snapshots_added_simps:
  assumes "snapshots_added db db'"
  shows "dbEvaluations db' = dbEvaluations db" "dbIdempotency db' = dbIdempotency db"
    "dbFeedback db' = dbFeedback db"
  using assms by (auto simp: snapshots_added_def dest: arg_cong [of _ _ dbEvaluations]
      arg_cong [of _ _ dbIdempotency] arg_cong [of _ _ dbFeedback])

lemma snapshots_added_refl [simp]: "snapshots_added db db"
  by (simp add: snapshots_added_def)

lemma ensureSnapshot_Inr:
  assumes "ensureSnapshot se db c = Inr db'"
  shows "db' = db\<lparr>dbSnapshots := insertIgnore psHash (storeSnapshot se (snapshotOf se c)) (dbSnapshots db)\<rparr>"
    and "snapshots_added db db'"
  using assms by (auto simp: ensureSnapshot_def snapshots_added_def split: if_splits
      dest: subsetD [OF snapshots.ignore_keeps])

lemma createBegin_pending:
  assumes "createBegin svc se w input = (w', Inr p)"
  obtains compiled calls where "resolvePolicy svc input = Inr (compiled, pdKind p)" and "pdInput p = input"
    and "validateRequestShape (svcConfig svc) input = Inr ()"
    and "canonicalRequestHash (cHash compiled) input = Inr (pdHash p)"
    and "replay se (wDB w) input (pdHash p) = Inr None"
    and "ValidateFacts compiled (entries (ciFacts input)) = Inr ()"
    and "decided svc se compiled (pdKind p) input calls (pdRecord p)" and "wCalls w' = wCalls w @ calls"
    and "ensureSnapshot se (wDB w) compiled = Inr (wDB w')"
    and "gauge (wEvents w') = gauge (wEvents w)"
proof -
  from assms obtain compiled db where run: "resolvePolicy svc input = Inr (compiled, pdKind p)"
    "pdInput p = input" "validateRequestShape (svcConfig svc) input = Inr ()"
    "canonicalRequestHash (cHash compiled) input = Inr (pdHash p)"
    "replay se (wDB w) input (pdHash p) = Inr None"
    and db: "ensureSnapshot se (wDB w) compiled = Inr db"
    and decide: "decide svc se (w\<lparr>wDB := db\<rparr>) compiled (pdKind p) input = (w', Inr (pdRecord p))"
    by (auto simp: createBegin_def split: sum.splits option.splits prod.splits)
  obtain calls where "decided svc se compiled (pdKind p) input calls (pdRecord p)" "wCalls w' = wCalls w @ calls"
    using decide_decided(2) [OF decide] by auto
  with run db decide_decided(1) [OF decide] decide_frame(1, 3) [OF decide] show ?thesis
    by (intro that [of compiled calls]) simp_all
qed

lemma createBegin_settled:
  assumes "createBegin svc se w input = (w', Inl result)"
  shows "snapshots_added (wDB w) (wDB w')" and "gauge (wEvents w') = gauge (wEvents w)"
    and "result = Inr a \<Longrightarrow> w' = w \<and> (\<exists>compiled pk h. resolvePolicy svc input = Inr (compiled, pk) \<and>
      canonicalRequestHash (cHash compiled) input = Inr h \<and> replay se (wDB w) input h = Inr (Some a))"
proof -
  show "snapshots_added (wDB w) (wDB w')"
    using assms by (auto simp: createBegin_def split: sum.splits option.splits prod.splits
        dest!: decide_frame(1) ensureSnapshot_Inr(2))
  show "gauge (wEvents w') = gauge (wEvents w)"
    using assms by (auto simp: createBegin_def split: sum.splits option.splits prod.splits
        dest!: decide_frame(3))
  show "result = Inr a \<Longrightarrow> w' = w \<and> (\<exists>compiled pk h. resolvePolicy svc input = Inr (compiled, pk) \<and>
      canonicalRequestHash (cHash compiled) input = Inr h \<and> replay se (wDB w) input h = Inr (Some a))"
    using assms by (auto simp: createBegin_def split: sum.splits option.splits prod.splits)
qed

lemma persist_Inr:
  assumes "persist svc se w r input h = (w', Inr r')"
  shows "sealInput svc se input = Inr (evEncryptedInput r')" and "r' = r\<lparr>evEncryptedInput := evEncryptedInput r'\<rparr>"
    and "evID r \<notin> evID ` set (dbEvaluations (wDB w))"
    and "ciIdempotencyKey input \<noteq> [] \<Longrightarrow>
      hashKey (ciIdempotencyKey input) \<notin> idKeyHash ` set (dbIdempotency (wDB w))"
    and "w' = w\<lparr>wDB := (wDB w)\<lparr>dbEvaluations := dbEvaluations (wDB w) @ [storeEvaluation se r'],
      dbIdempotency := dbIdempotency (wDB w) @ (if ciIdempotencyKey input = [] then []
        else [storeIdempotency se (idempotencyRow svc se r' input h)])\<rparr>\<rparr>"
  using assms
  by (auto simp: persist_def persistTx_def insertRow_def Let_def idempotencyRow_def
      split: sum.splits if_splits option.splits)

lemma persist_Inl: "persist svc se w r input h = (w', Inl e) \<Longrightarrow> w' = w"
  by (auto simp: persist_def Let_def split: sum.splits if_splits)

text \<open>What one recorded evaluation adds to the tables.\<close>

definition recorded :: "Service \<Rightarrow> Session \<Rightarrow> DB \<Rightarrow> CreateInput \<Rightarrow> string \<Rightarrow> EvaluationRow \<Rightarrow> DB \<Rightarrow> bool" where
  "recorded svc se db input h r db' \<longleftrightarrow>
     evID r \<notin> evID ` set (dbEvaluations db) \<and> sealInput svc se input = Inr (evEncryptedInput r) \<and>
     (ciIdempotencyKey input \<noteq> [] \<longrightarrow>
        hashKey (ciIdempotencyKey input) \<notin> idKeyHash ` set (dbIdempotency db)) \<and>
     dbEvaluations db' = dbEvaluations db @ [storeEvaluation se r] \<and> dbFeedback db' = dbFeedback db \<and>
     dbIdempotency db' = dbIdempotency db @ (if ciIdempotencyKey input = [] then []
       else [storeIdempotency se (idempotencyRow svc se r input h)])"

lemma createCommit_Inr:
  assumes "createCommit svc se w p = (w', Inr a)"
  obtains r where "r = (pdRecord p)\<lparr>evEncryptedInput := evEncryptedInput r\<rparr>"
    and "recorded svc se (wDB w) (pdInput p) (pdHash p) r (wDB w')"
    and "dbSnapshots (wDB w') = dbSnapshots (wDB w)"
    and "a = evaluationModelToAPI se r" and "wCalls w' = wCalls w" and "gauge (wEvents w') = gauge (wEvents w)"
proof -
  from assms obtain w1 r where persist: "persist svc se w (pdRecord p) (pdInput p) (pdHash p) = (w1, Inr r)"
    and w': "w' = observeCompleted svc w1 r (pdKind p)" and a: "a = evaluationModelToAPI se r"
    by (auto simp: createCommit_def split: sum.splits prod.splits)
  note facts = persist_Inr [OF persist]
  have "recorded svc se (wDB w) (pdInput p) (pdHash p) r (wDB w')"
    using facts by (simp add: recorded_def w' observeCompleted_def) (metis EvaluationRow.select_convs(1)
        EvaluationRow.surjective EvaluationRow.update_convs(20))
  then show ?thesis
    using facts a by (intro that [of r]) (simp_all add: w' observeCompleted_def)
qed

lemma createCommit_Inl: "createCommit svc se w p = (w', Inl e) \<Longrightarrow> w' = w"
  by (auto simp: createCommit_def split: sum.splits prod.splits dest: persist_Inl)

lemma Create_error_frame:
  assumes "Create svc se w input = (w', Inl e)"
  shows "snapshots_added (wDB w) (wDB w')" and "gauge (wEvents w') = gauge (wEvents w)"
proof -
  from assms consider "createBegin svc se w input = (w', Inl (Inl e))"
    | p where "createBegin svc se w input = (w', Inr p)"
    by (auto simp: Create_def split: sum.splits prod.splits dest: createCommit_Inl)
  then show "snapshots_added (wDB w) (wDB w')" "gauge (wEvents w') = gauge (wEvents w)"
    by (cases; auto dest: createBegin_settled elim!: createBegin_pending ensureSnapshot_Inr(2))+
qed

lemma Create_success:
  assumes "Create svc se w input = (w', Inr a)"
  obtains (Replayed) compiled pk h where "w' = w" and "resolvePolicy svc input = Inr (compiled, pk)"
      and "canonicalRequestHash (cHash compiled) input = Inr h" and "replay se (wDB w) input h = Inr (Some a)"
  | (Recorded) compiled pk h calls r r0 where "resolvePolicy svc input = Inr (compiled, pk)"
      and "validateRequestShape (svcConfig svc) input = Inr ()"
      and "canonicalRequestHash (cHash compiled) input = Inr h" and "replay se (wDB w) input h = Inr None"
      and "ValidateFacts compiled (entries (ciFacts input)) = Inr ()"
      and "decided svc se compiled pk input calls r0" and "r = r0\<lparr>evEncryptedInput := evEncryptedInput r\<rparr>"
      and "wCalls w' = wCalls w @ calls" and "a = evaluationModelToAPI se r"
      and "recorded svc se (wDB w) input h r (wDB w')"
      and "dbSnapshots (wDB w') = insertIgnore psHash (storeSnapshot se (snapshotOf se compiled)) (dbSnapshots (wDB w))"
      and "gauge (wEvents w') = gauge (wEvents w)"
proof -
  from assms consider (settled) "createBegin svc se w input = (w', Inl (Inr a))"
    | (commit) w1 p where "createBegin svc se w input = (w1, Inr p)" "createCommit svc se w1 p = (w', Inr a)"
    by (auto simp: Create_def split: sum.splits prod.splits)
  then show ?thesis
  proof cases
    case settled
    then show ?thesis using createBegin_settled(3) [OF settled refl] by (auto intro: Replayed)
  next
    case commit
    obtain compiled calls where pending: "resolvePolicy svc input = Inr (compiled, pdKind p)" "pdInput p = input"
      "validateRequestShape (svcConfig svc) input = Inr ()"
      "canonicalRequestHash (cHash compiled) input = Inr (pdHash p)"
      "replay se (wDB w) input (pdHash p) = Inr None" "ValidateFacts compiled (entries (ciFacts input)) = Inr ()"
      "decided svc se compiled (pdKind p) input calls (pdRecord p)" "wCalls w1 = wCalls w @ calls"
      "ensureSnapshot se (wDB w) compiled = Inr (wDB w1)" "gauge (wEvents w1) = gauge (wEvents w)"
      by (rule createBegin_pending [OF commit(1)])
    obtain r where r: "r = (pdRecord p)\<lparr>evEncryptedInput := evEncryptedInput r\<rparr>"
      "recorded svc se (wDB w1) (pdInput p) (pdHash p) r (wDB w')" "dbSnapshots (wDB w') = dbSnapshots (wDB w1)"
      "a = evaluationModelToAPI se r" "wCalls w' = wCalls w1" "gauge (wEvents w') = gauge (wEvents w1)"
      by (rule createCommit_Inr [OF commit(2)])
    have db: "wDB w1 = (wDB w)\<lparr>dbSnapshots :=
        insertIgnore psHash (storeSnapshot se (snapshotOf se compiled)) (dbSnapshots (wDB w))\<rparr>"
      by (rule ensureSnapshot_Inr(1) [OF pending(9)])
    have "recorded svc se (wDB w) input (pdHash p) r (wDB w')"
      using r(2) by (simp add: recorded_def db pending(2))
    with pending r db show ?thesis
      by (intro Recorded [of compiled "pdKind p" "pdHash p" calls "pdRecord p" r]) simp_all
  qed
qed

section \<open>Reading back and replaying\<close>

lemma recorded_keys:
  assumes "db_keys db" and "recorded svc se db input h r db'" and "distinct (map psHash (dbSnapshots db'))"
  shows "db_keys db'"
  using assms by (auto simp: db_keys_def recorded_def idempotencyRow_def)

lemma Evaluation_Get_row:
  assumes "db_keys db" and "r \<in> set (dbEvaluations db)" and "\<not> seFails se FindEvaluation"
  shows "Evaluation_Get se db (evID r) = Inr (evaluationModelToAPI se r)"
proof -
  from assms(1, 2) have "findRow evID (evID r) (dbEvaluations db) = Some r"
    by (simp add: db_keys_def evaluations.find_iff)
  with assms(3) show ?thesis by (simp add: Evaluation_Get_def findEvaluation_def)
qed

lemma createBegin_keys:
  assumes "createBegin svc se w input = (w', result)" and "db_keys (wDB w)"
  shows "db_keys (wDB w')"
proof -
  from assms(1) have "wDB w' = wDB w \<or> (\<exists>c. ensureSnapshot se (wDB w) c = Inr (wDB w'))"
    by (auto simp: createBegin_def split: sum.splits option.splits prod.splits dest!: decide_frame(1))
  with assms(2) show ?thesis
    using snapshots.ignore_keyed [of "dbSnapshots (wDB w)"]
    by (auto simp: db_keys_def dest!: ensureSnapshot_Inr(1))
qed

lemma Create_keys:
  assumes "Create svc se w input = (w', result)" and "db_keys (wDB w)"
  shows "db_keys (wDB w')"
proof (cases "createBegin svc se w input")
  case (Pair w1 r)
  note keys = createBegin_keys [OF Pair assms(2)]
  show ?thesis
  proof (cases r)
    case (Inl x)
    with assms(1) Pair keys show ?thesis by (auto simp: Create_def)
  next
    case (Inr p)
    with assms(1) Pair have commit: "createCommit svc se w1 p = (w', result)" by (simp add: Create_def)
    show ?thesis
    proof (cases result)
      case (Inl e)
      with commit keys show ?thesis by (auto dest: createCommit_Inl)
    next
      case (Inr a)
      with commit obtain x where "recorded svc se (wDB w1) (pdInput p) (pdHash p) x (wDB w')"
        "dbSnapshots (wDB w') = dbSnapshots (wDB w1)" by (auto elim: createCommit_Inr)
      then show ?thesis using recorded_keys [OF keys] keys by (simp add: db_keys_def)
    qed
  qed
qed

lemma Create_records:
  assumes "Create svc se w input = (w', Inr a)" and "service_ok svc" and "db_keys (wDB w)" and "w' \<noteq> w"
  obtains compiled pk calls r where "resolvePolicy svc input = Inr (compiled, pk)" and "row_of compiled r"
    and "evID r = seNewID se" and "dbEvaluations (wDB w') = dbEvaluations (wDB w) @ [storeEvaluation se r]"
    and "cHash compiled \<in> psHash ` set (dbSnapshots (wDB w'))" and "a = evaluationModelToAPI se r"
    and "sealInput svc se input = Inr (evEncryptedInput r)" and "evPolicyKind r = pk"
    and "wCalls w' = wCalls w @ calls"
    and "calls = (if List.find (\<lambda>x. rule_holds x (entries (ciFacts input)) []) (cPreRules compiled) = None
      then [buildProviderRequest compiled input] else [])"
    and "calls = [] \<longleftrightarrow> evExecutionPath r = ExecutionPathPreRule"
  using assms(1)
proof (cases rule: Create_success)
  case (Replayed compiled pk h)
  with assms(4) show ?thesis by simp
next
  case (Recorded compiled pk h calls r r0)
  have wf: "wf_compiled compiled"
    using resolvePolicy_authentic(1) [OF assms(2) Recorded(1)] by (simp add: authentic_def)
  have row: "row_of compiled r0" "evID r0 = seNewID se" "evPolicyKind r0 = pk"
    using decided_row_of [OF Recorded(6) wf] decided_origin(1, 2) [OF Recorded(6)] by simp_all
  have path: "calls = [] \<longleftrightarrow> evExecutionPath r0 = ExecutionPathPreRule"
    by (rule decided_path [OF Recorded(6) wf])
  have snap: "distinct (map psHash (dbSnapshots (wDB w)))" using assms(3) by (simp add: db_keys_def)
  have "row_of compiled r \<and> evID r = seNewID se \<and> evPolicyKind r = pk \<and> evExecutionPath r = evExecutionPath r0"
    by (subst (1 2 3 4) Recorded(7)) (use row in \<open>simp add: row_of_def completed_row_def failed_row_def\<close>)
  with Recorded decided_calls [OF Recorded(6) wf] path snapshots.ignore_covers [OF snap, of "storeSnapshot se (snapshotOf se compiled)"]
  show ?thesis by (intro that [of compiled pk r calls]) (simp_all add: recorded_def snapshotOf_def)
qed

lemma replay_live:
  assumes "db_keys db" and "entry \<in> set (dbIdempotency db)"
    and "idKeyHash entry = hashKey (ciIdempotencyKey input)" and "ciIdempotencyKey input \<noteq> []"
    and "\<not> time_Before (idExpiresAt entry) (seNowReplay se)" and "\<not> seFails se FindIdempotency"
  shows "replay se db input h =
    (if idCanonicalRequestHash entry \<noteq> h then Inl ErrIdempotencyConflict
     else case Evaluation_Get se db (idEvaluationID entry) of
       Inl e \<Rightarrow> if e = ErrNotFound then Inr None else Inl e | Inr a \<Rightarrow> Inr (Some a))"
proof -
  from assms(1-3) have "findRow idKeyHash (hashKey (ciIdempotencyKey input)) (dbIdempotency db) = Some entry"
    by (simp add: db_keys_def idempotency.find_iff)
  with assms(4-) show ?thesis by (simp add: replay_def)
qed

lemma replay_Some:
  assumes "replay se db input h = Inr (Some a)" and "db_keys db"
  obtains entry r where "entry \<in> set (dbIdempotency db)" "idKeyHash entry = hashKey (ciIdempotencyKey input)"
    "ciIdempotencyKey input \<noteq> []" "idCanonicalRequestHash entry = h" "idEvaluationID entry = evID r"
    "r \<in> set (dbEvaluations db)" "a = evaluationModelToAPI se r"
proof -
  from assms(1) obtain entry r where
    find: "findRow idKeyHash (hashKey (ciIdempotencyKey input)) (dbIdempotency db) = Some entry"
    and "ciIdempotencyKey input \<noteq> []" "idCanonicalRequestHash entry = h"
    and row: "findRow evID (idEvaluationID entry) (dbEvaluations db) = Some r" "a = evaluationModelToAPI se r"
    by (auto simp: replay_def Evaluation_Get_def findEvaluation_def rbind_Inr_iff
        split: if_splits option.splits sum.splits)
  moreover from find assms(2) have "entry \<in> set (dbIdempotency db)"
    "idKeyHash entry = hashKey (ciIdempotencyKey input)"
    by (auto simp: db_keys_def idempotency.find_iff)
  moreover from row assms(2) have "r \<in> set (dbEvaluations db)" "idEvaluationID entry = evID r"
    by (auto simp: db_keys_def evaluations.find_iff)
  ultimately show ?thesis by (intro that [of entry r]) simp_all
qed

text \<open>
  After a successful keyed request, the tables hold its key and its row. The stored row reads as
  the response when the request was itself a replay, else as the response with its stored instant.
\<close>

lemma Create_remembers:
  assumes "Create svc se w input = (w', Inr a)" and "db_keys (wDB w)" and "ciIdempotencyKey input \<noteq> []"
  obtains entry r compiled pk h where "entry \<in> set (dbIdempotency (wDB w'))"
    "idKeyHash entry = hashKey (ciIdempotencyKey input)" "idCanonicalRequestHash entry = h"
    "idEvaluationID entry = evID r" "r \<in> set (dbEvaluations (wDB w'))"
    "evaluationModelToAPI se r = (if w' = w then a else as_stored se a)"
    "resolvePolicy svc input = Inr (compiled, pk)" "canonicalRequestHash (cHash compiled) input = Inr h"
  using assms(1)
proof (cases rule: Create_success)
  case (Replayed compiled pk h)
  obtain entry r where "entry \<in> set (dbIdempotency (wDB w))"
    "idKeyHash entry = hashKey (ciIdempotencyKey input)" "ciIdempotencyKey input \<noteq> []"
    "idCanonicalRequestHash entry = h" "idEvaluationID entry = evID r" "r \<in> set (dbEvaluations (wDB w))"
    "a = evaluationModelToAPI se r"
    by (rule replay_Some [OF Replayed(4) assms(2)])
  with Replayed show ?thesis by (intro that [of entry h r compiled pk]) simp_all
next
  case (Recorded compiled pk h calls r r0)
  have new: "w' \<noteq> w" using Recorded(10) by (auto simp: recorded_def)
  from Recorded assms(3) show ?thesis
    by (intro that [of "storeIdempotency se (idempotencyRow svc se r input h)" h "storeEvaluation se r" compiled pk])
      (simp_all add: recorded_def idempotencyRow_def new stored_api)
qed

lemma Create_shape:
  assumes "Create svc se w input = (w', Inr a)"
  shows "validateRequestShape (svcConfig svc) input = Inr ()"
  using assms by (auto simp: Create_def createBegin_def split: sum.splits option.splits prod.splits)

definition same_decoders :: "Session \<Rightarrow> Session \<Rightarrow> bool" where
  "same_decoders se se' \<longleftrightarrow> seAnswers se' = seAnswers se \<and> seMetadata se' = seMetadata se"

lemma same_decoders_api: "same_decoders se se' \<Longrightarrow> evaluationModelToAPI se' r = evaluationModelToAPI se r"
  by (simp add: same_decoders_def evaluationModelToAPI_def decodeAnswersJSON_def decodeMetadataJSON_def)

lemma request_id_irrelevant [simp]:
  "resolvePolicy svc (input\<lparr>ciRequestID := x\<rparr>) = resolvePolicy svc input"
  "validateRequestShape cfg (input\<lparr>ciRequestID := x\<rparr>) = validateRequestShape cfg input"
  "canonicalRequestHash p (input\<lparr>ciRequestID := x\<rparr>) = canonicalRequestHash p input"
  by (simp_all add: resolvePolicy_def validateRequestShape_def canonicalRequestHash_def canonicalRequest_def
      split: option.split)

lemma Create_replays:
  assumes "Create svc se w input = (w1, Inr a)" and "db_keys (wDB w)" and "ciIdempotencyKey input \<noteq> []"
    and later: "db_keys (wDB w2)" "set (dbEvaluations (wDB w1)) \<subseteq> set (dbEvaluations (wDB w2))"
      "set (dbIdempotency (wDB w1)) \<subseteq> set (dbIdempotency (wDB w2))"
    and live: "\<forall>entry \<in> set (dbIdempotency (wDB w2)). idKeyHash entry = hashKey (ciIdempotencyKey input) \<longrightarrow>
      \<not> time_Before (idExpiresAt entry) (seNowReplay se2)"
    and "\<not> seFails se2 FindIdempotency" "\<not> seFails se2 FindEvaluation" and "same_decoders se se2"
  shows "Create svc se2 w2 (input\<lparr>ciRequestID := x\<rparr>) = (w2, Inr (if w1 = w then a else as_stored se a))"
proof -
  define a' where "a' = (if w1 = w then a else as_stored se a)"
  obtain entry r compiled pk h where rec: "entry \<in> set (dbIdempotency (wDB w1))"
    "idKeyHash entry = hashKey (ciIdempotencyKey input)" "idCanonicalRequestHash entry = h"
    "idEvaluationID entry = evID r" "r \<in> set (dbEvaluations (wDB w1))" "evaluationModelToAPI se r = a'"
    and policy: "resolvePolicy svc input = Inr (compiled, pk)" "canonicalRequestHash (cHash compiled) input = Inr h"
    unfolding a'_def by (rule Create_remembers [OF assms(1-3)])
  have "Evaluation_Get se2 (wDB w2) (evID r) = Inr a'"
    using Evaluation_Get_row [of "wDB w2" r se2] rec later assms(9, 10) by (auto simp: same_decoders_api)
  with replay_live [of "wDB w2" entry "input\<lparr>ciRequestID := x\<rparr>" se2 h] rec later live assms(3, 8)
  have "replay se2 (wDB w2) (input\<lparr>ciRequestID := x\<rparr>) h = Inr (Some a')" by auto
  with policy Create_shape [OF assms(1)] show ?thesis unfolding a'_def by (simp add: Create_def createBegin_def)
qed

lemma Create_conflicts:
  assumes "db_keys (wDB w)" and "entry \<in> set (dbIdempotency (wDB w))"
    and "idKeyHash entry = hashKey (ciIdempotencyKey input)" and "ciIdempotencyKey input \<noteq> []"
    and "\<not> time_Before (idExpiresAt entry) (seNowReplay se)" and "\<not> seFails se FindIdempotency"
    and "resolvePolicy svc input = Inr (compiled, pk)" and "validateRequestShape (svcConfig svc) input = Inr ()"
    and "canonicalRequestHash (cHash compiled) input = Inr h" and "idCanonicalRequestHash entry \<noteq> h"
  shows "Create svc se w input = (w, Inl ErrIdempotencyConflict)"
  using assms replay_live [OF assms(1-6), of h] by (simp add: Create_def createBegin_def)

text \<open>
  A key whose entry has expired, or whose evaluation is gone, reads as unused but still blocks
  the insert: no request with that key succeeds while the entry is in the table.
\<close>

lemma Create_stale_key:
  assumes "db_keys (wDB w)" and "entry \<in> set (dbIdempotency (wDB w))"
    and "idKeyHash entry = hashKey (ciIdempotencyKey input)" and "ciIdempotencyKey input \<noteq> []"
    and stale: "time_Before (idExpiresAt entry) (seNowReplay se) \<or>
      idEvaluationID entry \<notin> evID ` set (dbEvaluations (wDB w))"
  shows "snd (Create svc se w input) \<noteq> Inr a"
proof
  assume "snd (Create svc se w input) = Inr a"
  then obtain w' where "Create svc se w input = (w', Inr a)" by (metis prod.collapse)
  then show False
  proof (cases rule: Create_success)
    case (Replayed compiled pk h)
    from assms(1-3) have "findRow idKeyHash (hashKey (ciIdempotencyKey input)) (dbIdempotency (wDB w)) = Some entry"
      by (simp add: db_keys_def idempotency.find_iff)
    with Replayed(4) assms(4) have "\<not> time_Before (idExpiresAt entry) (seNowReplay se)"
      and "\<exists>r. findRow evID (idEvaluationID entry) (dbEvaluations (wDB w)) = Some r"
      by (auto simp: replay_def Evaluation_Get_def findEvaluation_def rbind_Inr_iff
          split: if_splits option.splits sum.splits)
    with stale assms(1) show False by (auto simp: db_keys_def evaluations.find_iff) (metis image_eqI)
  next
    case (Recorded compiled pk h calls r r0)
    with assms(4) have "hashKey (ciIdempotencyKey input) \<notin> idKeyHash ` set (dbIdempotency (wDB w))"
      by (simp add: recorded_def)
    with assms(2, 3) show False by (metis image_eqI)
  qed
qed

section \<open>Order of the request's maps\<close>

lemma to_json_order: "same_gomap m m' \<Longrightarrow> to_json (VMap m) = to_json (VMap m')"
  by (simp add: same_gomap_sorted)

lemma json_strings_order: "same_gomap m m' \<Longrightarrow> json_strings (Some m) = json_strings (Some m')"
  by (simp add: json_strings_def encode_strings_def same_gomap_sorted)

lemma canonicalRequestHash_order:
  assumes "same_gomap facts facts'" and "same_gomap metadata metadata'"
  shows "canonicalRequestHash policyHash (input\<lparr>ciFacts := Some facts, ciMetadata := Some metadata\<rparr>) =
    canonicalRequestHash policyHash (input\<lparr>ciFacts := Some facts', ciMetadata := Some metadata'\<rparr>)"
proof -
  have "to_json_map (Some facts) = to_json_map (Some facts')"
    unfolding to_json_map_def using to_json_order [OF assms(1)] by simp
  then show ?thesis
    using json_strings_order [OF assms(2)]
    by (simp add: canonicalRequestHash_def canonicalRequest_def cong: option.case_cong)
qed

section \<open>Listing\<close>

lemma newest_first_sorted:
  "sorted_wrt (\<lambda>a b. (evCreatedAt b, evID b) \<le> (evCreatedAt a, evID a)) (newest_first rows)"
proof -
  define key where "key r = (evCreatedAt r, evID r)" for r :: EvaluationRow
  have "sorted_wrt (\<lambda>a b. key a \<le> key b) (sort_key key rows)"
    using sorted_sort_key [of key rows] by (simp add: sorted_map)
  then show ?thesis by (simp add: newest_first_def sorted_wrt_rev key_def [abs_def])
qed

lemma set_newest_first [simp]: "set (newest_first rows) = set rows"
  by (simp add: newest_first_def)

lemma length_newest_first [simp]: "length (newest_first rows) = length rows"
  by (simp add: newest_first_def)

lemma int64_add_small: "0 \<le> a \<Longrightarrow> 0 \<le> b \<Longrightarrow> a + b < 2 ^ 63 \<Longrightarrow> int64_add a b = a + b"
  by (simp add: int64_add_def)

lemma page_nonempty: "0 < n \<Longrightarrow> 0 < length (page n offset rows) \<longleftrightarrow> nat offset < length rows"
  by (simp add: page_def)

lemma Evaluation_List_Inr:
  assumes "Evaluation_List se db f = Inr l"
  shows "0 < lfLimit f" "0 \<le> lfOffset f" "elLimit l = lfLimit f" "elOffset l = lfOffset f"
    and "elItems l = map (evaluationModelToAPI se)
      (page (lfLimit f) (lfOffset f) (newest_first (filtered f (dbEvaluations db))))"
    and "lfOffset f + lfLimit f < 2 ^ 63 \<Longrightarrow>
      elHasMore l \<longleftrightarrow> lfOffset f + lfLimit f < int (length (filtered f (dbEvaluations db)))"
proof -
  from assms have l: "0 < lfLimit f" "0 \<le> lfOffset f" and
    shape: "l = \<lparr>elItems = map (evaluationModelToAPI se)
        (page (lfLimit f) (lfOffset f) (newest_first (filtered f (dbEvaluations db)))),
      elLimit = lfLimit f, elOffset = lfOffset f, elHasMore = (0 < length (page 1
        (int64_add (lfOffset f) (lfLimit f)) (newest_first (filtered f (dbEvaluations db)))))\<rparr>"
    by (auto simp: Evaluation_List_def Let_def split: if_splits)
  from l show "0 < lfLimit f" "0 \<le> lfOffset f" .
  from shape show "elLimit l = lfLimit f" "elOffset l = lfOffset f"
    "elItems l = map (evaluationModelToAPI se)
      (page (lfLimit f) (lfOffset f) (newest_first (filtered f (dbEvaluations db))))" by simp_all
  assume "lfOffset f + lfLimit f < 2 ^ 63"
  with l have "int64_add (lfOffset f) (lfLimit f) = lfOffset f + lfLimit f" by (simp add: int64_add_small)
  with shape l show "elHasMore l \<longleftrightarrow> lfOffset f + lfLimit f < int (length (filtered f (dbEvaluations db)))"
    by (simp add: page_nonempty del: length_greater_0_conv) linarith
qed

lemma pages_cover:
  assumes "0 < n"
  shows "concat (map (\<lambda>i. page n (int i * n) rows) [0..<k]) = take (k * nat n) rows"
proof (induction k)
  case (Suc k)
  have "nat (int k * n) = k * nat n" using assms by (simp add: nat_mult_distrib)
  with Suc show ?case by (simp add: page_def take_add [symmetric] add.commute)
qed simp

lemma int64_add_wraps: "0 \<le> a \<Longrightarrow> 0 \<le> b \<Longrightarrow> in_int64 a \<Longrightarrow> in_int64 b \<Longrightarrow> 2 ^ 63 \<le> a + b \<Longrightarrow> int64_add a b < 0"
proof -
  assume *: "0 \<le> a" "0 \<le> b" "in_int64 a" "in_int64 b" "2 ^ 63 \<le> a + b"
  define c where "c = a + b - 2 ^ 63"
  have c: "0 \<le> c" "c < 2 ^ 63" using * by (simp_all add: c_def in_int64_def minInt_def maxInt_def)
  have "(c + 2 ^ 64) mod 2 ^ 64 = c" using c by simp
  moreover have "a + b + 2 ^ 63 = c + 2 ^ 64" by (simp add: c_def)
  ultimately have "int64_add a b = c - 2 ^ 63" by (simp only: int64_add_def)
  then show ?thesis using c(2) by simp
qed

text \<open>
  Whether more rows follow: the sum of offset and limit wraps at 64 bits, and a negative offset is
  none at all, so past the end of the integers the probe finds the first row.
\<close>

lemma more_follows:
  assumes "Evaluation_List se db f = Inr l" and "in_int64 (lfLimit f)" and "in_int64 (lfOffset f)"
  shows "elHasMore l \<longleftrightarrow>
    (if lfOffset f + lfLimit f < 2 ^ 63 then lfOffset f + lfLimit f < int (length (filtered f (dbEvaluations db)))
     else filtered f (dbEvaluations db) \<noteq> [])"
proof (cases "lfOffset f + lfLimit f < 2 ^ 63")
  case True
  then show ?thesis using Evaluation_List_Inr(6) [OF assms(1)] by simp
next
  case False
  have l: "0 < lfLimit f" "0 \<le> lfOffset f" by (rule Evaluation_List_Inr [OF assms(1)])+
  with False assms(2, 3) have neg: "int64_add (lfOffset f) (lfLimit f) < 0" by (intro int64_add_wraps) simp_all
  have "elHasMore l = (0 < length (page 1 (int64_add (lfOffset f) (lfLimit f)) (newest_first (filtered f (dbEvaluations db)))))"
    using assms(1) by (auto simp: Evaluation_List_def Let_def split: if_splits)
  also have "\<dots> \<longleftrightarrow> filtered f (dbEvaluations db) \<noteq> []"
    using neg by (simp add: page_def)
  finally show ?thesis using False by simp
qed

text \<open>
  Pages of a table that does not change: read in turn they are the start of the listing, and all of
  it once one says that no more follow.
\<close>

lemma pages_read:
  assumes "0 < k" and pages: "\<And>i. i < k \<Longrightarrow> Evaluation_List se db (f\<lparr>lfOffset := int i * lfLimit f\<rparr>) = Inr (ls i)"
  defines "rows \<equiv> newest_first (filtered f (dbEvaluations db))"
  shows "concat (map (\<lambda>i. elItems (ls i)) [0..<k]) = map (evaluationModelToAPI se) (take (k * nat (lfLimit f)) rows)"
    and "int k * lfLimit f < 2 ^ 63 \<Longrightarrow> \<not> elHasMore (ls (k - 1)) \<Longrightarrow>
      concat (map (\<lambda>i. elItems (ls i)) [0..<k]) = map (evaluationModelToAPI se) rows"
proof -
  have n: "0 < lfLimit f" using Evaluation_List_Inr(1) [OF pages [OF assms(1)]] by simp
  have same: "filtered (f\<lparr>lfOffset := o'\<rparr>) = filtered f" for o' by (simp add: filtered_def fun_eq_iff)
  have "map (\<lambda>i. elItems (ls i)) [0..<k] =
      map (\<lambda>i. map (evaluationModelToAPI se) (page (lfLimit f) (int i * lfLimit f) rows)) [0..<k]"
    using Evaluation_List_Inr(5) [OF pages] by (intro map_cong) (simp_all add: rows_def same)
  then have "concat (map (\<lambda>i. elItems (ls i)) [0..<k]) =
      map (evaluationModelToAPI se) (concat (map (\<lambda>i. page (lfLimit f) (int i * lfLimit f) rows) [0..<k]))"
    by (simp only: map_concat map_map comp_def)
  then show all: "concat (map (\<lambda>i. elItems (ls i)) [0..<k]) = map (evaluationModelToAPI se) (take (k * nat (lfLimit f)) rows)"
    by (simp add: pages_cover [OF n])
  have last: "k - 1 < k" "int (k - 1) * lfLimit f + lfLimit f = int k * lfLimit f"
    using assms(1) by (simp_all add: of_nat_diff algebra_simps)
  show "concat (map (\<lambda>i. elItems (ls i)) [0..<k]) = map (evaluationModelToAPI se) rows"
    if "int k * lfLimit f < 2 ^ 63" "\<not> elHasMore (ls (k - 1))"
  proof -
    have "\<not> int k * lfLimit f < int (length rows)"
      using Evaluation_List_Inr(6) [OF pages [OF last(1)]] that last(2) by (simp add: same rows_def)
    moreover have "int k * lfLimit f = int (k * nat (lfLimit f))" using n by simp
    ultimately have "length rows \<le> k * nat (lfLimit f)" by (metis linorder_not_le of_nat_le_iff)
    then show ?thesis by (simp add: all)
  qed
qed

section \<open>Feedback\<close>

lemma feedbackBegin_Inr:
  assumes "feedbackBegin svc se db input = Inr r"
  obtains evaluation where "findRow evID (fiEvaluationID input) (dbEvaluations db) = Some evaluation"
    and "fbEvaluationID r = evID evaluation" and "fbExpectedOutcome r = fiExpectedOutcome input"
    and "fbNote r = fiNote input" and "Outcome_IsValid (fiExpectedOutcome input)"
    and "int (length (fiNote input)) \<le> MaxFeedbackNoteLength"
    and "\<And>c. Service_Compiled (svcPolicies svc)
        \<lparr>refName = evPolicyName evaluation, refVersion = evPolicyVersion evaluation\<rparr> = Inr c \<Longrightarrow>
      fiExpectedOutcome input \<in> set (cOutcomes c)"
proof -
  from assms obtain evaluation where "findEvaluation se db (fiEvaluationID input) = Inr evaluation"
    "validateFeedback input = Inr ()" "validateExpectedOutcome svc evaluation input = Inr ()"
    "r = \<lparr>fbID = seNewID se, fbEvaluationID = evID evaluation, fbExpectedOutcome = fiExpectedOutcome input,
      fbNote = fiNote input, fbCreatedAt = seNowFeedback se\<rparr>"
    by (auto simp: feedbackBegin_def rbind_Inr_iff)
  then show ?thesis
    by (intro that [of evaluation]) (auto simp: findEvaluation_def validateFeedback_def
        validateExpectedOutcome_def require_Inr_iff split: if_splits option.splits)
qed

lemma feedbackCommit_frame:
  assumes "feedbackCommit se w r = (w', result)"
  shows "w' = w\<lparr>wDB := (wDB w)\<lparr>dbFeedback := dbFeedback (wDB w')\<rparr>\<rparr>"
    and "result = Inl e \<Longrightarrow> w' = w"
    and "result = Inr a \<Longrightarrow> dbFeedback (wDB w') = dbFeedback (wDB w) @ [storeFeedback se r] \<and> a = feedbackModelToAPI r \<and>
      fbID r \<notin> fbID ` set (dbFeedback (wDB w))"
  using assms by (auto simp: feedbackCommit_def insertRow_def split: if_splits option.splits)

section \<open>No panic\<close>

lemma compile_no_panic:
  assumes "CompileBytesWithMaxQuestions yaml data maxBytes maxQuestions = Inl e"
  shows "e \<noteq> panicked"
  using assms CompileWithMaxQuestions_Inl
  by (auto simp: CompileBytesWithMaxQuestions_def ParseDocument_def Let_def rbind_Inl_iff panicked_def
      policy_sentinels_def marshal_error_def split: if_splits option.splits)

lemma resolvePolicy_no_panic: "resolvePolicy svc input = Inl e \<Longrightarrow> e \<noteq> panicked"
  by (auto simp: resolvePolicy_def compileInline_def encodeDocument_def Service_Compiled_def Let_def
      rbind_Inl_iff panicked_def split: if_splits option.splits dest: compile_no_panic [unfolded panicked_def])

lemma validateRequestShape_Inl: "validateRequestShape cfg input = Inl e \<Longrightarrow> e = ErrValidationFailed"
  by (auto simp: validateRequestShape_def validateStateSize_def validateFactCount_def validateMetadata_def
      rbind_Inl_iff require_Inl_iff split: option.splits if_splits dest!: for_each_Inl_mem)

lemma replay_Inl: "replay se db input h = Inl e \<Longrightarrow> e \<in> {dbError, ErrIdempotencyConflict}"
  by (auto simp: replay_def Evaluation_Get_def findEvaluation_def rbind_Inl_iff
      split: if_splits option.splits sum.splits)

lemma persist_error:
  assumes "persist svc se w r input h = (w', Inl e)"
  shows "e \<in> {dbError, ErrMarshalFailed} \<or> (\<exists>seal t. seSealer se = Some seal \<and> seal t = Inl e)"
  using assms by (auto simp: persist_def persistTx_def sealInput_def rbind_Inl_iff Let_def
      split: sum.splits option.splits if_splits)

lemma Create_no_panic:
  assumes "service_ok svc" and "\<forall>seal. seSealer se = Some seal \<longrightarrow> (\<forall>t. seal t \<noteq> Inl panicked)"
  shows "snd (Create svc se w input) \<noteq> Inl panicked"
proof
  assume "snd (Create svc se w input) = Inl panicked"
  then consider (first) w' where "createBegin svc se w input = (w', Inl (Inl panicked))"
    | (second) w1 p w' where "createCommit svc se w1 p = (w', Inl panicked)"
    by (auto simp: Create_def split: prod.splits sum.splits) (metis prod.collapse)
  then show False
  proof cases
    case first
    have distinct: "panicked \<notin> {dbError, ErrIdempotencyConflict, ErrMarshalFailed, ErrValidationFailed, ErrCanceled}"
      by (simp add: panicked_def dbError_def)
    have wf: "resolvePolicy svc input = Inr (c, pk) \<Longrightarrow> wf_compiled c" for c pk
      using resolvePolicy_authentic(1) [OF assms(1)] by (simp add: authentic_def)
    from first distinct show False
      by (auto simp: createBegin_def canonicalRequestHash_def ensureSnapshot_def
          split: sum.splits option.splits prod.splits if_splits
          dest: resolvePolicy_no_panic validateRequestShape_Inl replay_Inl decide_error [OF _ wf])
  next
    case second
    then have "\<exists>w'. persist svc se w1 (pdRecord p) (pdInput p) (pdHash p) = (w', Inl panicked)"
      by (auto simp: createCommit_def split: prod.splits sum.splits)
    with assms(2) show False by (auto simp: panicked_def dbError_def dest!: persist_error)
  qed
qed

section \<open>The request to the provider\<close>

lemma provider_question_ids:
  assumes "wf_compiled compiled"
  shows "map pqID (rqQuestions (buildProviderRequest compiled input)) = cQuestionIDs compiled"
    and "distinct (cQuestionIDs compiled)"
proof -
  have wf: "wf_questions compiled" using assms by (simp add: wf_compiled_def)
  then have keys: "cQuestionIDs compiled = sorted_keys (cQuestions compiled)" and ok: "gomap_ok (cQuestions compiled)"
    by (simp_all add: wf_questions_def)
  from ok show "distinct (cQuestionIDs compiled)" by (simp add: keys gomap_ok_def sorted_keys_def)
  have "cqID (question_at (cQuestions compiled) i) = i" if "i \<in> set (cQuestionIDs compiled)" for i
  proof -
    from that have "i \<in> fst ` set (cQuestions compiled)" by (simp add: keys set_sorted_keys)
    from map_of_key_ex [OF this] obtain q where "map_of (cQuestions compiled) i = Some q" ..
    moreover from this wf have "wf_question i q" by (simp add: wf_questions_def)
    ultimately show ?thesis by (simp add: question_at_def wf_question_def)
  qed
  then show "map pqID (rqQuestions (buildProviderRequest compiled input)) = cQuestionIDs compiled"
    by (simp add: buildProviderRequest_def Let_def comp_def map_idI)
qed

lemma provider_request_asks:
  assumes "wf_compiled compiled"
  shows "\<exists>questions. (\<forall>i. map_of questions i = map_option questionInput
      (List.find (\<lambda>q. pqID q = i) (rqQuestions (buildProviderRequest compiled input)))) \<and>
    fst ` set questions = set (cQuestionIDs compiled) \<and>
    Client_Evaluate client (buildProviderRequest compiled input) =
      (case client \<lparr>tsState = ciState input, tsModel = cModel compiled, tsQuestions = questions\<rparr> of
         Inl e \<Rightarrow> Inl (mapError e)
       | Inr r \<Rightarrow> Inr \<lparr>rsModel = trModel r, rsAnswers = trAnswers r, rsUsage = trUsage r,
           rsAttempts = trAttempts r, rsDuration = trDuration r\<rparr>)"
proof -
  let ?qs = "rqQuestions (buildProviderRequest compiled input)"
  note ids = provider_question_ids [OF assms]
  have "distinct (map pqID ?qs)" using provider_question_ids [OF assms] by simp
  from Client_Evaluate_asks [OF this, of client] obtain m where
    m: "\<forall>i. map_of m i = map_option questionInput (List.find (\<lambda>q. pqID q = i) ?qs)"
    and run: "Client_Evaluate client (buildProviderRequest compiled input) =
      (case client \<lparr>tsState = rqState (buildProviderRequest compiled input),
          tsModel = rqModel (buildProviderRequest compiled input), tsQuestions = m\<rparr> of
         Inl e \<Rightarrow> Inl (mapError e)
       | Inr r \<Rightarrow> Inr \<lparr>rsModel = trModel r, rsAnswers = trAnswers r, rsUsage = trUsage r,
           rsAttempts = trAttempts r, rsDuration = trDuration r\<rparr>)" by blast
  have "i \<in> fst ` set m \<longleftrightarrow> i \<in> set (map pqID ?qs)" for i
    using m [rule_format, of i] map_of_eq_None_iff [of m i] find_None_iff [of "\<lambda>q. pqID q = i" ?qs] by auto
  then have "fst ` set m = set (cQuestionIDs compiled)" unfolding ids(1) [where input = input] by blast
  with m run show ?thesis by (auto simp: buildProviderRequest_def)
qed

text \<open>The request field by field, and what the adapter asks of the client for it.\<close>

lemma request_of_policy:
  fixes input :: CreateInput
  assumes "wf_compiled compiled"
  defines "request \<equiv> buildProviderRequest compiled input"
  shows "rqModel request = cModel compiled" "rqState request = ciState input"
    and "map pqID (rqQuestions request) = cQuestionIDs compiled"
    and "\<forall>q \<in> set (rqQuestions request). \<exists>cq. map_of (cQuestions compiled) (pqID q) = Some cq \<and> pqType q = cqType cq \<and>
      pqInstructions q = cqInstructions cq \<and> pqNoulCriteria q = cqNoulCriteria cq \<and>
      pqChoiceCriteria q = cqChoiceCriteria cq \<and> pqScoreCriteria q = cqScoreCriteria cq"
proof -
  show "rqModel request = cModel compiled" "rqState request = ciState input"
    by (simp_all add: request_def buildProviderRequest_def)
  show "map pqID (rqQuestions request) = cQuestionIDs compiled"
    unfolding request_def by (rule provider_question_ids(1) [OF assms(1)])
  have wf: "wf_questions compiled" using assms by (simp add: wf_compiled_def)
  then have keys: "cQuestionIDs compiled = sorted_keys (cQuestions compiled)" by (simp add: wf_questions_def)
  have "\<exists>cq. map_of (cQuestions compiled) i = Some cq \<and> question_at (cQuestions compiled) i = cq \<and> cqID cq = i"
    if "i \<in> set (cQuestionIDs compiled)" for i
  proof -
    from that have "i \<in> fst ` set (cQuestions compiled)" by (simp add: keys set_sorted_keys)
    from map_of_key_ex [OF this] obtain q where "map_of (cQuestions compiled) i = Some q" ..
    moreover from this wf have "wf_question i q" by (simp add: wf_questions_def)
    ultimately show ?thesis by (simp add: question_at_def wf_question_def)
  qed
  then show "\<forall>q \<in> set (rqQuestions request). \<exists>cq. map_of (cQuestions compiled) (pqID q) = Some cq \<and> pqType q = cqType cq \<and>
      pqInstructions q = cqInstructions cq \<and> pqNoulCriteria q = cqNoulCriteria cq \<and>
      pqChoiceCriteria q = cqChoiceCriteria cq \<and> pqScoreCriteria q = cqScoreCriteria cq"
    by (force simp: request_def buildProviderRequest_def Let_def)
qed

lemma adapter_questions:
  assumes "wf_compiled compiled"
  obtains questions where "fst ` set questions = set (cQuestionIDs compiled)"
    and "\<And>i q. map_of (cQuestions compiled) i = Some q \<Longrightarrow> map_of questions i =
      Some \<lparr>qiType = cqType q, qiInstructions = cqInstructions q, qiCriteria =
        (if cqType q = QuestionTypeNoul then (case cqNoulCriteria q of None \<Rightarrow> VNil | Some m \<Rightarrow> VMap m)
         else if cqType q = QuestionTypeChoice then VMap (cqChoiceCriteria q)
         else if cqType q = QuestionTypeScore then VList (cqScoreCriteria q) else VNil)\<rparr>"
    and "Client_Evaluate client (buildProviderRequest compiled input) =
      (case client \<lparr>tsState = ciState input, tsModel = cModel compiled, tsQuestions = questions\<rparr> of
         Inl e \<Rightarrow> Inl (mapError e)
       | Inr r \<Rightarrow> Inr \<lparr>rsModel = trModel r, rsAnswers = trAnswers r, rsUsage = trUsage r,
           rsAttempts = trAttempts r, rsDuration = trDuration r\<rparr>)"
proof -
  let ?qs = "rqQuestions (buildProviderRequest compiled input)"
  obtain questions where m: "\<forall>i. map_of questions i = map_option questionInput (List.find (\<lambda>q. pqID q = i) ?qs)"
    and rest: "fst ` set questions = set (cQuestionIDs compiled)" "Client_Evaluate client (buildProviderRequest compiled input) =
      (case client \<lparr>tsState = ciState input, tsModel = cModel compiled, tsQuestions = questions\<rparr> of
         Inl e \<Rightarrow> Inl (mapError e)
       | Inr r \<Rightarrow> Inr \<lparr>rsModel = trModel r, rsAnswers = trAnswers r, rsUsage = trUsage r,
           rsAttempts = trAttempts r, rsDuration = trDuration r\<rparr>)"
    using provider_request_asks [OF assms, of input client] by blast
  note req = request_of_policy [OF assms, of input]
  have wf: "wf_questions compiled" using assms by (simp add: wf_compiled_def)
  show thesis
  proof (rule that [OF rest(1) _ rest(2)])
    fix i q assume q: "map_of (cQuestions compiled) i = Some q"
    then have "i \<in> set (cQuestionIDs compiled)" using wf by (auto simp: wf_questions_def set_sorted_keys dest: map_of_SomeD intro: rev_image_eqI)
    then have "i \<in> pqID ` set ?qs" by (metis req(3) list.set_map)
    then have "List.find (\<lambda>q. pqID q = i) ?qs \<noteq> None" by (auto simp: find_None_iff)
    then obtain p where p: "List.find (\<lambda>q. pqID q = i) ?qs = Some p" by blast
    then have "p \<in> set ?qs" "pqID p = i" by (auto simp: find_Some_iff)
    with req(4) q have "pqType p = cqType q \<and> pqInstructions p = cqInstructions q \<and> pqNoulCriteria p = cqNoulCriteria q \<and>
        pqChoiceCriteria p = cqChoiceCriteria q \<and> pqScoreCriteria p = cqScoreCriteria q" by fastforce
    then show "map_of questions i = Some \<lparr>qiType = cqType q, qiInstructions = cqInstructions q, qiCriteria =
        (if cqType q = QuestionTypeNoul then (case cqNoulCriteria q of None \<Rightarrow> VNil | Some m \<Rightarrow> VMap m)
         else if cqType q = QuestionTypeChoice then VMap (cqChoiceCriteria q)
         else if cqType q = QuestionTypeScore then VList (cqScoreCriteria q) else VNil)\<rparr>"
      using m p by (simp add: questionInput_def questionCriteria_def)
  qed
qed

end
