(* ===== verification/HttpServer.thy ===== *)
theory HttpServer
  imports EvaluationFacts
begin

text \<open>
  The REST surface (\<open>internal/pkg/http/server\<close>): the classification of errors (\<open>errors.go\<close>) and the
  handlers over the core services (\<open>handlers.go\<close>). A reply is a status with a body. The lemmas show
  which status every outcome of the core gets.
\<close>

section \<open>Errors\<close>

record apiError =
  erCode :: string
  erMessage :: string
  erDetails :: "(string \<times> string) list"

record failure =
  flStatus :: int
  flBody :: apiError

definition newFailure :: "int \<Rightarrow> string \<Rightarrow> string \<Rightarrow> failure" where
  "newFailure status code message =
     \<lparr>flStatus = status, flBody = \<lparr>erCode = code, erMessage = message, erDetails = []\<rparr>\<rparr>"

definition badRequest :: "string \<Rightarrow> apiError" where
  "badRequest message = \<lparr>erCode = ''BAD_REQUEST'', erMessage = message, erDetails = []\<rparr>"

text \<open>The envelope library names no code for 413 and falls back to the one of a server error.\<close>

definition ErrorCodeFromHTTPStatus :: "int \<Rightarrow> string" where
  "ErrorCodeFromHTTPStatus status =
     (case map_of [(400, ''BAD_REQUEST''), (401, ''UNAUTHORIZED''), (403, ''FORBIDDEN''), (404, ''NOT_FOUND''),
         (405, ''METHOD_NOT_ALLOWED''), (409, ''CONFLICT''), (410, ''GONE''), (422, ''UNPROCESSABLE_ENTITY''),
         (429, ''TOO_MANY_REQUESTS''), (500, ''INTERNAL_SERVER_ERROR''), (501, ''NOT_IMPLEMENTED''),
         (502, ''BAD_GATEWAY''), (503, ''SERVICE_UNAVAILABLE''), (504, ''GATEWAY_TIMEOUT'')] status of
        None \<Rightarrow> ''INTERNAL_SERVER_ERROR''
      | Some code \<Rightarrow> code)"

definition statusClientClosedRequest :: int where "statusClientClosedRequest = 499"

definition classifyProvider :: "goerror \<Rightarrow> failure" where
  "classifyProvider e =
     (if ErrCanceled \<in> set e then
        newFailure statusClientClosedRequest ''BAD_REQUEST'' ''the client closed the request''
      else if ErrTimeout \<in> set e \<or> ErrDeadlineExceeded \<in> set e then
        newFailure 504 ''GATEWAY_TIMEOUT'' ''the decision provider did not answer in time''
      else if ErrRateLimited \<in> set e then
        newFailure 429 ''TOO_MANY_REQUESTS'' ''the decision provider rate limit was reached''
      else if ErrNotAuthenticated \<in> set e \<or> ErrRequiredConfigValueNotSet \<in> set e then
        newFailure 503 ''SERVICE_UNAVAILABLE'' ''the decision provider is not configured''
      else if ErrUnavailable \<in> set e \<or> ErrConnectFailed \<in> set e \<or> ErrOverloaded \<in> set e then
        newFailure 503 ''SERVICE_UNAVAILABLE'' ''the decision provider is unavailable''
      else if ErrParseFailed \<in> set e \<or> ErrResponseTooLarge \<in> set e \<or> ErrProviderProtocol \<in> set e then
        newFailure 502 ''BAD_GATEWAY'' ''the decision provider returned an unusable response''
      else newFailure 500 ''INTERNAL_SERVER_ERROR'' ''the request could not be completed'')"

definition classify :: "goerror \<Rightarrow> failure" where
  "classify e =
     (if ErrIdempotencyConflict \<in> set e then
        newFailure 409 ''CONFLICT'' ''the idempotency key was reused with a different request''
      else if ErrPolicySelection \<in> set e then
        newFailure 400 ''BAD_REQUEST'' ''supply exactly one of policyRef or inlinePolicy''
      else if ErrInlinePoliciesDisabled \<in> set e then
        newFailure 400 ''BAD_REQUEST'' ''inline policies are disabled on this deployment''
      else if ErrNotFound \<in> set e then newFailure 404 ''NOT_FOUND'' ''no such resource''
      else if ErrValidationFailed \<in> set e \<or> ErrInvalidArgument \<in> set e then
        newFailure 422 ''VALIDATION_FAILED'' ''the request failed validation''
      else if ErrPolicyTooLarge \<in> set e then
        newFailure 413 (ErrorCodeFromHTTPStatus 413) ''the supplied policy document is too large''
      else classifyProvider e)"

definition FailureCodeInputInvalid :: string where "FailureCodeInputInvalid = ''INPUT_VALIDATION_FAILED''"

definition recordedFailureStatus :: "string \<Rightarrow> failure" where
  "recordedFailureStatus code =
     (if code = FailureCodeProviderTimeout then
        newFailure 504 ''GATEWAY_TIMEOUT'' ''the provider did not answer in time''
      else if code = FailureCodeProviderRateLimited \<or> code = FailureCodeProviderUnavailable then
        newFailure 503 ''SERVICE_UNAVAILABLE'' ''the provider is unavailable''
      else if code = FailureCodeInputInvalid then
        newFailure 422 ''UNPROCESSABLE_ENTITY'' ''the request did not satisfy the policy contract''
      else newFailure 502 ''BAD_GATEWAY'' ''the provider did not return a usable answer'')"

text \<open>\<open>None\<close> is a completed evaluation, which is no failure.\<close>

definition classifyRecordedFailure :: "apiEvaluation \<Rightarrow> failure option" where
  "classifyRecordedFailure result =
     (if aeStatus result = EvaluationStatusCompleted then None
      else let code = case_option '''' id (aeFailureCode result);
               mapped = recordedFailureStatus code in
        Some (mapped\<lparr>flBody := (flBody mapped)\<lparr>erDetails :=
          [(''evaluationId'', aeId result), (''failureCode'', code)]\<rparr>\<rparr>))"

section \<open>Handlers\<close>

datatype 'a reply = Success int 'a | Failed_reply int apiError

fun reply_status :: "'a reply \<Rightarrow> int" where
  "reply_status (Success s _) = s"
| "reply_status (Failed_reply s _) = s"

record createBody =
  cbPolicyRef :: "Ref option"
  cbInlinePolicy :: "(string, goval) gomap option"
  cbState :: goval
  cbFacts :: "Facts option"
  cbMetadata :: "(string, string) gomap option"

record createRequest =
  crqBody :: "createBody option"
  crqIdempotencyKey :: "string option"
  crqRequestID :: string

definition createInputFromRequest :: "createRequest \<Rightarrow> createBody \<Rightarrow> CreateInput" where
  "createInputFromRequest request body =
     \<lparr>ciPolicyRef = cbPolicyRef body, ciInlinePolicy = entries (cbInlinePolicy body), ciState = cbState body,
      ciFacts = cbFacts body, ciMetadata = cbMetadata body,
      ciIdempotencyKey = case_option '''' id (crqIdempotencyKey request), ciRequestID = crqRequestID request\<rparr>"

definition createEvaluationClientFailure :: "failure \<Rightarrow> 'a reply option" where
  "createEvaluationClientFailure f =
     (if flStatus f = 400 \<or> flStatus f = statusClientClosedRequest then Some (Failed_reply 400 (flBody f))
      else if flStatus f = 404 then Some (Failed_reply 404 (flBody f))
      else if flStatus f = 409 then Some (Failed_reply 409 (flBody f))
      else if flStatus f = 413 then Some (Failed_reply 413 (flBody f))
      else if flStatus f = 422 then Some (Failed_reply 422 (flBody f))
      else if flStatus f = 429 then Some (Failed_reply 429 (flBody f))
      else None)"

definition createEvaluationUpstreamFailure :: "failure \<Rightarrow> 'a reply option" where
  "createEvaluationUpstreamFailure f =
     (if flStatus f = 502 then Some (Failed_reply 502 (flBody f))
      else if flStatus f = 503 then Some (Failed_reply 503 (flBody f))
      else if flStatus f = 504 then Some (Failed_reply 504 (flBody f))
      else None)"

definition createEvaluationStatus :: "failure \<Rightarrow> 'a reply" where
  "createEvaluationStatus f =
     (case createEvaluationClientFailure f of
        Some r \<Rightarrow> r
      | None \<Rightarrow> (case createEvaluationUpstreamFailure f of Some r \<Rightarrow> r | None \<Rightarrow> Failed_reply 500 (flBody f)))"

definition createEvaluationFailure :: "goerror \<Rightarrow> 'a reply" where
  "createEvaluationFailure e =
     (let mapped = classify e in
      case createEvaluationClientFailure mapped of
        Some r \<Rightarrow> r
      | None \<Rightarrow> (case createEvaluationUpstreamFailure mapped of Some r \<Rightarrow> r | None \<Rightarrow> Failed_reply 500 (flBody mapped)))"

definition CreateEvaluation ::
  "Service \<Rightarrow> Session \<Rightarrow> World \<Rightarrow> createRequest \<Rightarrow> World \<times> apiEvaluation reply" where
  "CreateEvaluation svc se w request =
     (case crqBody request of
        None \<Rightarrow> (w, Failed_reply 400 (badRequest ''a request body is required''))
      | Some body \<Rightarrow>
          (case Create svc se w (createInputFromRequest request body) of
             (w', Inl e) \<Rightarrow> (w', createEvaluationFailure [e])
           | (w', Inr result) \<Rightarrow>
               (case classifyRecordedFailure result of
                  Some mapped \<Rightarrow> (w', createEvaluationStatus mapped)
                | None \<Rightarrow> (w', Success 201 result))))"

definition DefaultListLimit :: int where "DefaultListLimit = 50"
definition MaxListLimit :: int where "MaxListLimit = 200"

record listParams =
  lpLimit :: "int option"
  lpOffset :: "int option"
  lpPolicyName :: "string option"
  lpPolicyVersion :: "string option"
  lpOutcome :: "string option"
  lpStatus :: "string option"

definition applyListFilters :: "ListFilter \<Rightarrow> listParams \<Rightarrow> ListFilter" where
  "applyListFilters f p = f\<lparr>
     lfPolicyName := case_option (lfPolicyName f) id (lpPolicyName p),
     lfPolicyVersion := case_option (lfPolicyVersion f) id (lpPolicyVersion p),
     lfOutcome := case_option (lfOutcome f) id (lpOutcome p),
     lfStatus := case_option (lfStatus f) id (lpStatus p)\<rparr>"

definition ListEvaluations :: "Session \<Rightarrow> DB \<Rightarrow> listParams \<Rightarrow> EvaluationList reply" where
  "ListEvaluations se db params =
     (let f = \<lparr>lfLimit = case_option DefaultListLimit id (lpLimit params),
               lfOffset = case_option 0 id (lpOffset params),
               lfPolicyName = '''', lfPolicyVersion = '''', lfOutcome = '''', lfStatus = ''''\<rparr> in
      if lfLimit f < 1 \<or> MaxListLimit < lfLimit f \<or> lfOffset f < 0
      then Failed_reply 400 (badRequest ''limit and offset are outside the documented range'')
      else (case Evaluation_List se db (applyListFilters f params) of
              Inl e \<Rightarrow> Failed_reply 500 (flBody (classify [e]))
            | Inr p \<Rightarrow> Success 200 p))"

definition GetEvaluation :: "Session \<Rightarrow> DB \<Rightarrow> uuid \<Rightarrow> apiEvaluation reply" where
  "GetEvaluation se db i =
     (case Evaluation_Get se db i of
        Inr result \<Rightarrow> Success 200 result
      | Inl e \<Rightarrow>
          (let mapped = classify [e] in
           if flStatus mapped = 404 then Failed_reply 404 (flBody mapped) else Failed_reply 500 (flBody mapped)))"

record feedbackRequest =
  frqEvaluationId :: uuid
  frqBody :: "(string \<times> string option) option"

definition SubmitFeedback_handler ::
  "Service \<Rightarrow> Session \<Rightarrow> World \<Rightarrow> feedbackRequest \<Rightarrow> World \<times> apiFeedback reply" where
  "SubmitFeedback_handler svc se w request =
     (case frqBody request of
        None \<Rightarrow> (w, Failed_reply 400 (badRequest ''a request body is required''))
      | Some (expected, note) \<Rightarrow>
          (case SubmitFeedback svc se w \<lparr>fiEvaluationID = frqEvaluationId request, fiExpectedOutcome = expected,
              fiNote = case_option '''' id note\<rparr> of
             (w', Inr result) \<Rightarrow> (w', Success 201 result)
           | (w', Inl e) \<Rightarrow>
               (let mapped = classify [e] in
                (w', if flStatus mapped = 404 then Failed_reply 404 (flBody mapped)
                     else if flStatus mapped = 422 then Failed_reply 422 (flBody mapped)
                     else Failed_reply 500 (flBody mapped)))))"

text \<open>Listing the loaded policies cannot fail.\<close>

definition ListPolicies :: "policiesService \<Rightarrow> apiPolicy list reply" where
  "ListPolicies s = Success 200 (Service_List s)"

definition GetPolicy :: "policiesService \<Rightarrow> string \<Rightarrow> string \<Rightarrow> apiPolicy reply" where
  "GetPolicy s name version =
     (case Service_Get s name version of
        Inr result \<Rightarrow> Success 200 result
      | Inl e \<Rightarrow>
          (let mapped = classify [e] in
           if flStatus mapped = 404 then Failed_reply 404 (flBody mapped) else Failed_reply 500 (flBody mapped)))"

definition ValidatePolicy ::
  "yamlDecoder \<Rightarrow> policiesService \<Rightarrow> (string, goval) gomap option \<Rightarrow> PolicyValidation reply" where
  "ValidatePolicy yaml s body =
     (case body of
        None \<Rightarrow> Failed_reply 400 (badRequest ''a request body is required'')
      | Some document \<Rightarrow>
          (case Service_Validate yaml s document of
             Inr result \<Rightarrow> Success 200 result
           | Inl e \<Rightarrow>
               (let mapped = classify [e] in
                if flStatus mapped = 413 then Failed_reply 413 (flBody mapped)
                else if flStatus mapped = 400 \<or> flStatus mapped = 422 then Failed_reply 400 (flBody mapped)
                else Failed_reply 500 (flBody mapped))))"

section \<open>Every outcome of the core has one reply\<close>

lemma newFailure_simps [simp]:
  "flStatus (newFailure s c m) = s" "erCode (flBody (newFailure s c m)) = c" "erDetails (flBody (newFailure s c m)) = []"
  by (simp_all add: newFailure_def)

definition core_statuses :: "int set" where
  "core_statuses = {400, 404, 409, 413, 422, 429, 499, 500, 502, 503, 504}"

lemma classify_status: "flStatus (classify e) \<in> core_statuses"
  by (simp add: classify_def classifyProvider_def core_statuses_def statusClientClosedRequest_def)

lemma classify_details: "erDetails (flBody (classify e)) = []"
  by (simp add: classify_def classifyProvider_def)

definition declared_failures :: "int set" where
  "declared_failures = {400, 404, 409, 413, 422, 429, 500, 502, 503, 504}"

lemma createEvaluationStatus_reply:
  "\<exists>s. createEvaluationStatus f = Failed_reply s (flBody f) \<and> s \<in> declared_failures \<and>
     (s = flStatus f \<or> flStatus f = 499 \<and> s = 400 \<or> flStatus f \<notin> declared_failures \<and> s = 500)"
  by (simp add: createEvaluationStatus_def createEvaluationClientFailure_def createEvaluationUpstreamFailure_def
      statusClientClosedRequest_def declared_failures_def)

lemma createEvaluationFailure_is: "createEvaluationFailure e = createEvaluationStatus (classify e)"
  by (simp add: createEvaluationFailure_def createEvaluationStatus_def Let_def)

lemma recordedFailureStatus_upstream:
  "code \<noteq> FailureCodeInputInvalid \<Longrightarrow> flStatus (recordedFailureStatus code) \<in> {502, 503, 504}"
  by (simp add: recordedFailureStatus_def)

lemma recorded_reply:
  assumes "classifyRecordedFailure ev = Some f"
  shows "\<exists>s. createEvaluationStatus f = Failed_reply s (flBody f) \<and> s \<in> {422, 502, 503, 504} \<and>
    map_of (erDetails (flBody f)) ''evaluationId'' = Some (aeId ev)"
proof -
  have "flStatus f \<in> {422, 502, 503, 504}" and "map_of (erDetails (flBody f)) ''evaluationId'' = Some (aeId ev)"
    using assms by (auto simp: classifyRecordedFailure_def Let_def recordedFailureStatus_def split: if_splits)
  then show ?thesis using createEvaluationStatus_reply [of f] by (auto simp: declared_failures_def)
qed

text \<open>The reply to a request with a body, by what the core made of it.\<close>

lemma CreateEvaluation_reply:
  assumes "crqBody request = Some body"
  obtains (Refused) w1 e s b where "Create svc se w (createInputFromRequest request body) = (w1, Inl e)"
      and "CreateEvaluation svc se w request = (w1, Failed_reply s b)" and "s \<in> declared_failures"
      and "b = flBody (classify [e])" and "erDetails b = []"
  | (Decided) w1 ev where "Create svc se w (createInputFromRequest request body) = (w1, Inr ev)"
      and "aeStatus ev = EvaluationStatusCompleted" and "CreateEvaluation svc se w request = (w1, Success 201 ev)"
  | (Unanswered) w1 ev s b where "Create svc se w (createInputFromRequest request body) = (w1, Inr ev)"
      and "aeStatus ev \<noteq> EvaluationStatusCompleted" and "CreateEvaluation svc se w request = (w1, Failed_reply s b)"
      and "s \<in> {422, 502, 503, 504}" and "map_of (erDetails b) ''evaluationId'' = Some (aeId ev)"
proof -
  obtain w1 r where c: "Create svc se w (createInputFromRequest request body) = (w1, r)" by fastforce
  show thesis
  proof (cases r)
    case (Inl e)
    obtain s where "(createEvaluationFailure [e] :: apiEvaluation reply) = Failed_reply s (flBody (classify [e]))"
      and "s \<in> declared_failures"
      using createEvaluationStatus_reply [of "classify [e]"] unfolding createEvaluationFailure_is by blast
    then show thesis using c Inl assms classify_details by (intro Refused) (simp_all add: CreateEvaluation_def)
  next
    case (Inr ev)
    show thesis
    proof (cases "classifyRecordedFailure ev")
      case None
      then show thesis using c Inr assms
        by (intro Decided) (simp_all add: CreateEvaluation_def classifyRecordedFailure_def Let_def split: if_splits)
    next
      case (Some f)
      have "aeStatus ev \<noteq> EvaluationStatusCompleted" using Some by (auto simp: classifyRecordedFailure_def)
      moreover obtain s where "(createEvaluationStatus f :: apiEvaluation reply) = Failed_reply s (flBody f)"
        and "s \<in> {422, 502, 503, 504}" and "map_of (erDetails (flBody f)) ''evaluationId'' = Some (aeId ev)"
        using recorded_reply [OF Some] by blast
      ultimately show thesis using c Inr assms Some by (intro Unanswered) (simp_all add: CreateEvaluation_def)
    qed
  qed
qed

end
