(* ===== verification/Retention.thy ===== *)
theory Retention
  imports Evaluations
begin

text \<open>
  Retention cleanup (\<open>internal/pkg/services/vibecheck-server/retention.go\<close>): one pass deletes
  expired idempotency records, then a batch of evaluations older than the cutoff together with
  their feedback. Which rows a limited statement touches is left to the database: it is a
  parameter of the pass, bound only by what \<open>LIMIT\<close> promises. The lemmas show that a pass
  removes nothing that is still live, keeps the references between tables at every point where
  it may stop, and that enough passes clear the backlog.
\<close>

section \<open>The pass\<close>

definition retentionBatchSize :: nat where "retentionBatchSize = 500"

definition retentionOpEvaluations :: string where "retentionOpEvaluations = ''evaluations''"
definition retentionOpFeedback :: string where "retentionOpFeedback = ''evaluation_feedback''"
definition retentionOpIdempotency :: string where "retentionOpIdempotency = ''idempotency_records''"

record retentionSettings =
  rtEvery :: duration
  rtEvaluations :: duration

datatype retentionStatement = DeleteIdempotency | FindExpired | DeleteFeedback | DeleteEvaluations

text \<open>
  What one pass draws from its surroundings: the clock, the statements that fail, and the rows
  a statement with a limit affects out of those that match. The instants a statement compares
  with reach the database as the driver passes them.
\<close>

record RetentionPass =
  rpNow :: instant
  rpDriver :: string
  rpFails :: "retentionStatement \<Rightarrow> bool"
  rpDeleted :: "IdempotencyRecord list \<Rightarrow> IdempotencyRecord list"
  rpFound :: "EvaluationRow list \<Rightarrow> EvaluationRow list"

type_synonym retentionResult = "(string, int) gomap"

definition expireIdempotency :: "RetentionPass \<Rightarrow> DB \<Rightarrow> DB \<times> int \<times> sentinel option" where
  "expireIdempotency pass db =
     (if rpFails pass DeleteIdempotency then (db, 0, Some dbError)
      else let gone = rpDeleted pass
          (filter (\<lambda>r. time_Before (idExpiresAt r) (storedInstant (rpDriver pass) (rpNow pass)))
             (dbIdempotency db)) in
        (db\<lparr>dbIdempotency := deleteKeys idKeyHash (map idKeyHash gone) (dbIdempotency db)\<rparr>,
         int (length gone), None))"

definition evaluationIDs :: "EvaluationRow list \<Rightarrow> uuid list" where
  "evaluationIDs records = map evID records"

definition findExpired :: "RetentionPass \<Rightarrow> instant \<Rightarrow> DB \<Rightarrow> EvaluationRow list" where
  "findExpired pass cutoff db =
     rpFound pass (filter (\<lambda>r. time_Before (evCreatedAt r) cutoff) (dbEvaluations db))"

text \<open>The two deletes of a batch: feedback first, evaluations second.\<close>

definition deleteFeedback :: "uuid list \<Rightarrow> DB \<Rightarrow> DB" where
  "deleteFeedback ids db = db\<lparr>dbFeedback := filter (\<lambda>f. fbEvaluationID f \<notin> set ids) (dbFeedback db)\<rparr>"

definition deleteEvaluations :: "uuid list \<Rightarrow> DB \<Rightarrow> DB" where
  "deleteEvaluations ids db = db\<lparr>dbEvaluations := deleteKeys evID ids (dbEvaluations db)\<rparr>"

definition expireEvaluations :: "RetentionPass \<Rightarrow> instant \<Rightarrow> DB \<Rightarrow> DB \<times> (int \<times> int) \<times> sentinel option" where
  "expireEvaluations pass cutoff db =
     (if rpFails pass FindExpired then (db, (0, 0), Some dbError)
      else let expired = findExpired pass cutoff db in
        if length expired = 0 then (db, (0, 0), None)
        else let ids = evaluationIDs expired in
          if rpFails pass DeleteFeedback then (db, (0, 0), Some dbError)
          else let db1 = deleteFeedback ids db;
                   feedbackRows = int (length (dbFeedback db)) - int (length (dbFeedback db1)) in
            if rpFails pass DeleteEvaluations then (db1, (0, feedbackRows), Some dbError)
            else let db2 = deleteEvaluations ids db1 in
              (db2, (int (length (dbEvaluations db1)) - int (length (dbEvaluations db2)), feedbackRows), None))"

text \<open>The instant the age of an evaluation is compared with, as the statement carries it.\<close>

definition cutoff_of :: "retentionSettings \<Rightarrow> RetentionPass \<Rightarrow> instant" where
  "cutoff_of settings pass =
     storedInstant (rpDriver pass) (time_Add (rpNow pass) (- rtEvaluations settings))"

definition cleanup :: "retentionSettings \<Rightarrow> RetentionPass \<Rightarrow> DB \<Rightarrow> DB \<times> retentionResult \<times> sentinel option" where
  "cleanup settings pass db =
     (case expireIdempotency pass db of
        (db1, idempotencyRemoved, err) \<Rightarrow>
          let deleted = [(retentionOpIdempotency, idempotencyRemoved)] in
          if err \<noteq> None then (db1, deleted, err)
          else if rtEvaluations settings \<le> 0 then (db1, deleted, None)
          else case expireEvaluations pass (cutoff_of settings pass) db1 of
            (db2, (evaluationsRemoved, feedbackRemoved), err2) \<Rightarrow>
              (db2, deleted @ [(retentionOpEvaluations, evaluationsRemoved),
                 (retentionOpFeedback, feedbackRemoved)], err2))"

text \<open>The loop over the ticks seen before the context ends; a failed pass is reported and skipped.\<close>

fun runRetention :: "retentionSettings \<Rightarrow> RetentionPass list \<Rightarrow> DB \<Rightarrow> DB \<times> (bool \<times> retentionResult) list" where
  "runRetention settings [] db = (db, [])"
| "runRetention settings (pass # ticks) db =
     (case cleanup settings pass db of
        (db1, deleted, err) \<Rightarrow>
          case runRetention settings ticks db1 of
            (db2, runs) \<Rightarrow> (db2, (err \<noteq> None, deleted) # runs))"

section \<open>What a limited statement may touch\<close>

definition limited :: "('r list \<Rightarrow> 'r list) \<Rightarrow> bool" where
  "limited pick \<longleftrightarrow> (\<forall>rows. set (pick rows) \<subseteq> set rows)"

text \<open>A select with a limit returns as many of the matching rows as the limit allows.\<close>

definition limited_select :: "nat \<Rightarrow> ('r list \<Rightarrow> 'r list) \<Rightarrow> bool" where
  "limited_select n pick \<longleftrightarrow> (\<forall>rows. mset (pick rows) \<subseteq># mset rows \<and> length (pick rows) = min n (length rows))"

definition pass_ok :: "RetentionPass \<Rightarrow> bool" where
  "pass_ok pass \<longleftrightarrow> limited (rpDeleted pass) \<and> limited_select retentionBatchSize (rpFound pass)"

lemma limited_select_limited: "limited_select n pick \<Longrightarrow> limited pick"
  unfolding limited_def limited_select_def by (metis set_mset_mono set_mset_mset)

section \<open>What a pass keeps\<close>

text \<open>Rows only leave, and only rows that satisfy \<open>gone\<close>.\<close>

definition pruned :: "('r \<Rightarrow> bool) \<Rightarrow> 'r list \<Rightarrow> 'r list \<Rightarrow> bool" where
  "pruned gone rows rows' \<longleftrightarrow> (\<exists>keep. rows' = filter keep rows \<and> (\<forall>r \<in> set rows. \<not> gone r \<longrightarrow> keep r))"

lemma pruned_refl [simp]: "pruned gone rows rows"
  unfolding pruned_def by (rule exI [of _ "\<lambda>_. True"]) simp

lemma prunedD:
  assumes "pruned gone rows rows'"
  shows "set rows' \<subseteq> set rows" and "r \<in> set rows \<Longrightarrow> \<not> gone r \<Longrightarrow> r \<in> set rows'"
    and "distinct (map key rows) \<Longrightarrow> distinct (map key rows')"
  using assms by (auto simp: pruned_def distinct_map_filter)

lemma pruned_mono:
  "pruned gone rows rows' \<Longrightarrow> (\<And>r. r \<in> set rows \<Longrightarrow> gone r \<Longrightarrow> gone' r) \<Longrightarrow> pruned gone' rows rows'"
  unfolding pruned_def by blast

lemma pruned_deleteKeys:
  assumes "distinct (map key rows)" and "set picked \<subseteq> {r \<in> set rows. gone r}"
  shows "pruned gone rows (deleteKeys key (map key picked) rows)"
proof -
  have "key r \<notin> set (map key picked)" if "r \<in> set rows" "\<not> gone r" for r
    using assms that by (auto simp: distinct_map dest!: inj_onD)
  then show ?thesis unfolding pruned_def deleteKeys_def by blast
qed

lemma expireIdempotency_pruned:
  assumes "expireIdempotency pass db = (db', n, err)" and "limited (rpDeleted pass)" and "db_keys db"
  shows "db' = db\<lparr>dbIdempotency := dbIdempotency db'\<rparr>"
    and "pruned (\<lambda>r. time_Before (idExpiresAt r) (rpNow pass)) (dbIdempotency db) (dbIdempotency db')"
proof -
  from assms(1) show "db' = db\<lparr>dbIdempotency := dbIdempotency db'\<rparr>"
    by (auto simp: expireIdempotency_def Let_def split: if_splits)
  define gone where "gone = rpDeleted pass
    (filter (\<lambda>r. time_Before (idExpiresAt r) (storedInstant (rpDriver pass) (rpNow pass))) (dbIdempotency db))"
  have "set gone \<subseteq> {r \<in> set (dbIdempotency db). time_Before (idExpiresAt r) (storedInstant (rpDriver pass) (rpNow pass))}"
    using assms(2) unfolding limited_def gone_def by fastforce
  then have "set gone \<subseteq> {r \<in> set (dbIdempotency db). time_Before (idExpiresAt r) (rpNow pass)}"
    using storedInstant_le [of "rpDriver pass" "rpNow pass"] by (auto simp: time_Before_def)
  with assms(3) have "pruned (\<lambda>r. time_Before (idExpiresAt r) (rpNow pass)) (dbIdempotency db)
      (deleteKeys idKeyHash (map idKeyHash gone) (dbIdempotency db))"
    by (intro pruned_deleteKeys) (simp_all add: db_keys_def)
  with assms(1) show "pruned (\<lambda>r. time_Before (idExpiresAt r) (rpNow pass)) (dbIdempotency db) (dbIdempotency db')"
    by (auto simp: expireIdempotency_def Let_def gone_def split: if_splits)
qed

lemma findExpired_set:
  assumes "limited (rpFound pass)"
  shows "set (findExpired pass cutoff db) \<subseteq> {r \<in> set (dbEvaluations db). time_Before (evCreatedAt r) cutoff}"
  using assms unfolding findExpired_def limited_def by fastforce

lemma batch_keeps:
  assumes "db_keys db" and "set expired \<subseteq> {r \<in> set (dbEvaluations db). gone r}" and "ids = evaluationIDs expired"
  shows "pruned gone (dbEvaluations db) (dbEvaluations (deleteEvaluations ids db))"
    and "pruned (\<lambda>f. fbEvaluationID f \<in> set ids) (dbFeedback db) (dbFeedback (deleteFeedback ids db))"
    and "db_references db \<Longrightarrow> db_references (deleteFeedback ids db)"
    and "db_references db \<Longrightarrow> db_references (deleteEvaluations ids (deleteFeedback ids db))"
proof -
  show "pruned gone (dbEvaluations db) (dbEvaluations (deleteEvaluations ids db))"
    using assms by (auto simp: deleteEvaluations_def evaluationIDs_def db_keys_def intro!: pruned_deleteKeys)
  show "pruned (\<lambda>f. fbEvaluationID f \<in> set ids) (dbFeedback db) (dbFeedback (deleteFeedback ids db))"
    unfolding pruned_def deleteFeedback_def by auto
  show "db_references db \<Longrightarrow> db_references (deleteFeedback ids db)"
    "db_references db \<Longrightarrow> db_references (deleteEvaluations ids (deleteFeedback ids db))"
    by (auto simp: db_references_def deleteFeedback_def deleteEvaluations_def deleteKeys_def image_subset_iff)
qed

lemma expireEvaluations_cases:
  assumes "expireEvaluations pass cutoff db = (db', counts, err)"
  defines "ids \<equiv> evaluationIDs (findExpired pass cutoff db)"
  shows "db' = db \<or> db' = deleteFeedback ids db \<or> db' = deleteEvaluations ids (deleteFeedback ids db)"
  using assms by (auto simp: expireEvaluations_def Let_def split: if_splits)

lemma expireEvaluations_keeps:
  assumes "expireEvaluations pass cutoff db = (db', counts, err)" and "limited (rpFound pass)" and "db_keys db"
  shows "dbSnapshots db' = dbSnapshots db" and "dbIdempotency db' = dbIdempotency db"
    and "pruned (\<lambda>r. time_Before (evCreatedAt r) cutoff) (dbEvaluations db) (dbEvaluations db')"
    and "pruned (\<lambda>f. fbEvaluationID f \<in> evID ` {r \<in> set (dbEvaluations db). time_Before (evCreatedAt r) cutoff})
      (dbFeedback db) (dbFeedback db')"
    and "db_references db \<Longrightarrow> db_references db'"
proof -
  define ids where "ids = evaluationIDs (findExpired pass cutoff db)"
  note shape = expireEvaluations_cases [OF assms(1), folded ids_def]
  note batch = batch_keeps [OF assms(3) findExpired_set [OF assms(2)] ids_def]
  from shape show "dbSnapshots db' = dbSnapshots db" "dbIdempotency db' = dbIdempotency db"
    by (auto simp: deleteFeedback_def deleteEvaluations_def)
  have "dbEvaluations db' \<in> {dbEvaluations db, dbEvaluations (deleteEvaluations ids db)}"
    using shape by (auto simp: deleteFeedback_def deleteEvaluations_def)
  with batch(1) show "pruned (\<lambda>r. time_Before (evCreatedAt r) cutoff) (dbEvaluations db) (dbEvaluations db')"
    by auto
  have "set ids \<subseteq> evID ` {r \<in> set (dbEvaluations db). time_Before (evCreatedAt r) cutoff}"
    using findExpired_set [OF assms(2)] unfolding ids_def evaluationIDs_def by fastforce
  then have "pruned (\<lambda>f. fbEvaluationID f \<in> evID ` {r \<in> set (dbEvaluations db).
      time_Before (evCreatedAt r) cutoff}) (dbFeedback db) (dbFeedback (deleteFeedback ids db))"
    by (intro pruned_mono [OF batch(2)]) (rule subsetD)
  moreover have "dbFeedback db' \<in> {dbFeedback db, dbFeedback (deleteFeedback ids db)}"
    using shape by (auto simp: deleteFeedback_def deleteEvaluations_def)
  ultimately show "pruned (\<lambda>f. fbEvaluationID f \<in> evID ` {r \<in> set (dbEvaluations db).
      time_Before (evCreatedAt r) cutoff}) (dbFeedback db) (dbFeedback db')"
    by (metis (no_types, lifting) empty_iff insert_iff pruned_refl)
  from shape batch(3, 4) show "db_references db \<Longrightarrow> db_references db'" by auto
qed

lemma cleanup_split:
  assumes "cleanup settings pass db = (db', deleted, err)"
  obtains (Stopped) n where "expireIdempotency pass db = (db', n, err)"
      and "deleted = [(retentionOpIdempotency, n)]" and "err \<noteq> None \<or> rtEvaluations settings \<le> 0"
  | (Aged) db1 n m k where "expireIdempotency pass db = (db1, n, None)" and "0 < rtEvaluations settings"
      and "expireEvaluations pass (cutoff_of settings pass) db1 = (db', (m, k), err)"
      and "deleted = [(retentionOpIdempotency, n), (retentionOpEvaluations, m), (retentionOpFeedback, k)]"
  using assms that by (auto simp: cleanup_def Let_def split: prod.splits if_splits)

lemma cleanup_keeps:
  assumes "cleanup settings pass db = (db', deleted, err)" and "pass_ok pass" and "db_keys db"
  shows "dbSnapshots db' = dbSnapshots db" and "db_keys db'" and "db_references db \<Longrightarrow> db_references db'"
    and "pruned (\<lambda>r. time_Before (idExpiresAt r) (rpNow pass)) (dbIdempotency db) (dbIdempotency db')"
    and "pruned (\<lambda>r. 0 < rtEvaluations settings \<and> time_Before (evCreatedAt r) (cutoff_of settings pass))
      (dbEvaluations db) (dbEvaluations db')"
    and "pruned (\<lambda>f. 0 < rtEvaluations settings \<and> fbEvaluationID f \<in> evID ` {r \<in> set (dbEvaluations db).
      time_Before (evCreatedAt r) (cutoff_of settings pass)}) (dbFeedback db) (dbFeedback db')"
proof -
  have limits: "limited (rpDeleted pass)" "limited (rpFound pass)"
    using assms(2) limited_select_limited by (auto simp: pass_ok_def)
  have keys: "db_keys x" if "x = db\<lparr>dbIdempotency := t\<rparr>"
    "pruned (\<lambda>r. time_Before (idExpiresAt r) (rpNow pass)) (dbIdempotency db) t" for x t
    using assms(3) prunedD(3) [OF that(2), of idKeyHash] that(1) by (simp add: db_keys_def)
  have "dbSnapshots db' = dbSnapshots db \<and> db_keys db' \<and> (db_references db \<longrightarrow> db_references db') \<and>
    pruned (\<lambda>r. time_Before (idExpiresAt r) (rpNow pass)) (dbIdempotency db) (dbIdempotency db') \<and>
    pruned (\<lambda>r. 0 < rtEvaluations settings \<and> time_Before (evCreatedAt r) (cutoff_of settings pass))
      (dbEvaluations db) (dbEvaluations db') \<and>
    pruned (\<lambda>f. 0 < rtEvaluations settings \<and> fbEvaluationID f \<in> evID ` {r \<in> set (dbEvaluations db).
      time_Before (evCreatedAt r) (cutoff_of settings pass)}) (dbFeedback db) (dbFeedback db')"
    using assms(1)
  proof (cases rule: cleanup_split)
    case (Stopped n)
    note idem = expireIdempotency_pruned [OF Stopped(1) limits(1) assms(3)]
    have same: "dbSnapshots db' = dbSnapshots db" "dbEvaluations db' = dbEvaluations db" "dbFeedback db' = dbFeedback db"
      using arg_cong [OF idem(1), of dbSnapshots] arg_cong [OF idem(1), of dbEvaluations]
        arg_cong [OF idem(1), of dbFeedback] by simp_all
    with idem keys [OF idem] show ?thesis by (simp add: db_references_def)
  next
    case (Aged db1 n m k)
    note idem = expireIdempotency_pruned [OF Aged(1) limits(1) assms(3)]
    note k1 = keys [OF idem]
    note ev = expireEvaluations_keeps [OF Aged(3) limits(2) k1]
    have same: "dbSnapshots db1 = dbSnapshots db" "dbEvaluations db1 = dbEvaluations db" "dbFeedback db1 = dbFeedback db"
      using arg_cong [OF idem(1), of dbSnapshots] arg_cong [OF idem(1), of dbEvaluations]
        arg_cong [OF idem(1), of dbFeedback] by simp_all
    from ev(1-4) k1 have "db_keys db'"
      using prunedD(3) [OF ev(3), of evID] prunedD(3) [OF ev(4), of fbID] by (simp add: db_keys_def)
    with ev idem same Aged(2) show ?thesis by (simp add: db_references_def)
  qed
  then show "dbSnapshots db' = dbSnapshots db" and "db_keys db'" and "db_references db \<Longrightarrow> db_references db'"
    and "pruned (\<lambda>r. time_Before (idExpiresAt r) (rpNow pass)) (dbIdempotency db) (dbIdempotency db')"
    and "pruned (\<lambda>r. 0 < rtEvaluations settings \<and> time_Before (evCreatedAt r) (cutoff_of settings pass))
      (dbEvaluations db) (dbEvaluations db')"
    and "pruned (\<lambda>f. 0 < rtEvaluations settings \<and> fbEvaluationID f \<in> evID ` {r \<in> set (dbEvaluations db).
      time_Before (evCreatedAt r) (cutoff_of settings pass)}) (dbFeedback db) (dbFeedback db')"
    by blast+
qed

section \<open>Progress\<close>

definition expired_rows :: "instant \<Rightarrow> DB \<Rightarrow> EvaluationRow list" where
  "expired_rows cutoff db = filter (\<lambda>r. time_Before (evCreatedAt r) cutoff) (dbEvaluations db)"

definition faultless :: "RetentionPass \<Rightarrow> bool" where
  "faultless pass \<longleftrightarrow> pass_ok pass \<and> (\<forall>st. \<not> rpFails pass st)"

lemma length_deleteKeys:
  assumes "distinct (map key rows)" and "mset picked \<subseteq># mset rows"
  shows "length (deleteKeys key (map key picked) rows) = length rows - length picked"
proof -
  have inj: "inj_on key (set rows)" and d: "distinct rows" using assms(1) by (simp_all add: distinct_map)
  have sub: "set picked \<subseteq> set rows" using assms(2) by (metis set_mset_mono set_mset_mset)
  have dp: "distinct picked"
    unfolding distinct_count_atmost_1
  proof
    fix a
    have "count (mset picked) a \<le> count (mset rows) a" by (rule mset_subset_eq_count [OF assms(2)])
    also have "\<dots> \<le> 1" using d by (simp add: distinct_count_atmost_1)
    finally show "count (mset picked) a = (if a \<in> set picked then 1 else 0)"
      using count_greater_zero_iff [of "mset picked" a] by (auto simp del: count_greater_zero_iff)
  qed
  have "set (deleteKeys key (map key picked) rows) = set rows - set picked"
    using inj sub by (auto simp: deleteKeys_def dest!: inj_onD)
  moreover have "distinct (deleteKeys key (map key picked) rows)" using d by (simp add: deleteKeys_def)
  ultimately show ?thesis
    using d dp sub by (metis card_Diff_subset distinct_card finite_set)
qed

lemma expired_rows_mono: "c \<le> c' \<Longrightarrow> mset (expired_rows c db) \<subseteq># mset (expired_rows c' db)"
proof -
  assume "c \<le> c'"
  then have "expired_rows c db = filter (\<lambda>r. time_Before (evCreatedAt r) c) (expired_rows c' db)"
    by (auto simp: expired_rows_def time_Before_def intro!: filter_cong)
  then show ?thesis by (metis mset_filter multiset_filter_subset)
qed

lemma expireEvaluations_progress:
  assumes "faultless pass" and "db_keys db" and "expireEvaluations pass cutoff db = (db', (m, k), err)"
  shows "err = None" and "length (dbEvaluations db) = nat m + length (dbEvaluations db')"
    and "nat m = min retentionBatchSize (length (expired_rows cutoff db))"
    and "cutoff \<le> c \<Longrightarrow> length (expired_rows c db') = length (expired_rows c db) - nat m"
    and "int (length (dbFeedback db)) = k + int (length (dbFeedback db'))"
proof -
  define picked where "picked = findExpired pass cutoff db"
  define ids where "ids = evaluationIDs picked"
  have sub: "mset picked \<subseteq># mset (expired_rows cutoff db)"
    and len: "length picked = min retentionBatchSize (length (expired_rows cutoff db))"
    using assms(1) unfolding faultless_def pass_ok_def limited_select_def picked_def findExpired_def
      expired_rows_def by blast+
  have sub': "mset picked \<subseteq># mset (dbEvaluations db)"
    using sub unfolding expired_rows_def by (metis mset_filter multiset_filter_subset subset_mset.trans)
  have keys: "distinct (map evID (dbEvaluations db))" "distinct (map evID (expired_rows c db))" for c
    using assms(2) by (simp_all add: db_keys_def expired_rows_def distinct_map_filter)
  have all: "length (dbEvaluations (deleteEvaluations ids db)) = length (dbEvaluations db) - length picked"
    using length_deleteKeys [OF keys(1) sub'] by (simp add: deleteEvaluations_def ids_def evaluationIDs_def)
  have old: "length (expired_rows c (deleteEvaluations ids db)) = length (expired_rows c db) - length picked"
    if "cutoff \<le> c" for c
  proof -
    have "expired_rows c (deleteEvaluations ids db) = deleteKeys evID (map evID picked) (expired_rows c db)"
      by (simp add: expired_rows_def deleteEvaluations_def ids_def evaluationIDs_def deleteKeys_def conj_commute)
    with length_deleteKeys [OF keys(2) subset_mset.trans [OF sub expired_rows_mono [OF that]]] show ?thesis by simp
  qed
  have fits: "length picked \<le> length (dbEvaluations db)" using size_mset_mono [OF sub'] by simp
  have frame: "dbEvaluations (deleteFeedback ids db) = dbEvaluations db"
    "dbEvaluations (deleteEvaluations ids (deleteFeedback ids db)) = dbEvaluations (deleteEvaluations ids db)"
    "dbFeedback (deleteEvaluations ids x) = dbFeedback x"
    "expired_rows c (deleteEvaluations ids (deleteFeedback ids db)) = expired_rows c (deleteEvaluations ids db)"
    for x c by (simp_all add: deleteFeedback_def deleteEvaluations_def expired_rows_def)
  have run: "picked = [] \<and> db' = db \<and> m = 0 \<and> k = 0 \<and> err = None \<or>
    picked \<noteq> [] \<and> db' = deleteEvaluations ids (deleteFeedback ids db) \<and> err = None \<and>
    m = int (length (dbEvaluations db)) - int (length (dbEvaluations (deleteEvaluations ids db))) \<and>
    k = int (length (dbFeedback db)) - int (length (dbFeedback (deleteFeedback ids db)))"
    using assms(1, 3) by (auto simp: expireEvaluations_def faultless_def Let_def frame
        picked_def [symmetric] ids_def [symmetric] split: if_splits)
  then show "err = None" by auto
  from run show "length (dbEvaluations db) = nat m + length (dbEvaluations db')" using all frame(2) by auto
  from run have m: "nat m = length picked" using all fits by auto
  with len show "nat m = min retentionBatchSize (length (expired_rows cutoff db))" by simp
  from run show "cutoff \<le> c \<Longrightarrow> length (expired_rows c db') = length (expired_rows c db) - nat m"
    using old frame(4) m by auto
  from run show "int (length (dbFeedback db)) = k + int (length (dbFeedback db'))" using frame(3) by auto
qed

lemma cleanup_progress:
  assumes "faultless pass" and "db_keys db" and "0 < rtEvaluations settings"
    and "cleanup settings pass db = (db', deleted, err)"
  shows "err = None" and "\<exists>m. map_of deleted retentionOpEvaluations = Some m \<and>
    nat m = min retentionBatchSize (length (expired_rows (cutoff_of settings pass) db)) \<and>
    (\<forall>c \<ge> cutoff_of settings pass. length (expired_rows c db') = length (expired_rows c db) - nat m)"
proof -
  obtain db1 n m k where run: "expireIdempotency pass db = (db1, n, None)"
    "expireEvaluations pass (cutoff_of settings pass) db1 = (db', (m, k), err)"
    and deleted: "deleted = [(retentionOpIdempotency, n), (retentionOpEvaluations, m), (retentionOpFeedback, k)]"
    using assms(4)
  proof (cases rule: cleanup_split)
    case (Stopped n)
    with assms(1, 3) have False by (auto simp: expireIdempotency_def faultless_def Let_def split: if_splits)
    then show ?thesis ..
  qed (rule that)
  have limit: "limited (rpDeleted pass)" using assms(1) by (simp add: faultless_def pass_ok_def)
  note idem = expireIdempotency_pruned [OF run(1) limit assms(2)]
  have k1: "db_keys db1"
    using assms(2) prunedD(3) [OF idem(2), of idKeyHash] by (subst idem(1)) (simp add: db_keys_def)
  note progress = expireEvaluations_progress [OF assms(1) k1 run(2)]
  from progress(1) show "err = None" .
  have "expired_rows c db1 = expired_rows c db" for c
    using arg_cong [OF idem(1), of dbEvaluations] by (simp add: expired_rows_def)
  with progress(3, 4) show "\<exists>m. map_of deleted retentionOpEvaluations = Some m \<and>
    nat m = min retentionBatchSize (length (expired_rows (cutoff_of settings pass) db)) \<and>
    (\<forall>c \<ge> cutoff_of settings pass. length (expired_rows c db') = length (expired_rows c db) - nat m)"
    by (intro exI [of _ m]) (auto simp: deleted retentionOpEvaluations_def retentionOpIdempotency_def)
qed

lemma runRetention_keeps:
  assumes "runRetention settings ticks db = (db', runs)" and "\<forall>pass \<in> set ticks. pass_ok pass" and "db_keys db"
  shows "db_keys db' \<and> dbSnapshots db' = dbSnapshots db \<and> (db_references db \<longrightarrow> db_references db') \<and>
    set (dbEvaluations db') \<subseteq> set (dbEvaluations db) \<and> length runs = length ticks"
  using assms
proof (induction ticks arbitrary: db runs)
  case (Cons pass ticks)
  obtain db1 deleted err where pass: "cleanup settings pass db = (db1, deleted, err)" by (metis prod_cases3)
  obtain runs1 where rest: "runRetention settings ticks db1 = (db', runs1)" and runs: "runs = (err \<noteq> None, deleted) # runs1"
    using Cons.prems(1) pass by (auto split: prod.splits)
  have "pass_ok pass" using Cons.prems(2) by simp
  note keep = cleanup_keeps [OF pass this Cons.prems(3)]
  have "\<forall>p \<in> set ticks. pass_ok p" using Cons.prems(2) by simp
  from Cons.IH [OF rest this keep(2)] keep(1, 3) prunedD(1) [OF keep(5)] runs show ?case by auto
qed simp

text \<open>Passes with a cutoff between \<open>low\<close> and \<open>high\<close> clear everything older than \<open>low\<close>.\<close>

lemma runRetention_clears:
  assumes "runRetention settings ticks db = (db', runs)" and "\<forall>pass \<in> set ticks. faultless pass"
    and "0 < rtEvaluations settings" and "db_keys db"
    and "\<forall>pass \<in> set ticks. low \<le> cutoff_of settings pass \<and> cutoff_of settings pass \<le> high" and "low \<le> high"
    and "length (expired_rows high db) \<le> length ticks * retentionBatchSize \<or> expired_rows low db = []"
  shows "expired_rows low db' = []"
  using assms
proof (induction ticks arbitrary: db runs)
  case Nil
  then show ?case by (auto simp: expired_rows_def filter_empty_conv time_Before_def)
next
  case (Cons pass ticks)
  obtain db1 deleted err where pass: "cleanup settings pass db = (db1, deleted, err)" by (metis prod_cases3)
  obtain runs1 where rest: "runRetention settings ticks db1 = (db', runs1)"
    using Cons.prems(1) pass by (auto split: prod.splits)
  let ?c = "cutoff_of settings pass"
  have fine: "faultless pass" "low \<le> ?c" "?c \<le> high" using Cons.prems(2, 5) by simp_all
  then have ok: "pass_ok pass" by (simp add: faultless_def)
  note keep = cleanup_keeps [OF pass ok Cons.prems(4)]
  obtain m where m: "nat m = min retentionBatchSize (length (expired_rows ?c db))"
    and less: "\<forall>c \<ge> ?c. length (expired_rows c db1) = length (expired_rows c db) - nat m"
    using cleanup_progress(2) [OF fine(1) Cons.prems(4, 3) pass] by blast
  have sub: "set (dbEvaluations db1) \<subseteq> set (dbEvaluations db)" by (rule prunedD(1) [OF keep(5)])
  have "length (expired_rows high db1) \<le> length ticks * retentionBatchSize \<or> expired_rows low db1 = []"
  proof (cases "expired_rows low db = []")
    case True
    with sub show ?thesis by (auto simp: expired_rows_def filter_empty_conv)
  next
    case False
    show ?thesis
    proof (cases "length (expired_rows ?c db) \<le> retentionBatchSize")
      case True
      with m have "nat m = length (expired_rows ?c db)" by simp
      with less have "length (expired_rows ?c db1) = 0" by (metis diff_self_eq_0 order_refl)
      with fine(2) show ?thesis by (auto simp: expired_rows_def filter_empty_conv time_Before_def)
    next
      case large: False
      with m less fine(3) have "length (expired_rows high db1) = length (expired_rows high db) - retentionBatchSize"
        by simp
      with False Cons.prems(7) show ?thesis by auto
    qed
  qed
  with Cons.IH [OF rest] Cons.prems(2, 3, 5, 6) keep(2) show ?case by simp
qed

end
