(* ===== verification/Metrics.thy ===== *)
theory Metrics
  imports EvaluationFacts Retention "HOL-Library.Word"
begin

text \<open>
  The instruments of the process (\<open>internal/pkg/metrics/metrics.go\<close>) and the database callbacks
  that feed one of them (\<open>internal/pkg/db/metrics.go\<close>). A vector keeps its series by label values;
  an operation gives the new state and whether it panicked, because the state it leaves behind
  outlives a recovered panic. The library behind it panics on the wrong number of label values,
  on a label value that is not UTF-8 and on a negative addition to a counter. The lemmas show that
  the instruments are registered once, when an observation returns, and what the counters and
  gauges read after it; the pipeline's use of them is the locale \<open>observer\<close>.
\<close>

section \<open>Instruments\<close>

record 'v vec =
  vcName :: string
  vcLabels :: "string list"
  vcSeries :: "string list \<rightharpoonup> 'v"

text \<open>
  A counter is an unsigned 64-bit integer: every addition of the program is the image of an integer,
  for which the library keeps that part. A gauge of requests in flight is an integer.
\<close>

type_synonym counter = "64 word"

record gaugeValue =
  ggName :: string
  ggValue :: int

record histogramValue =
  hgName :: string
  hgBounds :: "float64 list"
  hgCounts :: "counter list"
  hgSum :: float64

fun SearchFloat64s :: "float64 list \<Rightarrow> float64 \<Rightarrow> nat" where
  "SearchFloat64s [] v = 0"
| "SearchFloat64s (b # bs) v = (if f64_le v b then 0 else Suc (SearchFloat64s bs v))"

definition emptyHistogram :: "string \<Rightarrow> float64 list \<Rightarrow> histogramValue" where
  "emptyHistogram name bounds =
     \<lparr>hgName = name, hgBounds = bounds, hgCounts = replicate (Suc (length bounds)) 0, hgSum = Fin 0\<rparr>"

definition Observe :: "float64 \<Rightarrow> histogramValue \<Rightarrow> histogramValue" where
  "Observe v h = (let bucket = SearchFloat64s (hgBounds h) v in
     h\<lparr>hgCounts := (hgCounts h)[bucket := hgCounts h ! bucket + 1], hgSum := f64_add (hgSum h) v\<rparr>)"

definition validUTF8 :: "string \<Rightarrow> bool" where
  "validUTF8 s \<longleftrightarrow> sanitise s = s"

definition labels_ok :: "'v vec \<Rightarrow> string list \<Rightarrow> bool" where
  "labels_ok v ls \<longleftrightarrow> length ls = length (vcLabels v) \<and> list_all validUTF8 ls"

definition WithLabelValues :: "'v \<Rightarrow> string list \<Rightarrow> ('v \<Rightarrow> 'v \<times> bool) \<Rightarrow> 'v vec \<Rightarrow> 'v vec \<times> bool" where
  "WithLabelValues new ls f v =
     (if \<not> labels_ok v ls then (v, True)
      else case f (case vcSeries v ls of None \<Rightarrow> new | Some x \<Rightarrow> x) of
        (x, panics) \<Rightarrow> (v\<lparr>vcSeries := (vcSeries v)(ls \<mapsto> x)\<rparr>, panics))"

definition counter_Add :: "int \<Rightarrow> counter \<Rightarrow> counter \<times> bool" where
  "counter_Add n c = (let v = f64_of_int n in
     if f64_lt v (Fin 0) then (c, True) else (c + of_int \<lfloor>f64_rat v\<rfloor>, False))"

definition counter_Inc :: "counter \<Rightarrow> counter \<times> bool" where
  "counter_Inc c = (c + 1, False)"

section \<open>The set of instruments\<close>

definition namespace :: string where "namespace = ''vibecheck''"

definition BuildFQName :: "string \<Rightarrow> string \<Rightarrow> string" where
  "BuildFQName subsystem name = namespace @ ''_'' @ subsystem @ ''_'' @ name"

definition subsystemHTTP :: string where "subsystemHTTP = ''http''"
definition subsystemMCP :: string where "subsystemMCP = ''mcp''"
definition subsystemProvider :: string where "subsystemProvider = ''provider''"
definition subsystemModel :: string where "subsystemModel = ''model''"
definition subsystemEvaluation :: string where "subsystemEvaluation = ''evaluation''"
definition subsystemDB :: string where "subsystemDB = ''db''"
definition subsystemRetention :: string where "subsystemRetention = ''retention''"
definition subsystemBuild :: string where "subsystemBuild = ''build''"

definition labelMethod :: string where "labelMethod = ''method''"
definition labelRoute :: string where "labelRoute = ''route''"
definition labelStatus :: string where "labelStatus = ''status''"
definition labelTool :: string where "labelTool = ''tool''"
definition labelOutcomeClass :: string where "labelOutcomeClass = ''outcome_class''"
definition labelStatusClass :: string where "labelStatusClass = ''status_class''"
definition labelModel :: string where "labelModel = ''model''"
definition labelPolicyKind :: string where "labelPolicyKind = ''policy_kind''"
definition labelOutcome :: string where "labelOutcome = ''outcome''"
definition labelExecutionPath :: string where "labelExecutionPath = ''execution_path''"
definition labelOperation :: string where "labelOperation = ''operation''"
definition labelResult :: string where "labelResult = ''result''"
definition labelVersion :: string where "labelVersion = ''version''"
definition labelCommit :: string where "labelCommit = ''commit''"

definition attemptBuckets :: "float64 list" where
  "attemptBuckets = [Fin 1, Fin 2, Fin 3, Fin 4, Fin 5, Fin 10]"

definition durationBuckets :: "float64 list" where
  "durationBuckets = map round64 [5/1000, 1/100, 25/1000, 5/100, 1/10, 25/100, 5/10, 1, 25/10, 5, 10, 30]"

definition OutcomeClassSuccess :: string where "OutcomeClassSuccess = ''success''"
definition OutcomeClassError :: string where "OutcomeClassError = ''error''"

record Metrics =
  mtRegistry :: "string list"
  httpRequests :: "counter vec"
  httpDuration :: "histogramValue vec"
  httpInFlight :: gaugeValue
  mcpCalls :: "counter vec"
  mcpDuration :: "histogramValue vec"
  mcpInFlight :: gaugeValue
  providerRequests :: "counter vec"
  providerDuration :: "histogramValue vec"
  providerAttempts :: histogramValue
  providerInFlight :: gaugeValue
  modelInputTokens :: "counter vec"
  modelOutputTokens :: "counter vec"
  evaluations :: "counter vec"
  evaluationDuration :: "histogramValue vec"
  dbOperations :: "counter vec"
  dbDuration :: "histogramValue vec"
  retentionRuns :: "counter vec"
  retentionDeleted :: "counter vec"
  buildInfo :: "int vec"

definition counterVec :: "string \<Rightarrow> string \<Rightarrow> string list \<Rightarrow> counter vec" where
  "counterVec subsystem name labels = \<lparr>vcName = BuildFQName subsystem name, vcLabels = labels, vcSeries = (\<lambda>_. None)\<rparr>"

definition histogramVec :: "string \<Rightarrow> string \<Rightarrow> string list \<Rightarrow> histogramValue vec" where
  "histogramVec subsystem name labels = \<lparr>vcName = BuildFQName subsystem name, vcLabels = labels, vcSeries = (\<lambda>_. None)\<rparr>"

definition histogram :: "string \<Rightarrow> string \<Rightarrow> float64 list \<Rightarrow> histogramValue" where
  "histogram subsystem name buckets = emptyHistogram (BuildFQName subsystem name) buckets"

definition newGauge :: "string \<Rightarrow> string \<Rightarrow> gaugeValue" where
  "newGauge subsystem name = \<lparr>ggName = BuildFQName subsystem name, ggValue = 0\<rparr>"

definition gaugeVec :: "string \<Rightarrow> string \<Rightarrow> string list \<Rightarrow> int vec" where
  "gaugeVec subsystem name labels = \<lparr>vcName = BuildFQName subsystem name, vcLabels = labels, vcSeries = (\<lambda>_. None)\<rparr>"

text \<open>The value \<open>New\<close> starts from, with nothing but a registry, and the functions that fill it.\<close>

definition nilVec :: "'v vec" where
  "nilVec = \<lparr>vcName = [], vcLabels = [], vcSeries = (\<lambda>_. None)\<rparr>"

definition bareMetrics :: Metrics where
  "bareMetrics = (let g = \<lparr>ggName = [], ggValue = 0\<rparr> in
     \<lparr>mtRegistry = [], httpRequests = nilVec, httpDuration = nilVec, httpInFlight = g, mcpCalls = nilVec,
      mcpDuration = nilVec, mcpInFlight = g, providerRequests = nilVec, providerDuration = nilVec,
      providerAttempts = emptyHistogram [] [], providerInFlight = g, modelInputTokens = nilVec,
      modelOutputTokens = nilVec, evaluations = nilVec, evaluationDuration = nilVec, dbOperations = nilVec,
      dbDuration = nilVec, retentionRuns = nilVec, retentionDeleted = nilVec, buildInfo = nilVec\<rparr>)"

definition initHTTP :: "Metrics \<Rightarrow> Metrics" where
  "initHTTP m = m\<lparr>
     httpRequests := counterVec subsystemHTTP ''requests_total'' [labelMethod, labelRoute, labelStatus],
     httpDuration := histogramVec subsystemHTTP ''request_duration_seconds'' [labelMethod, labelRoute],
     httpInFlight := newGauge subsystemHTTP ''in_flight_requests''\<rparr>"

definition initMCP :: "Metrics \<Rightarrow> Metrics" where
  "initMCP m = m\<lparr>
     mcpCalls := counterVec subsystemMCP ''tool_calls_total'' [labelTool, labelOutcomeClass],
     mcpDuration := histogramVec subsystemMCP ''tool_duration_seconds'' [labelTool],
     mcpInFlight := newGauge subsystemMCP ''in_flight_calls''\<rparr>"

definition initProvider :: "Metrics \<Rightarrow> Metrics" where
  "initProvider m = m\<lparr>
     providerRequests := counterVec subsystemProvider ''requests_total'' [labelStatusClass, labelOutcomeClass],
     providerDuration := histogramVec subsystemProvider ''request_duration_seconds'' [labelOutcomeClass],
     providerAttempts := histogram subsystemProvider ''attempts_per_call'' attemptBuckets,
     providerInFlight := newGauge subsystemProvider ''in_flight_requests''\<rparr>"

definition initModel :: "Metrics \<Rightarrow> Metrics" where
  "initModel m = m\<lparr>
     modelInputTokens := counterVec subsystemModel ''input_tokens_total'' [labelModel],
     modelOutputTokens := counterVec subsystemModel ''output_tokens_total'' [labelModel]\<rparr>"

definition initEvaluation :: "Metrics \<Rightarrow> Metrics" where
  "initEvaluation m = m\<lparr>
     evaluations := counterVec subsystemEvaluation ''total'' [labelPolicyKind, labelOutcome, labelExecutionPath],
     evaluationDuration := histogramVec subsystemEvaluation ''duration_seconds'' [labelPolicyKind, labelExecutionPath]\<rparr>"

definition initDB :: "Metrics \<Rightarrow> Metrics" where
  "initDB m = m\<lparr>
     dbOperations := counterVec subsystemDB ''operations_total'' [labelOperation, labelOutcomeClass],
     dbDuration := histogramVec subsystemDB ''operation_duration_seconds'' [labelOperation]\<rparr>"

definition initRetention :: "Metrics \<Rightarrow> Metrics" where
  "initRetention m = m\<lparr>
     retentionRuns := counterVec subsystemRetention ''runs_total'' [labelResult],
     retentionDeleted := counterVec subsystemRetention ''rows_deleted_total'' [labelOperation]\<rparr>"

definition initBuild :: "Metrics \<Rightarrow> Metrics" where
  "initBuild m = m\<lparr>buildInfo := gaugeVec subsystemBuild ''info'' [labelVersion, labelCommit]\<rparr>"

text \<open>The names of the two standard collectors start with \<open>go_\<close> and \<open>process_\<close>; registering a name twice panics.\<close>

definition instrumentNames :: "Metrics \<Rightarrow> string list" where
  "instrumentNames m =
     [vcName (httpRequests m), vcName (httpDuration m), ggName (httpInFlight m),
      vcName (mcpCalls m), vcName (mcpDuration m), ggName (mcpInFlight m),
      vcName (providerRequests m), vcName (providerDuration m), hgName (providerAttempts m), ggName (providerInFlight m),
      vcName (modelInputTokens m), vcName (modelOutputTokens m), vcName (evaluations m), vcName (evaluationDuration m),
      vcName (dbOperations m), vcName (dbDuration m), vcName (retentionRuns m), vcName (retentionDeleted m),
      vcName (buildInfo m)]"

fun register :: "string list \<Rightarrow> string list \<Rightarrow> string list option" where
  "register registry [] = Some registry"
| "register registry (name # names) = (if name \<in> set registry then None else register (registry @ [name]) names)"

definition mustRegister :: "Metrics \<Rightarrow> Metrics option" where
  "mustRegister m = map_option (\<lambda>names. m\<lparr>mtRegistry := names\<rparr>) (register (mtRegistry m) (instrumentNames m))"

definition New :: "Metrics option" where
  "New = mustRegister (initBuild (initRetention (initDB (initEvaluation (initModel
     (initProvider (initMCP (initHTTP bareMetrics))))))))"

section \<open>Observations\<close>

text \<open>One instrument of the set changed, and the next operation only if the first returned.\<close>

definition upon :: "('m \<Rightarrow> 'v) \<Rightarrow> (('v \<Rightarrow> 'v) \<Rightarrow> 'm \<Rightarrow> 'm) \<Rightarrow> ('v \<Rightarrow> 'v \<times> bool) \<Rightarrow> 'm \<Rightarrow> 'm \<times> bool" where
  "upon get put f m = (put (\<lambda>_. fst (f (get m))) m, snd (f (get m)))"

definition followed :: "('m \<Rightarrow> 'm \<times> bool) \<Rightarrow> ('m \<Rightarrow> 'm \<times> bool) \<Rightarrow> 'm \<Rightarrow> 'm \<times> bool" where
  "followed a b m = (if snd (a m) then (fst (a m), True) else b (fst (a m)))"

definition IncVec :: "string list \<Rightarrow> counter vec \<Rightarrow> counter vec \<times> bool" where
  "IncVec ls = WithLabelValues 0 ls counter_Inc"

definition AddVec :: "int \<Rightarrow> string list \<Rightarrow> counter vec \<Rightarrow> counter vec \<times> bool" where
  "AddVec n ls = WithLabelValues 0 ls (counter_Add n)"

definition ObserveVec :: "float64 \<Rightarrow> string list \<Rightarrow> histogramValue vec \<Rightarrow> histogramValue vec \<times> bool" where
  "ObserveVec seconds ls v =
     WithLabelValues (emptyHistogram (vcName v) durationBuckets) ls (\<lambda>h. (Observe seconds h, False)) v"

definition gauge_Inc :: "gaugeValue \<Rightarrow> gaugeValue" where
  "gauge_Inc g = g\<lparr>ggValue := ggValue g + 1\<rparr>"

definition gauge_Dec :: "gaugeValue \<Rightarrow> gaugeValue" where
  "gauge_Dec g = g\<lparr>ggValue := ggValue g - 1\<rparr>"

definition SetBuildInfo :: "string \<Rightarrow> string \<Rightarrow> Metrics \<Rightarrow> Metrics \<times> bool" where
  "SetBuildInfo version commit =
     upon buildInfo buildInfo_update (WithLabelValues 0 [version, commit] (\<lambda>_. (1, False)))"

definition ObserveHTTP :: "string \<Rightarrow> string \<Rightarrow> int \<Rightarrow> float64 \<Rightarrow> Metrics \<Rightarrow> Metrics \<times> bool" where
  "ObserveHTTP verb route status seconds =
     followed (upon httpRequests httpRequests_update (IncVec [verb, route, Itoa status]))
       (upon httpDuration httpDuration_update (ObserveVec seconds [verb, route]))"

definition ObserveMCPTool :: "string \<Rightarrow> string \<Rightarrow> float64 \<Rightarrow> Metrics \<Rightarrow> Metrics \<times> bool" where
  "ObserveMCPTool tool outcomeClass seconds =
     followed (upon mcpCalls mcpCalls_update (IncVec [tool, outcomeClass]))
       (upon mcpDuration mcpDuration_update (ObserveVec seconds [tool]))"

definition statusClassDivisor :: int where "statusClassDivisor = 100"

definition statusClass :: "int \<Rightarrow> string" where
  "statusClass status =
     (if status = 0 then ''none''
      else Itoa (if status < 0 then - ((- status) div statusClassDivisor) else status div statusClassDivisor) @ ''xx'')"

definition outcomeClassOf :: "bool \<Rightarrow> string" where
  "outcomeClassOf failed = (if failed then OutcomeClassError else OutcomeClassSuccess)"

definition ObserveProviderAttempt :: "int \<Rightarrow> bool \<Rightarrow> float64 \<Rightarrow> Metrics \<Rightarrow> Metrics \<times> bool" where
  "ObserveProviderAttempt status failed seconds =
     followed (upon providerRequests providerRequests_update (IncVec [statusClass status, outcomeClassOf failed]))
       (upon providerDuration providerDuration_update (ObserveVec seconds [outcomeClassOf failed]))"

definition recordProviderCall :: "int \<Rightarrow> Metrics \<Rightarrow> Metrics \<times> bool" where
  "recordProviderCall attempts m = (m\<lparr>providerAttempts := Observe (f64_of_int attempts) (providerAttempts m)\<rparr>, False)"

definition recordCallStarted :: "Metrics \<Rightarrow> Metrics \<times> bool" where
  "recordCallStarted m = (m\<lparr>providerInFlight := gauge_Inc (providerInFlight m)\<rparr>, False)"

definition recordCallFinished :: "Metrics \<Rightarrow> Metrics \<times> bool" where
  "recordCallFinished m = (m\<lparr>providerInFlight := gauge_Dec (providerInFlight m)\<rparr>, False)"

definition recordTokens :: "string \<Rightarrow> int \<Rightarrow> int \<Rightarrow> Metrics \<Rightarrow> Metrics \<times> bool" where
  "recordTokens model i out m =
     (if model = [] then (m, False)
      else followed (upon modelInputTokens modelInputTokens_update (AddVec i [model]))
        (upon modelOutputTokens modelOutputTokens_update (AddVec out [model])) m)"

definition recordEvaluation :: "string \<Rightarrow> string \<Rightarrow> string \<Rightarrow> float64 \<Rightarrow> Metrics \<Rightarrow> Metrics \<times> bool" where
  "recordEvaluation policyKind outcome executionPath seconds =
     followed (upon evaluations evaluations_update (IncVec [policyKind, outcome, executionPath]))
       (upon evaluationDuration evaluationDuration_update (ObserveVec seconds [policyKind, executionPath]))"

definition ObserveDB :: "string \<Rightarrow> bool \<Rightarrow> float64 \<Rightarrow> Metrics \<Rightarrow> Metrics \<times> bool" where
  "ObserveDB operation failed seconds =
     followed (upon dbOperations dbOperations_update (IncVec [operation, outcomeClassOf failed]))
       (upon dbDuration dbDuration_update (ObserveVec seconds [operation]))"

fun addDeleted :: "(string, int) gomap \<Rightarrow> Metrics \<Rightarrow> Metrics \<times> bool" where
  "addDeleted [] m = (m, False)"
| "addDeleted ((operation, n) # rest) m =
     followed (upon retentionDeleted retentionDeleted_update (AddVec n [operation])) (addDeleted rest) m"

definition ObserveRetentionRun :: "bool \<Rightarrow> (string, int) gomap \<Rightarrow> Metrics \<Rightarrow> Metrics \<times> bool" where
  "ObserveRetentionRun failed deletedByOperation =
     followed (upon retentionRuns retentionRuns_update (IncVec [outcomeClassOf failed])) (addDeleted deletedByOperation)"

text \<open>\<open>time.Duration.Seconds\<close>: whole seconds and the rest, each as a float.\<close>

definition Seconds :: "duration \<Rightarrow> float64" where
  "Seconds d = (let n = \<bar>d\<bar>; s = (if d < 0 then - 1 else 1) in
     f64_add (f64_of_int (s * (n div 1000000000))) (round64 (of_int (s * (n mod 1000000000)) / 1000000000)))"

text \<open>The observer of the evaluation pipeline.\<close>

definition observe :: "event \<Rightarrow> Metrics \<Rightarrow> Metrics \<times> bool" where
  "observe e = (case e of
       ProviderCallStarted \<Rightarrow> recordCallStarted
     | ProviderCallFinished \<Rightarrow> recordCallFinished
     | ObserveProviderCall n \<Rightarrow> recordProviderCall n
     | ObserveTokens model i out \<Rightarrow> recordTokens model i out
     | ObserveEvaluation policyKind outcome path ms \<Rightarrow>
         recordEvaluation policyKind outcome path (Seconds (wrap64 (ms * 1000000))))"

fun observeAll :: "('e \<Rightarrow> 'm \<Rightarrow> 'm \<times> bool) \<Rightarrow> 'e list \<Rightarrow> 'm \<Rightarrow> 'm \<times> bool" where
  "observeAll obs [] m = (m, False)"
| "observeAll obs (e # es) m = followed (obs e) (observeAll obs es) m"

section \<open>Database callbacks\<close>

text \<open>
  The callbacks around one statement: the start time is kept on the statement under a key of the
  operation, and the finish hook reports nothing when it is missing or is not a time.
\<close>

definition callbackPrefix :: string where "callbackPrefix = ''vibecheck:metrics:''"

datatype setting = SettingTime instant | SettingOther

definition startKey :: "string \<Rightarrow> string" where
  "startKey operation = callbackPrefix @ operation @ '':started_at''"

definition beforeCallback :: "string \<Rightarrow> instant \<Rightarrow> (string, setting) gomap \<Rightarrow> (string, setting) gomap" where
  "beforeCallback operation now settings = AList.update (startKey operation) (SettingTime now) settings"

definition isOperationFailure :: "goerror option \<Rightarrow> bool" where
  "isOperationFailure err = (case err of None \<Rightarrow> False | Some e \<Rightarrow> ErrOther ''record not found'' \<notin> set e)"

definition afterCallback ::
  "string \<Rightarrow> instant \<Rightarrow> goerror option \<Rightarrow> (string, setting) gomap \<Rightarrow> Metrics \<Rightarrow> Metrics \<times> bool" where
  "afterCallback operation now err settings m =
     (case map_of settings (startKey operation) of
        None \<Rightarrow> (m, False)
      | Some SettingOther \<Rightarrow> (m, False)
      | Some (SettingTime startedAt) \<Rightarrow>
          ObserveDB operation (isOperationFailure err) (Seconds (time_Sub now startedAt)) m)"

definition observedOperations :: "string list" where
  "observedOperations = [''create'', ''query'', ''update'', ''delete'', ''row'', ''raw'']"

text \<open>The callbacks registered on the connection by name, in order; a registration may be refused.\<close>

definition registerPair :: "(string \<Rightarrow> goerror option) \<Rightarrow> string \<Rightarrow> string list \<Rightarrow> goerror + string list" where
  "registerPair refuse operation names =
     (let before = callbackPrefix @ operation @ ''_before''; after = callbackPrefix @ operation @ ''_after'' in
      case refuse before of
        Some e \<Rightarrow> Inl e
      | None \<Rightarrow> (case refuse after of Some e \<Rightarrow> Inl e | None \<Rightarrow> Inr (names @ [before, after])))"

fun registerPairs :: "(string \<Rightarrow> goerror option) \<Rightarrow> string list \<Rightarrow> string list \<Rightarrow> goerror + string list" where
  "registerPairs refuse [] names = Inr names"
| "registerPairs refuse (operation # rest) names = rbind (registerPair refuse operation names) (registerPairs refuse rest)"

definition registerObserver :: "(string \<Rightarrow> goerror option) \<Rightarrow> bool \<Rightarrow> goerror + string list" where
  "registerObserver refuse observed = (if \<not> observed then Inr [] else registerPairs refuse observedOperations [])"

section \<open>Registration\<close>

lemma register_distinct:
  "distinct (registry @ names) \<Longrightarrow> register registry names = Some (registry @ names)"
  by (induction registry names rule: register.induct) auto

lemmas instrument_defs = bareMetrics_def nilVec_def initHTTP_def initMCP_def initProvider_def initModel_def
  initEvaluation_def initDB_def initRetention_def initBuild_def counterVec_def histogramVec_def histogram_def
  newGauge_def gaugeVec_def emptyHistogram_def

text \<open>The number of labels every observation passes is the number its vector was made with.\<close>

definition metrics_ok :: "Metrics \<Rightarrow> bool" where
  "metrics_ok m \<longleftrightarrow>
     map (length \<circ> vcLabels)
       [httpRequests m, mcpCalls m, providerRequests m, modelInputTokens m, modelOutputTokens m, evaluations m,
        dbOperations m, retentionRuns m, retentionDeleted m] = [3, 2, 2, 1, 1, 3, 2, 1, 1] \<and>
     map (length \<circ> vcLabels)
       [httpDuration m, mcpDuration m, providerDuration m, evaluationDuration m, dbDuration m] = [2, 1, 1, 2, 1] \<and>
     length (vcLabels (buildInfo m)) = 2"

lemma New_registers:
  "\<exists>m. New = Some m \<and> metrics_ok m \<and> mtRegistry m = instrumentNames m \<and> ggValue (providerInFlight m) = 0 \<and>
     ggValue (httpInFlight m) = 0 \<and> ggValue (mcpInFlight m) = 0 \<and> vcSeries (httpRequests m) = (\<lambda>_. None)"
proof -
  define m0 where "m0 = initBuild (initRetention (initDB (initEvaluation (initModel (initProvider (initMCP
    (initHTTP bareMetrics)))))))"
  have "distinct (instrumentNames m0)" unfolding m0_def by code_simp
  moreover have "mtRegistry m0 = []" by (simp add: m0_def instrument_defs Let_def)
  ultimately have "New = Some (m0\<lparr>mtRegistry := instrumentNames m0\<rparr>)"
    using register_distinct [of "[]" "instrumentNames m0"] by (simp add: New_def mustRegister_def m0_def [symmetric])
  moreover have "instrumentNames (m0\<lparr>mtRegistry := x\<rparr>) = instrumentNames m0" "metrics_ok (m0\<lparr>mtRegistry := x\<rparr>) = metrics_ok m0" for x
    by (simp_all add: instrumentNames_def metrics_ok_def)
  moreover have "metrics_ok m0" "ggValue (providerInFlight m0) = 0 \<and> ggValue (httpInFlight m0) = 0 \<and>
      ggValue (mcpInFlight m0) = 0 \<and> vcSeries (httpRequests m0) = (\<lambda>_. None)"
    by (simp_all add: metrics_ok_def m0_def instrument_defs Let_def)
  ultimately show ?thesis by (intro exI [of _ "m0\<lparr>mtRegistry := instrumentNames m0\<rparr>"]) simp
qed

section \<open>When an observation returns\<close>

lemma sanitise_ascii: "list_all (\<lambda>c. byte c < 128) s \<Longrightarrow> sanitise s = s"
  by (induction s rule: sanitise.induct) (auto simp: rune_size.simps)

lemma validUTF8_ascii: "list_all (\<lambda>c. byte c < 128) s \<Longrightarrow> validUTF8 s"
  by (simp add: validUTF8_def sanitise_ascii)

lemma Itoa_ascii: "list_all (\<lambda>c. byte c < 128) (Itoa n)"
  using show_dec_digits [of n] show_dec_digits [of "- n"] by (auto simp: Itoa_def byte_def is_digit_def list_all_iff)

lemma word_ascii: "is_word_char c \<Longrightarrow> byte c < 128"
  by (auto simp: is_word_char_def is_letter_def is_digit_def in_range_def byte_def)

lemma outcome_ascii: "Outcome_IsValid s \<Longrightarrow> list_all (\<lambda>c. byte c < 128) s"
  by (cases s) (auto simp: Outcome_IsValid_def IsDashedIdentifier_def dashedIdentifierPattern_def list_all_iff byte_def
      is_letter_def in_range_def dest: word_ascii [unfolded byte_def])

lemma f64_of_int_nonneg: "0 \<le> n \<Longrightarrow> \<not> f64_lt (f64_of_int n) (Fin 0)"
proof -
  assume "0 \<le> n"
  then have sign: "\<not> (of_int n :: rat) < 0" by simp
  define v where "v = (let e = max (floor_log2 \<bar>of_int n :: rat\<bar> - (53 - 1)) (- 1074) in
    of_int (round_half_even (\<bar>of_int n :: rat\<bar> / pow2 e)) * pow2 e)"
  have "0 \<le> round_half_even q" if "0 \<le> q" for q
    using that by (auto simp: round_half_even_def Let_def intro: add_nonneg_nonneg)
  then have "0 \<le> v" unfolding v_def Let_def
    by (intro mult_nonneg_nonneg) (simp_all add: less_imp_le)
  moreover have "f64_of_int n \<in> {Fin 0, PosInf, Fin v}"
    using sign by (auto simp: f64_of_int_def round64_def round_bin_def v_def Let_def)
  ultimately show ?thesis by (auto simp: f64_lt_def)
qed

lemma counter_Add_exact: "0 \<le> n \<Longrightarrow> n < 2 ^ 53 \<Longrightarrow> counter_Add n c = (c + of_int n, False)"
  by (simp add: counter_Add_def f64_of_int_exact Let_def)

lemma counter_Add_negative: "- (2 ^ 53) < n \<Longrightarrow> n < 0 \<Longrightarrow> counter_Add n c = (c, True)"
  by (simp add: counter_Add_def f64_of_int_exact Let_def)

text \<open>What a vector reads: a series that was never touched reads zero.\<close>

definition reading :: "counter vec \<Rightarrow> string list \<Rightarrow> counter" where
  "reading v ls = (case vcSeries v ls of None \<Rightarrow> 0 | Some c \<Rightarrow> c)"

lemma WithLabelValues_frame [simp]:
  "vcLabels (fst (WithLabelValues new ls f v)) = vcLabels v" "vcName (fst (WithLabelValues new ls f v)) = vcName v"
  by (simp_all add: WithLabelValues_def split: prod.split)

lemma vec_frame [simp]:
  "vcLabels (fst (IncVec ls v)) = vcLabels v" "vcLabels (fst (AddVec n ls v)) = vcLabels v"
  "vcLabels (fst (ObserveVec x ls h)) = vcLabels h"
  "vcName (fst (IncVec ls v)) = vcName v" "vcName (fst (AddVec n ls v)) = vcName v"
  "vcName (fst (ObserveVec x ls h)) = vcName h"
  by (simp_all add: IncVec_def AddVec_def ObserveVec_def)

lemma vec_returns:
  "snd (IncVec ls v) \<longleftrightarrow> \<not> labels_ok v ls"
  "snd (ObserveVec x ls h) \<longleftrightarrow> \<not> labels_ok h ls"
  "0 \<le> n \<Longrightarrow> snd (AddVec n ls v) \<longleftrightarrow> \<not> labels_ok v ls"
  using f64_of_int_nonneg [of n]
  by (simp_all add: IncVec_def ObserveVec_def AddVec_def WithLabelValues_def counter_Inc_def counter_Add_def Let_def)

lemma reading_IncVec:
  "reading (fst (IncVec ls v)) = (if labels_ok v ls then (reading v)(ls := reading v ls + 1) else reading v)"
  by (auto simp: reading_def IncVec_def WithLabelValues_def counter_Inc_def split: option.splits)

lemma dom_IncVec: "labels_ok v ls \<Longrightarrow> dom (vcSeries (fst (IncVec ls v))) = insert ls (dom (vcSeries v))"
  by (auto simp: IncVec_def WithLabelValues_def counter_Inc_def)

lemma upon_simps [simp]:
  "fst (upon get put f m) = put (\<lambda>_. fst (f (get m))) m" "snd (upon get put f m) = snd (f (get m))"
  by (simp_all add: upon_def)

lemma followed_simps:
  "fst (followed a b m) = (if snd (a m) then fst (a m) else fst (b (fst (a m))))"
  "snd (followed a b m) \<longleftrightarrow> snd (a m) \<or> snd (b (fst (a m)))"
  by (simp_all add: followed_def)

lemma followed_keeps:
  "(\<And>m. P m \<Longrightarrow> P (fst (a m))) \<Longrightarrow> (\<And>m. P m \<Longrightarrow> P (fst (b m))) \<Longrightarrow> P m \<Longrightarrow> P (fst (followed a b m))"
  by (simp add: followed_simps)

text \<open>Only the instruments named in an observation change, and never their labels.\<close>

lemma addDeleted_frame [simp]:
  "metrics_ok (fst (addDeleted kvs m)) = metrics_ok m"
proof (induction kvs m rule: addDeleted.induct)
  case (2 operation n rest m)
  let ?m = "fst (upon retentionDeleted retentionDeleted_update (AddVec n [operation]) m)"
  have "metrics_ok ?m = metrics_ok m" by (simp add: metrics_ok_def)
  then show ?case using 2 by (auto simp: followed_simps)
qed simp

lemma observation_ok [simp]:
  "metrics_ok (fst (ObserveHTTP verb route status x m)) = metrics_ok m"
  "metrics_ok (fst (ObserveMCPTool tool c x m)) = metrics_ok m"
  "metrics_ok (fst (ObserveProviderAttempt status failed x m)) = metrics_ok m"
  "metrics_ok (fst (ObserveDB operation failed x m)) = metrics_ok m"
  "metrics_ok (fst (ObserveRetentionRun failed kvs m)) = metrics_ok m"
  "metrics_ok (fst (SetBuildInfo version commit m)) = metrics_ok m"
  by (simp_all add: ObserveHTTP_def ObserveMCPTool_def ObserveProviderAttempt_def ObserveDB_def ObserveRetentionRun_def
      SetBuildInfo_def followed_simps) (simp_all add: metrics_ok_def)

lemma observe_ok [simp]: "metrics_ok (fst (observe e m)) = metrics_ok m"
  by (cases e) (simp_all add: observe_def recordCallStarted_def recordCallFinished_def recordProviderCall_def
      recordTokens_def recordEvaluation_def followed_simps, simp_all add: metrics_ok_def)

text \<open>Labels of the right number that are text: the observation returns.\<close>

lemma ObserveHTTP_returns:
  assumes "metrics_ok m" and "validUTF8 verb" and "validUTF8 route"
  shows "\<not> snd (ObserveHTTP verb route status x m)"
    and "reading (httpRequests (fst (ObserveHTTP verb route status x m))) =
      (reading (httpRequests m))([verb, route, Itoa status] := reading (httpRequests m) [verb, route, Itoa status] + 1)"
    and "dom (vcSeries (httpRequests (fst (ObserveHTTP verb route status x m)))) =
      insert [verb, route, Itoa status] (dom (vcSeries (httpRequests m)))"
  using assms by (simp_all add: ObserveHTTP_def followed_simps vec_returns reading_IncVec dom_IncVec labels_ok_def
      metrics_ok_def validUTF8_ascii [OF Itoa_ascii])

lemma outcomeClassOf_utf8 [simp]: "validUTF8 (outcomeClassOf failed)"
  by (cases failed; simp add: outcomeClassOf_def; code_simp)

lemma statusClass_utf8 [simp]: "validUTF8 (statusClass status)"
  by (rule validUTF8_ascii) (use Itoa_ascii in \<open>auto simp: statusClass_def byte_def list_all_iff\<close>)

lemma provider_attempt_returns: "metrics_ok m \<Longrightarrow> \<not> snd (ObserveProviderAttempt status failed x m)"
  by (simp add: ObserveProviderAttempt_def followed_simps vec_returns labels_ok_def metrics_ok_def)

lemma ObserveDB_returns: "metrics_ok m \<Longrightarrow> validUTF8 operation \<Longrightarrow> \<not> snd (ObserveDB operation failed x m)"
  by (simp add: ObserveDB_def followed_simps vec_returns labels_ok_def metrics_ok_def)

lemma ObserveMCPTool_returns: "metrics_ok m \<Longrightarrow> validUTF8 tool \<Longrightarrow> validUTF8 c \<Longrightarrow> \<not> snd (ObserveMCPTool tool c x m)"
  by (simp add: ObserveMCPTool_def followed_simps vec_returns labels_ok_def metrics_ok_def)

lemma addDeleted_returns:
  "metrics_ok m \<Longrightarrow> \<forall>(operation, n) \<in> set kvs. validUTF8 operation \<and> 0 \<le> n \<Longrightarrow> \<not> snd (addDeleted kvs m)"
proof (induction kvs m rule: addDeleted.induct)
  case (2 operation n rest m)
  let ?step = "upon retentionDeleted retentionDeleted_update (AddVec n [operation]) m"
  have "metrics_ok (fst ?step)" using "2.prems" by (simp add: metrics_ok_def)
  moreover have "\<not> snd ?step" using "2.prems" by (simp add: vec_returns labels_ok_def metrics_ok_def)
  ultimately show ?case using 2 by (simp add: followed_simps)
qed simp

lemma ObserveRetentionRun_returns:
  assumes "metrics_ok m" and "\<forall>(operation, n) \<in> set kvs. validUTF8 operation \<and> 0 \<le> n"
  shows "\<not> snd (ObserveRetentionRun failed kvs m)"
proof -
  let ?step = "upon retentionRuns retentionRuns_update (IncVec [outcomeClassOf failed]) m"
  have "metrics_ok (fst ?step)" "\<not> snd ?step" using assms(1) by (simp_all add: metrics_ok_def vec_returns labels_ok_def)
  then show ?thesis using addDeleted_returns [OF _ assms(2)] by (simp add: ObserveRetentionRun_def followed_simps)
qed

text \<open>What a cleanup pass reports never makes its observation panic.\<close>

lemma cleanup_observed:
  assumes "metrics_ok m" and "cleanup settings pass db = (db', deleted, err)"
  shows "\<not> snd (ObserveRetentionRun (err \<noteq> None) deleted m)"
proof (rule ObserveRetentionRun_returns [OF assms(1)])
  have names: "validUTF8 retentionOpIdempotency" "validUTF8 retentionOpEvaluations" "validUTF8 retentionOpFeedback"
    by (code_simp, code_simp, code_simp)
  have "0 \<le> e \<and> 0 \<le> f" if "expireEvaluations pass c db1 = (db2, (e, f), err2)" for c db1 db2 e f err2
    using that by (auto simp: expireEvaluations_def Let_def deleteFeedback_def deleteEvaluations_def deleteKeys_def
        split: if_splits)
  moreover have "0 \<le> fst (snd (expireIdempotency pass db))" by (simp add: expireIdempotency_def Let_def)
  ultimately show "\<forall>(operation, n) \<in> set deleted. validUTF8 operation \<and> 0 \<le> n"
    using assms(2) names by (auto simp: cleanup_def Let_def split: prod.splits if_splits)
qed

section \<open>The observer of the pipeline\<close>

text \<open>
  What the evaluation pipeline relies on: an observation it makes with sane values returns, keeps
  the instruments usable, and moves the count of provider calls in flight only at the two ends of a
  call.
\<close>

locale observer =
  fixes obs :: "event \<Rightarrow> 'm \<Rightarrow> 'm \<times> bool" and ready :: "'m \<Rightarrow> bool" and fine :: "event \<Rightarrow> bool"
    and in_flight :: "'m \<Rightarrow> int" and decisions :: "'m \<Rightarrow> string list \<Rightarrow> 64 word"
  assumes returns: "ready m \<Longrightarrow> fine e \<Longrightarrow> \<not> snd (obs e m)"
    and keeps: "ready m \<Longrightarrow> ready (fst (obs e m))"
    and flight: "in_flight (fst (obs e m)) = in_flight m + gauge [e]"
    and counts: "ready m \<Longrightarrow> fine (ObserveEvaluation k out path ms) \<Longrightarrow>
      decisions (fst (obs (ObserveEvaluation k out path ms) m)) =
        (decisions m)([k, out, path] := decisions m [k, out, path] + 1)"
    and still: "(\<And>k out path ms. e \<noteq> ObserveEvaluation k out path ms) \<Longrightarrow> decisions (fst (obs e m)) = decisions m"
begin

lemma all_return:
  "ready m \<Longrightarrow> list_all fine es \<Longrightarrow> \<not> snd (observeAll obs es m) \<and> ready (fst (observeAll obs es m))"
  by (induction es arbitrary: m) (simp_all add: followed_simps returns keeps)

lemma all_flight:
  "ready m \<Longrightarrow> list_all fine es \<Longrightarrow> in_flight (fst (observeAll obs es m)) = in_flight m + gauge es"
proof (induction es arbitrary: m)
  case (Cons e es)
  then have "\<not> snd (obs e m)" "in_flight (fst (observeAll obs es (fst (obs e m)))) = in_flight (fst (obs e m)) + gauge es"
    by (simp_all add: returns keeps)
  then show ?case using gauge_simps(2) [of "[e]" es] by (simp add: followed_simps flight)
qed simp

lemma all_still:
  "ready m \<Longrightarrow> list_all fine es \<Longrightarrow> (\<And>k out path ms. ObserveEvaluation k out path ms \<notin> set es) \<Longrightarrow>
     decisions (fst (observeAll obs es m)) = decisions m"
proof (induction es arbitrary: m)
  case (Cons e es)
  have "decisions (fst (obs e m)) = decisions m" by (rule still) (use Cons.prems(3) in auto)
  then show ?case using Cons by (simp add: followed_simps returns keeps)
qed simp

lemma all_append:
  "\<not> snd (observeAll obs xs m) \<Longrightarrow> observeAll obs (xs @ ys) m = observeAll obs ys (fst (observeAll obs xs m))"
  by (induction xs arbitrary: m) (auto simp: followed_def)

end

definition fine_event :: "event \<Rightarrow> bool" where
  "fine_event e \<longleftrightarrow> (case e of
       ObserveTokens model i out \<Rightarrow> model = [] \<or> validUTF8 model \<and> 0 \<le> i \<and> 0 \<le> out
     | ObserveEvaluation k out path ms \<Rightarrow> validUTF8 k \<and> validUTF8 out \<and> validUTF8 path
     | _ \<Rightarrow> True)"

lemmas record_defs = recordCallStarted_def recordCallFinished_def recordProviderCall_def recordTokens_def
  recordEvaluation_def

interpretation metrics: observer observe metrics_ok fine_event "\<lambda>m. ggValue (providerInFlight m)" "\<lambda>m. reading (evaluations m)"
proof
  show "\<not> snd (observe e m)" if "metrics_ok m" "fine_event e" for m e
    using that by (cases e) (auto simp: observe_def fine_event_def record_defs followed_simps vec_returns
        labels_ok_def metrics_ok_def)
  show "ggValue (providerInFlight (fst (observe e m))) = ggValue (providerInFlight m) + gauge [e]" for e m
    by (cases e) (simp_all add: observe_def record_defs followed_simps gauge_Inc_def gauge_Dec_def)
  show "reading (evaluations (fst (observe (ObserveEvaluation k out path ms) m))) =
      (reading (evaluations m))([k, out, path] := reading (evaluations m) [k, out, path] + 1)"
    if "metrics_ok m" "fine_event (ObserveEvaluation k out path ms)" for m k out path ms
    using that by (simp add: observe_def fine_event_def record_defs followed_simps reading_IncVec labels_ok_def
        metrics_ok_def vec_returns)
  show "reading (evaluations (fst (observe e m))) = reading (evaluations m)"
    if "\<And>k out path ms. e \<noteq> ObserveEvaluation k out path ms" for e m
    using that by (cases e) (simp_all add: observe_def record_defs followed_simps, blast)
qed simp

text \<open>A reply that reports a negative number of tokens stops the pipeline in the observer.\<close>

lemma negative_tokens_panic:
  assumes "metrics_ok m" and "model \<noteq> []" and "validUTF8 model" and "- (2 ^ 53) < i" and "i < 0"
  shows "snd (observe (ObserveTokens model i out) m)"
proof -
  have "labels_ok (modelInputTokens m) [model]" using assms(1, 3) by (simp add: labels_ok_def metrics_ok_def)
  then show ?thesis using assms(2)
    by (simp add: observe_def recordTokens_def followed_simps AddVec_def WithLabelValues_def
        counter_Add_negative [OF assms(4, 5)])
qed

section \<open>What one evaluation leaves on the instruments\<close>

definition call_events :: "Service \<Rightarrow> Request \<Rightarrow> event list" where
  "call_events svc request = (if \<not> svcObserved svc then [] else [ProviderCallStarted] @
     (case svcProvider svc request of
        Inl e \<Rightarrow> []
      | Inr response \<Rightarrow> [ObserveProviderCall (AttemptCount response), ObserveTokens (rsModel response)
          (usInputTokens (rsUsage response)) (usOutputTokens (rsUsage response))]) @ [ProviderCallFinished])"

lemma decide_events:
  assumes "decide svc se w compiled pk input = (w', result)"
  shows "wEvents w' \<in> {wEvents w, wEvents w @ call_events svc (buildProviderRequest compiled input)}"
  using assms by (auto simp: decide_def askProvider_def call_events_def Let_def emit_def
      split: sum.splits option.splits prod.splits)

lemma createBegin_events:
  assumes "createBegin svc se w input = (w', result)"
  shows "\<exists>request. wEvents w' \<in> {wEvents w, wEvents w @ call_events svc request}"
  using assms by (auto simp: createBegin_def split: sum.splits option.splits prod.splits dest!: decide_events)

text \<open>The provider reports tokens that can be counted against a model that can be a label.\<close>

definition countable_replies :: "Service \<Rightarrow> bool" where
  "countable_replies svc \<longleftrightarrow> (\<forall>request response. svcProvider svc request = Inr response \<longrightarrow>
     validUTF8 (rsModel response) \<and> 0 \<le> usInputTokens (rsUsage response) \<and> 0 \<le> usOutputTokens (rsUsage response))"

lemma call_events_fine:
  assumes "countable_replies svc"
  shows "list_all fine_event (call_events svc request)" and "gauge (call_events svc request) = 0"
    and "ObserveEvaluation k out path ms \<notin> set (call_events svc request)"
  using assms by (auto simp: call_events_def fine_event_def countable_replies_def split: sum.splits)

lemma row_labels:
  assumes "row_of p r" and "wf_compiled p"
  shows "validUTF8 (if evOutcome r = [] then evStatus r else evOutcome r)"
    and "validUTF8 (if evExecutionPath r = [] then EvaluationStatusProviderFailed else evExecutionPath r)"
proof -
  have "evOutcome r \<in> set (cOutcomes p) \<Longrightarrow> validUTF8 (evOutcome r)"
    using assms(2) by (auto simp: wf_compiled_def wf_outcomes_def list_all_iff intro: validUTF8_ascii outcome_ascii)
  moreover have "validUTF8 EvaluationStatusProviderFailed" "validUTF8 ExecutionPathPreRule"
    "validUTF8 ExecutionPathDecisionRule" "validUTF8 ExecutionPathDefault" "validUTF8 EvaluationStatusCompleted"
    by (code_simp, code_simp, code_simp, code_simp, code_simp)
  ultimately show "validUTF8 (if evOutcome r = [] then evStatus r else evOutcome r)"
    and "validUTF8 (if evExecutionPath r = [] then EvaluationStatusProviderFailed else evExecutionPath r)"
    using assms(1) by (auto simp: row_of_def completed_row_def failed_row_def)
qed

text \<open>
  A request to the pipeline, seen on the instruments: no observation panics, the number of calls in
  flight is back where it was, and a decision is counted exactly when one was recorded, under the
  labels of its row.
\<close>

definition decision_labels :: "EvaluationRow \<Rightarrow> string list" where
  "decision_labels r = [evPolicyKind r, if evOutcome r = [] then evStatus r else evOutcome r,
     if evExecutionPath r = [] then EvaluationStatusProviderFailed else evExecutionPath r]"

lemma observed_call:
  assumes "metrics_ok m" and "countable_replies svc" and "es \<in> {[], call_events svc request}"
  shows "\<not> snd (observeAll observe es m)" and "metrics_ok (fst (observeAll observe es m))"
    and "ggValue (providerInFlight (fst (observeAll observe es m))) = ggValue (providerInFlight m)"
    and "reading (evaluations (fst (observeAll observe es m))) = reading (evaluations m)"
  using metrics.all_return [of m es] metrics.all_flight [of m es] metrics.all_still [of m es]
    call_events_fine [OF assms(2), where request = request] assms(1, 3) by auto

lemma observed_decision:
  assumes m: "metrics_ok m" and fine: "fine_event (ObserveEvaluation k out path ms)"
  shows "\<not> snd (observeAll observe [ObserveEvaluation k out path ms] m)"
    and "ggValue (providerInFlight (fst (observeAll observe [ObserveEvaluation k out path ms] m))) = ggValue (providerInFlight m)"
    and "reading (evaluations (fst (observeAll observe [ObserveEvaluation k out path ms] m))) =
      (reading (evaluations m))([k, out, path] := reading (evaluations m) [k, out, path] + 1)"
proof -
  let ?es = "[ObserveEvaluation k out path ms]"
  have all: "list_all fine_event ?es" using fine by simp
  show "\<not> snd (observeAll observe ?es m)" using metrics.all_return [OF m all] by blast
  show "ggValue (providerInFlight (fst (observeAll observe ?es m))) = ggValue (providerInFlight m)"
    using metrics.all_flight [OF m all] by simp
  show "reading (evaluations (fst (observeAll observe ?es m))) =
      (reading (evaluations m))([k, out, path] := reading (evaluations m) [k, out, path] + 1)"
    using metrics.counts [OF m fine] metrics.returns [OF m fine] by (simp add: followed_simps)
qed

lemma Create_observed:
  assumes "Create svc se w input = (w', result)" and "service_ok svc" and "svcObserved svc" and "countable_replies svc"
    and "metrics_ok m"
  obtains es where "wEvents w' = wEvents w @ es" and "\<not> snd (observeAll observe es m)"
    and "ggValue (providerInFlight (fst (observeAll observe es m))) = ggValue (providerInFlight m)"
    and "dbEvaluations (wDB w') = dbEvaluations (wDB w) \<and>
        reading (evaluations (fst (observeAll observe es m))) = reading (evaluations m) \<or>
      (\<exists>r. dbEvaluations (wDB w') = dbEvaluations (wDB w) @ [r] \<and>
        reading (evaluations (fst (observeAll observe es m))) =
          (reading (evaluations m))(decision_labels r := reading (evaluations m) (decision_labels r) + 1))"
proof -
  obtain w1 b where started: "createBegin svc se w input = (w1, b)" by fastforce
  obtain es request where es: "wEvents w1 = wEvents w @ es" "es \<in> {[], call_events svc request}"
    using createBegin_events [OF started] by force
  note call = observed_call [OF assms(5, 4) es(2)]
  show ?thesis
  proof (cases "\<exists>p w2 a. b = Inr p \<and> createCommit svc se w1 p = (w2, Inr a)")
    case False
    then have "w' = w1"
      using assms(1) started by (cases result) (auto simp: Create_def split: sum.splits dest: createCommit_Inl)
    moreover have "dbEvaluations (wDB w1) = dbEvaluations (wDB w)"
    proof (cases b)
      case (Inl settled)
      show ?thesis using createBegin_settled(1) [OF started [unfolded Inl]] snapshots_added_simps by blast
    next
      case (Inr p)
      show ?thesis by (rule createBegin_pending [OF started [unfolded Inr]]) (blast dest: ensureSnapshot_Inr(2) snapshots_added_simps(1))
    qed
    ultimately show thesis using es(1) call that by blast
  next
    case True
    then obtain p a where b: "b = Inr p" and commit: "createCommit svc se w1 p = (w', Inr a)"
      using assms(1) started by (auto simp: Create_def)
    obtain compiled calls where pending: "resolvePolicy svc input = Inr (compiled, pdKind p)"
      "decided svc se compiled (pdKind p) input calls (pdRecord p)" "ensureSnapshot se (wDB w) compiled = Inr (wDB w1)"
      using createBegin_pending [OF started [unfolded b]] by metis
    have wf: "wf_compiled compiled"
      using resolvePolicy_authentic(1) [OF assms(2) pending(1)] by (simp add: authentic_def)
    obtain w2 r where persist: "persist svc se w1 (pdRecord p) (pdInput p) (pdHash p) = (w2, Inr r)"
      and w': "w' = observeCompleted svc w2 r (pdKind p)"
      using commit by (auto simp: createCommit_def split: sum.splits prod.splits)
    have row: "row_of compiled r \<and> evPolicyKind r = pdKind p"
      by (subst (1 2) persist_Inr(2) [OF persist])
        (use decided_row_of [OF pending(2) wf] decided_origin(2) [OF pending(2)]
          in \<open>simp add: row_of_def completed_row_def failed_row_def\<close>)
    have "validUTF8 PolicyKindInline" "validUTF8 PolicyKindNamed" by (code_simp, code_simp)
    then have kind: "validUTF8 (pdKind p)"
      using resolvePolicy_authentic(2) [OF assms(2) pending(1)] by (simp split: if_splits)
    have db: "dbEvaluations (wDB w') = dbEvaluations (wDB w) @ [storeEvaluation se r]"
      using persist_Inr(5) [OF persist] ensureSnapshot_Inr(1) [OF pending(3)] by (simp add: w' observeCompleted_def)
    let ?e = "ObserveEvaluation (pdKind p) (if evOutcome r = [] then evStatus r else evOutcome r)
      (if evExecutionPath r = [] then EvaluationStatusProviderFailed else evExecutionPath r) (evTotalDurationMS r)"
    have fine: "fine_event ?e" using row_labels [OF conjunct1 [OF row] wf] kind by (simp add: fine_event_def)
    have ev: "wEvents w' = wEvents w @ (es @ [?e])"
      using persist_Inr(5) [OF persist] es(1) assms(3) by (simp add: w' observeCompleted_def)
    note counted = observed_decision [OF call(2) fine]
    have app: "observeAll observe (es @ [?e]) m = observeAll observe [?e] (fst (observeAll observe es m))"
      by (rule metrics.all_append [OF call(1)])
    show thesis
      by (rule that [of "es @ [?e]", unfolded app, OF ev counted(1)])
        (use counted call db row in \<open>auto simp: decision_labels_def intro!: disjI2 exI [of _ "storeEvaluation se r"]\<close>)
  qed
qed

end
