(* ===== verification/Middleware.thy ===== *)
theory Middleware
  imports HttpServer Metrics
begin

text \<open>
  The middleware in front of the handlers and the router that assembles it
  (\<open>internal/pkg/http/server/middleware.go\<close>, \<open>strict_json.go\<close>, \<open>router.go\<close>). A handler works on a
  response writer: the headers, the reply once its header is written, the status its recorder saw,
  the instruments and the log. It gives the writer it leaves and whether it panicked. The rate
  limiter, the UUID parser, the JSON decoder and the clock are arguments. The lemmas show what has to
  hold for a handler to run, what a caller gets when it does not, and what every request leaves on
  the instruments and in the log.
\<close>

section \<open>Requests and response writers\<close>

record httpReq =
  hqMethod :: string
  hqAuthorization :: string
  hqRequestIDHeader :: string
  hqIdempotencyKey :: "string list option"
  hqQuery :: "(string, string list) gomap"
  hqPathValues :: "(string, string) gomap"
  hqScopeID :: string
  hqScopeRoute :: string
  hqPattern :: string
  hqBody :: string
  hqLimit :: "int option"

datatype logEvent =
    RequestStarted string string
  | RequestCompleted string string int
  | RequestRejected int string string
  | HandlerPanicked
  | RejectedAtBinding
  | ResponseFailed

type_synonym headers = "(string, string) gomap"

text \<open>
  \<open>wrReply\<close> is the first status written with the error code of its body, \<open>wrStatus\<close> the field of the
  innermost recorder; a log entry carries the request identifier of its scope. The state of the
  process a handler may change comes along: the instruments, the log and the pipeline's world.
\<close>

record writer =
  wrHeaders :: headers
  wrReply :: "(int \<times> string) option"
  wrStatus :: int
  wrMetrics :: Metrics
  wrLog :: "(string \<times> logEvent) list"
  wrWorld :: World

type_synonym handler = "httpReq \<Rightarrow> writer \<Rightarrow> writer \<times> bool"

definition addLog :: "httpReq \<Rightarrow> logEvent \<Rightarrow> writer \<Rightarrow> writer" where
  "addLog r e w = w\<lparr>wrLog := wrLog w @ [(hqScopeID r, e)]\<rparr>"

definition WriteHeader :: "int \<Rightarrow> string \<Rightarrow> writer \<Rightarrow> writer" where
  "WriteHeader status code w =
     w\<lparr>wrStatus := status, wrReply := (case wrReply w of None \<Rightarrow> Some (status, code) | Some x \<Rightarrow> Some x)\<rparr>"

definition Write :: "string \<Rightarrow> writer \<Rightarrow> writer" where
  "Write code w = (if wrStatus w = 0 then
     w\<lparr>wrStatus := 200, wrReply := (case wrReply w of None \<Rightarrow> Some (200, code) | Some x \<Rightarrow> Some x)\<rparr> else w)"

definition statusOrOK :: "writer \<Rightarrow> int" where
  "statusOrOK w = (if wrStatus w = 0 then 200 else wrStatus w)"

text \<open>A new recorder starts at zero; what it saw reaches the recorder it wraps.\<close>

definition newRecorder :: "writer \<Rightarrow> writer" where
  "newRecorder w = w\<lparr>wrStatus := 0\<rparr>"

definition wrappedRecorder :: "int \<Rightarrow> writer \<Rightarrow> writer" where
  "wrappedRecorder outer w = w\<lparr>wrStatus := (if wrStatus w = 0 then outer else wrStatus w)\<rparr>"

definition WriteJSON :: "int \<Rightarrow> string \<Rightarrow> writer \<Rightarrow> writer" where
  "WriteJSON status code w =
     Write code (WriteHeader status code (w\<lparr>wrHeaders := AList.update ''Content-Type'' ''application/json'' (wrHeaders w)\<rparr>))"

section \<open>Middleware\<close>

definition chain :: "handler \<Rightarrow> (handler \<Rightarrow> handler) list \<Rightarrow> handler" where
  "chain handler middlewares = foldr (\<lambda>m h. m h) middlewares handler"

definition writeError :: "int \<Rightarrow> string \<Rightarrow> string \<Rightarrow> handler" where
  "writeError status code reason r w = (WriteJSON status code (addLog r (RequestRejected status code reason) w), False)"

definition maxRequestIDLength :: nat where "maxRequestIDLength = 128"

definition sanitiseRequestID :: "(string \<Rightarrow> bool) \<Rightarrow> string \<Rightarrow> string \<Rightarrow> string" where
  "sanitiseRequestID isUUID newID candidate =
     (if candidate = '''' \<or> maxRequestIDLength < length candidate then newID
      else if \<not> isUUID candidate then newID else candidate)"

definition RequestID :: "(string \<Rightarrow> bool) \<Rightarrow> string \<Rightarrow> handler \<Rightarrow> handler" where
  "RequestID isUUID newID next r w =
     (let requestID = sanitiseRequestID isUUID newID (hqRequestIDHeader r) in
      next (r\<lparr>hqScopeID := requestID\<rparr>) (w\<lparr>wrHeaders := AList.update ''X-Request-Id'' requestID (wrHeaders w)\<rparr>))"

definition AccessLog :: "string \<Rightarrow> handler \<Rightarrow> handler" where
  "AccessLog route next r w =
     (let r = r\<lparr>hqScopeRoute := route\<rparr>; w1 = addLog r (RequestStarted (hqMethod r) route) w in
      case next r (newRecorder w1) of
        (w2, True) \<Rightarrow> (wrappedRecorder (wrStatus w) w2, True)
      | (w2, False) \<Rightarrow>
          (addLog r (RequestCompleted (hqMethod r) route (statusOrOK w2)) (wrappedRecorder (wrStatus w) w2), False))"

definition inFlight :: "(gaugeValue \<Rightarrow> gaugeValue) \<Rightarrow> writer \<Rightarrow> writer" where
  "inFlight f w = w\<lparr>wrMetrics := (wrMetrics w)\<lparr>httpInFlight := f (httpInFlight (wrMetrics w))\<rparr>\<rparr>"

definition MetricsMiddleware :: "string \<Rightarrow> float64 \<Rightarrow> handler \<Rightarrow> handler" where
  "MetricsMiddleware route seconds next r w =
     (case next r (newRecorder (inFlight gauge_Inc w)) of
        (w2, True) \<Rightarrow> (inFlight gauge_Dec (wrappedRecorder (wrStatus w) w2), True)
      | (w2, False) \<Rightarrow>
          (case ObserveHTTP (hqMethod r) route (statusOrOK w2) seconds (wrMetrics w2) of
             (m, panics) \<Rightarrow> (inFlight gauge_Dec ((wrappedRecorder (wrStatus w) w2)\<lparr>wrMetrics := m\<rparr>), panics)))"

definition Recovery :: "handler \<Rightarrow> handler" where
  "Recovery next r w =
     (case next r w of
        (w', True) \<Rightarrow> writeError 500 ''INTERNAL_SERVER_ERROR'' ''handler_panic'' r (addLog r HandlerPanicked w')
      | (w', False) \<Rightarrow> (w', False))"

definition securityHeaders :: headers where
  "securityHeaders =
     [(''X-Content-Type-Options'', ''nosniff''), (''X-Frame-Options'', ''DENY''), (''Referrer-Policy'', ''no-referrer''),
      (''Content-Security-Policy'', ''default-src '' @ [CHR 0x27] @ ''none'' @ [CHR 0x27]), (''Cache-Control'', ''no-store'')]"

definition SecurityHeaders :: "handler \<Rightarrow> handler" where
  "SecurityHeaders next r w =
     next r (w\<lparr>wrHeaders := fold (\<lambda>(k, v). AList.update k v) securityHeaders (wrHeaders w)\<rparr>)"

definition RateLimit :: "bool \<Rightarrow> handler \<Rightarrow> handler" where
  "RateLimit allow next r w =
     (if \<not> allow then writeError 429 ''TOO_MANY_REQUESTS'' ''rate_limited'' r w else next r w)"

definition BearerAuth :: "string \<Rightarrow> handler \<Rightarrow> handler" where
  "BearerAuth token next r w =
     (if token = '''' then next r w
      else if take 7 (hqAuthorization r) \<noteq> ''Bearer '' then writeError 401 ''UNAUTHORIZED'' ''auth_scheme_missing'' r w
      else if drop 7 (hqAuthorization r) \<noteq> token then writeError 401 ''UNAUTHORIZED'' ''auth_token_mismatch'' r w
      else next r w)"

definition BodyLimit :: "int \<Rightarrow> handler \<Rightarrow> handler" where
  "BodyLimit maxBytes next r w = next (r\<lparr>hqLimit := Some maxBytes\<rparr>) w"

section \<open>The router\<close>

definition writeRequestError :: "bool \<Rightarrow> handler" where
  "writeRequestError tooLarge r w =
     (let w = addLog r RejectedAtBinding w in
      if tooLarge then (WriteJSON 413 (ErrorCodeFromHTTPStatus 413) w, False)
      else (WriteJSON 400 ''BAD_REQUEST'' w, False))"

definition writeResponseError :: handler where
  "writeResponseError r w = (WriteJSON 500 ''INTERNAL_SERVER_ERROR'' (addLog r ResponseFailed w), False)"

text \<open>The body of a request a server receives is never nil; reading all of it fails past the limit.\<close>

definition readAll :: "httpReq \<Rightarrow> string option" where
  "readAll r =
     (case hqLimit r of
        None \<Rightarrow> Some (hqBody r)
      | Some n \<Rightarrow> if n < int (length (hqBody r)) then None else Some (hqBody r))"

definition strictJSONTarget :: "string \<Rightarrow> bool" where
  "strictJSONTarget pattern \<longleftrightarrow>
     pattern \<in> {''POST /v1/evaluations'', ''POST /v1/evaluations/{evaluationId}/feedback'', ''POST /v1/policies/validate''}"

definition strictJSONBodies :: "(string \<Rightarrow> string \<Rightarrow> bool) \<Rightarrow> handler \<Rightarrow> handler" where
  "strictJSONBodies decodes next r w =
     (if \<not> strictJSONTarget (hqPattern r) then next r w
      else case readAll r of
        None \<Rightarrow> writeRequestError True r w
      | Some body \<Rightarrow>
          if \<not> decodes (hqPattern r) body then writeRequestError False r w
          else next (r\<lparr>hqBody := body, hqLimit := None\<rparr>) w)"

record routerConfig =
  rcAPIToken :: string
  rcMaxRequestBytes :: int

definition routeTemplate :: "httpReq \<Rightarrow> string" where
  "routeTemplate r = (if hqPattern r = '''' then ''unmatched'' else hqPattern r)"

definition apiMiddleware ::
  "routerConfig \<Rightarrow> bool \<Rightarrow> (string \<Rightarrow> string \<Rightarrow> bool) \<Rightarrow> (string \<Rightarrow> bool) \<Rightarrow> string \<Rightarrow> float64 \<Rightarrow> handler \<Rightarrow> handler" where
  "apiMiddleware cfg allow decodes isUUID newID seconds next =
     (let guarded = chain next
            [RateLimit allow, BearerAuth (rcAPIToken cfg), BodyLimit (rcMaxRequestBytes cfg), strictJSONBodies decodes] in
      (\<lambda>req. let route = routeTemplate req in
        chain guarded
          [RequestID isUUID newID, Recovery, SecurityHeaders, AccessLog route, MetricsMiddleware route seconds] req))"

definition routeMCP :: string where "routeMCP = ''/mcp''"
definition routeHealth :: string where "routeHealth = ''/healthz''"
definition routeReady :: string where "routeReady = ''/ready''"

definition mountMCP :: "routerConfig \<Rightarrow> bool \<Rightarrow> (string \<Rightarrow> bool) \<Rightarrow> string \<Rightarrow> float64 \<Rightarrow> handler \<Rightarrow> handler" where
  "mountMCP cfg allow isUUID newID seconds next =
     chain next [RequestID isUUID newID, Recovery, SecurityHeaders, AccessLog routeMCP, MetricsMiddleware routeMCP seconds,
       RateLimit allow, BearerAuth (rcAPIToken cfg), BodyLimit (rcMaxRequestBytes cfg)]"

definition observability :: "string \<Rightarrow> (string \<Rightarrow> bool) \<Rightarrow> string \<Rightarrow> float64 \<Rightarrow> handler \<Rightarrow> handler" where
  "observability route isUUID newID seconds next =
     chain next [RequestID isUUID newID, Recovery, SecurityHeaders, AccessLog route, MetricsMiddleware route seconds]"

text \<open>The probes answer with a status field; the text of it stands where a failure has its code.\<close>

definition healthHandler :: handler where
  "healthHandler r w = (WriteJSON 200 ''ok'' w, False)"

definition readyHandler :: "bool \<Rightarrow> bool \<Rightarrow> handler" where
  "readyHandler shuttingDown ready r w =
     (if shuttingDown \<or> \<not> ready then (WriteJSON 503 ''not_ready'' w, False) else (WriteJSON 200 ''ready'' w, False))"

section \<open>What reaches a handler\<close>

definition admitted :: "routerConfig \<Rightarrow> bool \<Rightarrow> httpReq \<Rightarrow> bool" where
  "admitted cfg allow r \<longleftrightarrow> allow \<and> (rcAPIToken cfg = '''' \<or> hqAuthorization r = ''Bearer '' @ rcAPIToken cfg)"

definition well_shaped :: "routerConfig \<Rightarrow> (string \<Rightarrow> string \<Rightarrow> bool) \<Rightarrow> httpReq \<Rightarrow> bool" where
  "well_shaped cfg decodes r \<longleftrightarrow>
     (strictJSONTarget (hqPattern r) \<longrightarrow>
        int (length (hqBody r)) \<le> rcMaxRequestBytes cfg \<and> decodes (hqPattern r) (hqBody r))"

lemma bearer_iff: "take 7 h = ''Bearer '' \<and> drop 7 h = t \<longleftrightarrow> h = ''Bearer '' @ t"
proof
  assume "take 7 h = ''Bearer '' \<and> drop 7 h = t"
  then show "h = ''Bearer '' @ t" using append_take_drop_id [of 7 h] by simp
qed simp

lemma BearerAuth_if:
  "BearerAuth token next r w =
     (if token = '''' \<or> hqAuthorization r = ''Bearer '' @ token then next r w
      else writeError 401 ''UNAUTHORIZED''
        (if take 7 (hqAuthorization r) = ''Bearer '' then ''auth_token_mismatch'' else ''auth_scheme_missing'') r w)"
  unfolding BearerAuth_def bearer_iff [symmetric] by simp

lemma strict_if:
  assumes "hqLimit r = Some (rcMaxRequestBytes cfg)"
  shows "strictJSONBodies decodes next r w =
     (if well_shaped cfg decodes r
      then next (if strictJSONTarget (hqPattern r) then r\<lparr>hqLimit := None\<rparr> else r) w
      else writeRequestError (rcMaxRequestBytes cfg < int (length (hqBody r))) r w)"
  using assms by (cases r) (auto simp: strictJSONBodies_def well_shaped_def readAll_def)

definition prepared :: "routerConfig \<Rightarrow> httpReq \<Rightarrow> httpReq" where
  "prepared cfg r = r\<lparr>hqLimit := (if strictJSONTarget (hqPattern r) then None else Some (rcMaxRequestBytes cfg))\<rparr>"

definition guard :: "routerConfig \<Rightarrow> bool \<Rightarrow> (string \<Rightarrow> string \<Rightarrow> bool) \<Rightarrow> handler \<Rightarrow> handler" where
  "guard cfg allow decodes next =
     chain next [RateLimit allow, BearerAuth (rcAPIToken cfg), BodyLimit (rcMaxRequestBytes cfg), strictJSONBodies decodes]"

lemma guard_if:
  "guard cfg allow decodes next r w =
     (if \<not> allow then writeError 429 ''TOO_MANY_REQUESTS'' ''rate_limited'' r w
      else if \<not> admitted cfg allow r then writeError 401 ''UNAUTHORIZED''
        (if take 7 (hqAuthorization r) = ''Bearer '' then ''auth_token_mismatch'' else ''auth_scheme_missing'') r w
      else if \<not> well_shaped cfg decodes r
        then writeRequestError (rcMaxRequestBytes cfg < int (length (hqBody r))) (r\<lparr>hqLimit := Some (rcMaxRequestBytes cfg)\<rparr>) w
      else next (prepared cfg r) w)"
proof -
  have shape: "well_shaped cfg decodes (r\<lparr>hqLimit := l\<rparr>) = well_shaped cfg decodes r" for l by (simp add: well_shaped_def)
  have prep: "prepared cfg r = (if strictJSONTarget (hqPattern r)
      then r\<lparr>hqLimit := Some (rcMaxRequestBytes cfg), hqLimit := None\<rparr> else r\<lparr>hqLimit := Some (rcMaxRequestBytes cfg)\<rparr>)"
    by (simp add: prepared_def)
  show ?thesis
    by (simp add: guard_def chain_def RateLimit_def BearerAuth_if BodyLimit_def strict_if [of _ cfg] shape prep admitted_def)
qed

lemma WriteJSON_fields [simp]:
  "wrMetrics (WriteJSON s c w) = wrMetrics w" "wrLog (WriteJSON s c w) = wrLog w"
  "wrWorld (WriteJSON s c w) = wrWorld w"
  "wrReply (WriteJSON s c w) = (case wrReply w of None \<Rightarrow> Some (s, c) | Some x \<Rightarrow> Some x)"
  "s \<noteq> 0 \<Longrightarrow> wrStatus (WriteJSON s c w) = s"
  by (simp_all add: WriteJSON_def WriteHeader_def Write_def split: option.split)

lemma addLog_fields [simp]:
  "wrMetrics (addLog r e w) = wrMetrics w" "wrReply (addLog r e w) = wrReply w" "wrWorld (addLog r e w) = wrWorld w" "wrStatus (addLog r e w) = wrStatus w"
  "wrLog (addLog r e w) = wrLog w @ [(hqScopeID r, e)]" "wrHeaders (addLog r e w) = wrHeaders w"
  by (simp_all add: addLog_def)

lemma recorder_fields [simp]:
  "wrWorld (newRecorder w) = wrWorld w" "wrWorld (wrappedRecorder s w) = wrWorld w" "wrWorld (inFlight f w) = wrWorld w"
  "wrMetrics (newRecorder w) = wrMetrics w" "wrReply (newRecorder w) = wrReply w" "wrStatus (newRecorder w) = 0"
  "wrLog (newRecorder w) = wrLog w" "wrMetrics (wrappedRecorder s w) = wrMetrics w"
  "wrReply (wrappedRecorder s w) = wrReply w" "wrLog (wrappedRecorder s w) = wrLog w"
  "wrStatus (wrappedRecorder s w) = (if wrStatus w = 0 then s else wrStatus w)"
  "wrMetrics (inFlight f w) = (wrMetrics w)\<lparr>httpInFlight := f (httpInFlight (wrMetrics w))\<rparr>"
  "wrReply (inFlight f w) = wrReply w" "wrStatus (inFlight f w) = wrStatus w" "wrLog (inFlight f w) = wrLog w"
  by (simp_all add: newRecorder_def wrappedRecorder_def inFlight_def)

text \<open>The writer a server hands to the outermost handler.\<close>

definition startWriter :: "World \<Rightarrow> Metrics \<Rightarrow> writer" where
  "startWriter world m =
     \<lparr>wrHeaders = [], wrReply = None, wrStatus = 0, wrMetrics = m, wrLog = [], wrWorld = world\<rparr>"

text \<open>The request and the writer as the innermost of the observing wrappers passes them on.\<close>

definition seen :: "(string \<Rightarrow> bool) \<Rightarrow> string \<Rightarrow> string \<Rightarrow> httpReq \<Rightarrow> httpReq" where
  "seen isUUID newID route r =
     r\<lparr>hqScopeID := sanitiseRequestID isUUID newID (hqRequestIDHeader r), hqScopeRoute := route\<rparr>"

definition entered :: "(string \<Rightarrow> bool) \<Rightarrow> string \<Rightarrow> string \<Rightarrow> httpReq \<Rightarrow> writer \<Rightarrow> writer" where
  "entered isUUID newID route r w =
     newRecorder (inFlight gauge_Inc (newRecorder (addLog (seen isUUID newID route r) (RequestStarted (hqMethod r) route)
       (w\<lparr>wrHeaders := fold (\<lambda>(k, v). AList.update k v) securityHeaders
         (AList.update ''X-Request-Id'' (sanitiseRequestID isUUID newID (hqRequestIDHeader r)) (wrHeaders w))\<rparr>))))"

lemma entered_start [simp]:
  "wrMetrics (entered isUUID newID route r (startWriter world m)) = m\<lparr>httpInFlight := gauge_Inc (httpInFlight m)\<rparr>"
  "wrReply (entered isUUID newID route r (startWriter world m)) = None" "wrStatus (entered isUUID newID route r w) = 0"
  "wrLog (entered isUUID newID route r (startWriter world m)) =
     [(sanitiseRequestID isUUID newID (hqRequestIDHeader r), RequestStarted (hqMethod r) route)]"
  by (simp_all add: entered_def startWriter_def seen_def)

lemma guards_seen [simp]:
  "admitted cfg allow (seen isUUID newID route r) = admitted cfg allow r"
  "well_shaped cfg decodes (seen isUUID newID route r) = well_shaped cfg decodes r"
  "hqBody (seen isUUID newID route r) = hqBody r" "hqMethod (seen isUUID newID route r) = hqMethod r"
  "hqAuthorization (seen isUUID newID route r) = hqAuthorization r"
  "hqScopeID (seen isUUID newID route r) = sanitiseRequestID isUUID newID (hqRequestIDHeader r)"
  by (simp_all add: admitted_def well_shaped_def seen_def)

lemma api_is_guarded:
  "apiMiddleware cfg allow decodes isUUID newID seconds next r w =
     observability (routeTemplate r) isUUID newID seconds (guard cfg allow decodes next) r w"
  by (simp add: apiMiddleware_def observability_def guard_def Let_def)

lemma ObserveHTTP_in_flight [simp]: "httpInFlight (fst (ObserveHTTP verb route status x m)) = httpInFlight m"
  by (simp add: ObserveHTTP_def followed_simps)

text \<open>What the observing wrappers make of a handler that returns, and of one that panics.\<close>

lemma observability_returns:
  assumes "h (seen isUUID newID route r) (entered isUUID newID route r w) = (w2, False)"
    and "metrics_ok (wrMetrics w2)" and "validUTF8 (hqMethod r)" and "validUTF8 route"
  obtains w' where "observability route isUUID newID seconds h r w = (w', False)" and "wrReply w' = wrReply w2"
    and "wrLog w' = wrLog w2 @ [(sanitiseRequestID isUUID newID (hqRequestIDHeader r),
      RequestCompleted (hqMethod r) route (statusOrOK w2))]"
    and "httpInFlight (wrMetrics w') = gauge_Dec (httpInFlight (wrMetrics w2))"
    and "reading (httpRequests (wrMetrics w')) = (reading (httpRequests (wrMetrics w2)))
      ([hqMethod r, route, Itoa (statusOrOK w2)] := reading (httpRequests (wrMetrics w2)) [hqMethod r, route, Itoa (statusOrOK w2)] + 1)"
    and "dom (vcSeries (httpRequests (wrMetrics w'))) =
      insert [hqMethod r, route, Itoa (statusOrOK w2)] (dom (vcSeries (httpRequests (wrMetrics w2))))"
    and "wrWorld w' = wrWorld w2" and "metrics_ok (wrMetrics w')"
proof -
  obtain m where o': "ObserveHTTP (hqMethod r) route (statusOrOK w2) seconds (wrMetrics w2) = (m, False)"
    using ObserveHTTP_returns(1) [OF assms(2-4)] by (metis prod.collapse)
  have fl: "httpInFlight m = httpInFlight (wrMetrics w2)"
    using arg_cong [OF o', of "\<lambda>x. httpInFlight (fst x)"] by simp
  have st: "statusOrOK ((inFlight gauge_Dec ((wrappedRecorder 0 w2)\<lparr>wrMetrics := m\<rparr>))) = statusOrOK w2"
    by (simp add: statusOrOK_def inFlight_def wrappedRecorder_def)
  have ok: "metrics_ok (m\<lparr>httpInFlight := g\<rparr>)" for g
    using observation_ok(1) [of "hqMethod r" route "statusOrOK w2" seconds "wrMetrics w2"] assms(2) o' by (simp add: metrics_ok_def)
  show thesis
  proof (rule that)
    show "observability route isUUID newID seconds h r w =
      (addLog (seen isUUID newID route r) (RequestCompleted (hqMethod r) route (statusOrOK w2))
        (wrappedRecorder (wrStatus w) (inFlight gauge_Dec ((wrappedRecorder 0 w2)\<lparr>wrMetrics := m\<rparr>))), False)"
      using assms(1) o' by (simp add: observability_def chain_def RequestID_def Recovery_def SecurityHeaders_def AccessLog_def
          MetricsMiddleware_def Let_def seen_def entered_def st)
  qed (use fl ok ObserveHTTP_returns(2, 3) [OF assms(2-4), of "statusOrOK w2" seconds] o' in simp_all)
qed

lemma observability_panics:
  assumes "h (seen isUUID newID route r) (entered isUUID newID route r w) = (w2, True)"
  obtains w' where "observability route isUUID newID seconds h r w = (w', False)"
    and "wrReply w' = Some (case wrReply w2 of None \<Rightarrow> (500, ''INTERNAL_SERVER_ERROR'') | Some x \<Rightarrow> x)"
    and "wrLog w' = wrLog w2 @ map (Pair (sanitiseRequestID isUUID newID (hqRequestIDHeader r)))
      [HandlerPanicked, RequestRejected 500 ''INTERNAL_SERVER_ERROR'' ''handler_panic'']"
    and "wrMetrics w' = (wrMetrics w2)\<lparr>httpInFlight := gauge_Dec (httpInFlight (wrMetrics w2))\<rparr>" and "wrWorld w' = wrWorld w2"
proof -
  let ?r = "r\<lparr>hqScopeID := sanitiseRequestID isUUID newID (hqRequestIDHeader r)\<rparr>"
  let ?w = "addLog ?r HandlerPanicked (wrappedRecorder (wrStatus w) (inFlight gauge_Dec (wrappedRecorder 0 w2)))"
  have "observability route isUUID newID seconds h r w = writeError 500 ''INTERNAL_SERVER_ERROR'' ''handler_panic'' ?r ?w"
    using assms by (simp add: observability_def chain_def RequestID_def Recovery_def SecurityHeaders_def AccessLog_def
        MetricsMiddleware_def Let_def seen_def entered_def)
  then show thesis unfolding writeError_def by (rule that) (simp_all split: option.split)
qed

text \<open>What the wrappers leave depends on the handler only through its run; a reply it has written stays.\<close>

lemma observability_eq:
  "observability route isUUID newID seconds h r w =
     Recovery (\<lambda>r' w'. AccessLog route (MetricsMiddleware route seconds h) r'
         (w'\<lparr>wrHeaders := fold (\<lambda>(k, v). AList.update k v) securityHeaders (wrHeaders w')\<rparr>))
       (r\<lparr>hqScopeID := sanitiseRequestID isUUID newID (hqRequestIDHeader r)\<rparr>)
       (w\<lparr>wrHeaders := AList.update ''X-Request-Id'' (sanitiseRequestID isUUID newID (hqRequestIDHeader r)) (wrHeaders w)\<rparr>)"
  by (simp add: observability_def chain_def RequestID_def SecurityHeaders_def [abs_def] Let_def)

lemma observability_depends:
  "h (seen isUUID newID route r) (entered isUUID newID route r w) = k (seen isUUID newID route r) (entered isUUID newID route r w) \<Longrightarrow>
     observability route isUUID newID seconds h r w = observability route isUUID newID seconds k r w"
  by (simp add: observability_eq Recovery_def AccessLog_def MetricsMiddleware_def Let_def seen_def entered_def)

lemma observability_never_panics [simp]: "\<not> snd (observability route isUUID newID seconds h r w)"
  by (simp add: observability_eq Recovery_def writeError_def case_prod_beta split: bool.split)

lemma observability_replied:
  assumes "h (seen isUUID newID route r) (entered isUUID newID route r w) = (w2, False)" and "wrReply w2 = Some x"
  shows "wrReply (fst (observability route isUUID newID seconds h r w)) = Some x"
    and "wrWorld (fst (observability route isUUID newID seconds h r w)) = wrWorld w2"
  using assms by (simp_all add: observability_eq Recovery_def AccessLog_def MetricsMiddleware_def Let_def seen_def entered_def
      writeError_def case_prod_beta split: bool.split)

text \<open>A request that a guard refuses: whatever the handler, it gets the guard's reply and leaves the pipeline alone.\<close>

lemma refused_reply:
  assumes "\<not> (admitted cfg allow r \<and> well_shaped cfg decodes r)" 
  obtains w' status code where "status \<in> {429, 401, 413, 400}" "wrReply w' = Some (status, code)" "wrWorld w' = world"
    "\<And>h. apiMiddleware cfg allow decodes isUUID newID seconds h r (startWriter world m) = (w', False)"
proof -
  let ?r = "seen isUUID newID (routeTemplate r) r" and ?w = "entered isUUID newID (routeTemplate r) r (startWriter world m)"
  obtain w2 status code where g: "\<And>h. guard cfg allow decodes h ?r ?w = (w2, False)" and w2: "status \<in> {429, 401, 413, 400}"
    "wrReply w2 = Some (status, code)" "wrWorld w2 = world"
  proof -
    have w: "wrWorld ?w = world" by (simp add: entered_def startWriter_def newRecorder_def inFlight_def)
    let ?w2 = "fst (guard cfg allow decodes (\<lambda>r w. (w, False)) ?r ?w)"
    show thesis
      by (rule that [of ?w2 "fst (the (wrReply ?w2))" "snd (the (wrReply ?w2))"])
        (use assms in \<open>auto simp: guard_if writeError_def writeRequestError_def Let_def w\<close>)
  qed
  let ?obs = "\<lambda>h. observability (routeTemplate r) isUUID newID seconds (guard cfg allow decodes h) r (startWriter world m)"
  define w' where "w' = fst (?obs (\<lambda>r w. (w, False)))"
  have all: "?obs h = (w', False)" for h
    using observability_depends [of "guard cfg allow decodes h" isUUID newID "routeTemplate r" r "startWriter world m"
      "guard cfg allow decodes (\<lambda>r w. (w, False))" seconds]
    by (simp add: g w'_def prod_eq_iff)
  have w': "wrReply w' = Some (status, code)" "wrWorld w' = world"
    unfolding w'_def using observability_replied [where h = "guard cfg allow decodes (\<lambda>r w. (w, False))" and
      w = "startWriter world m" and seconds = seconds, OF g w2(2)] w2(3) by simp_all
  show thesis by (rule that [OF w2(1) w']) (simp add: api_is_guarded all)
qed

section \<open>What every request leaves behind\<close>

text \<open>
  The contract of a handler under the wrappers: it leaves the two instruments of the wrappers alone,
  keeps the others usable, logs under the scope of its request, and returns only with a reply written,
  under the status its recorder holds. A handler that can fail after its reply has left may hold the
  status of the internal error it then wrote in vain instead; the flag says whether it can.
\<close>

definition one_status :: "writer \<Rightarrow> bool" where
  "one_status w \<longleftrightarrow> (case wrReply w of None \<Rightarrow> wrStatus w = 0 | Some (s, c) \<Rightarrow> wrStatus w = s \<and> s \<noteq> 0)"

definition late_failure :: "writer \<Rightarrow> bool" where
  "late_failure w \<longleftrightarrow> wrReply w \<noteq> None \<and> wrStatus w = 500 \<and> ResponseFailed \<in> snd ` set (wrLog w)"

text \<open>The status a request is counted under.\<close>

definition counts_as :: "bool \<Rightarrow> writer \<Rightarrow> int \<Rightarrow> bool" where
  "counts_as late w s \<longleftrightarrow> (\<exists>code. wrReply w = Some (s, code)) \<or>
     late \<and> s = 500 \<and> wrReply w \<noteq> None \<and> ResponseFailed \<in> snd ` set (wrLog w)"

definition scoped :: "string \<Rightarrow> writer \<Rightarrow> bool" where
  "scoped i w \<longleftrightarrow> (\<forall>(j, e) \<in> set (wrLog w). j = i)"

locale api_handler =
  fixes h :: handler and late :: bool
  assumes instruments: "metrics_ok (wrMetrics w) \<Longrightarrow> metrics_ok (wrMetrics (fst (h r w)))"
    and in_flight: "httpInFlight (wrMetrics (fst (h r w))) = httpInFlight (wrMetrics w)"
    and requests: "httpRequests (wrMetrics (fst (h r w))) = httpRequests (wrMetrics w)"
    and status: "wrReply w = None \<Longrightarrow> wrStatus w = 0 \<Longrightarrow> one_status (fst (h r w)) \<or> late \<and> late_failure (fst (h r w))"
    and replies: "\<not> snd (h r w) \<Longrightarrow> wrReply (fst (h r w)) \<noteq> None"
    and scope: "scoped (hqScopeID r) w \<Longrightarrow> scoped (hqScopeID r) (fst (h r w))"
begin

text \<open>
  A request that a well-behaved handler answers has a reply and is counted once, under the status of
  that reply unless a failure came after it.
\<close>

lemma answered:
  assumes "metrics_ok m" and "validUTF8 (hqMethod r)" and "validUTF8 route"
    and "\<not> snd (h (seen isUUID newID route r) (entered isUUID newID route r (startWriter world m)))"
  obtains w' status where "observability route isUUID newID seconds h r (startWriter world m) = (w', False)"
    and "counts_as late w' status"
    and "ggValue (httpInFlight (wrMetrics w')) = ggValue (httpInFlight m)"
    and "reading (httpRequests (wrMetrics w')) = (reading (httpRequests m))
      ([hqMethod r, route, Itoa status] := reading (httpRequests m) [hqMethod r, route, Itoa status] + 1)"
    and "dom (vcSeries (httpRequests (wrMetrics w'))) =
      insert [hqMethod r, route, Itoa status] (dom (vcSeries (httpRequests m)))"
    and "wrWorld w' = wrWorld (fst (h (seen isUUID newID route r) (entered isUUID newID route r (startWriter world m))))"
    and "scoped (sanitiseRequestID isUUID newID (hqRequestIDHeader r)) w'"
    and "wrReply w' = wrReply (fst (h (seen isUUID newID route r) (entered isUUID newID route r (startWriter world m))))"
    and "metrics_ok (wrMetrics w')"
proof -
  let ?r = "seen isUUID newID route r" and ?w = "entered isUUID newID route r (startWriter world m)"
  obtain w2 where run: "h ?r ?w = (w2, False)" using assms(4) by (metis prod.collapse)
  have m: "metrics_ok (m\<lparr>httpInFlight := g\<rparr>) = metrics_ok m" for g by (simp add: metrics_ok_def)
  have ok: "metrics_ok (wrMetrics w2)" using instruments [of ?w ?r] run assms(1) by (simp add: m)
  have fl: "httpInFlight (wrMetrics w2) = gauge_Inc (httpInFlight m)" using in_flight [of ?r ?w] run by simp
  have rq: "httpRequests (wrMetrics w2) = httpRequests m" using requests [of ?r ?w] run by simp
  have "wrReply w2 \<noteq> None" using replies [of ?r ?w] run by simp
  then have one: "counts_as late w2 (statusOrOK w2)"
    using status [of ?w ?r] run by (auto simp: counts_as_def one_status_def late_failure_def statusOrOK_def split: option.splits)
  have sc: "scoped (sanitiseRequestID isUUID newID (hqRequestIDHeader r)) w2"
    using scope [of ?r ?w] run by (simp add: scoped_def)
  show thesis
  proof (rule observability_returns [where h = h and w = "startWriter world m" and seconds = seconds, OF run ok assms(2, 3)])
    fix w' assume w': "observability route isUUID newID seconds h r (startWriter world m) = (w', False)" "wrReply w' = wrReply w2"
      "wrLog w' = wrLog w2 @ [(sanitiseRequestID isUUID newID (hqRequestIDHeader r),
        RequestCompleted (hqMethod r) route (statusOrOK w2))]"
      "httpInFlight (wrMetrics w') = gauge_Dec (httpInFlight (wrMetrics w2))"
      "reading (httpRequests (wrMetrics w')) = (reading (httpRequests (wrMetrics w2)))
        ([hqMethod r, route, Itoa (statusOrOK w2)] := reading (httpRequests (wrMetrics w2)) [hqMethod r, route, Itoa (statusOrOK w2)] + 1)"
      "dom (vcSeries (httpRequests (wrMetrics w'))) =
        insert [hqMethod r, route, Itoa (statusOrOK w2)] (dom (vcSeries (httpRequests (wrMetrics w2))))"
      "wrWorld w' = wrWorld w2" "metrics_ok (wrMetrics w')"
    have one': "counts_as late w' (statusOrOK w2)"
      using one unfolding counts_as_def w'(2, 3) by auto
    show thesis
      by (rule that [OF w'(1) one'])
        (use w'(2-) fl rq sc run in \<open>simp_all add: gauge_Inc_def gauge_Dec_def scoped_def\<close>)
  qed
qed

text \<open>A request on which it panics gets a reply all the same, but is not counted.\<close>

lemma panicked:
  assumes "snd (h (seen isUUID newID route r) (entered isUUID newID route r (startWriter world m)))"
  obtains w' where "observability route isUUID newID seconds h r (startWriter world m) = (w', False)" and "wrReply w' \<noteq> None"
    and "ggValue (httpInFlight (wrMetrics w')) = ggValue (httpInFlight m)"
    and "reading (httpRequests (wrMetrics w')) = reading (httpRequests m)"
    and "scoped (sanitiseRequestID isUUID newID (hqRequestIDHeader r)) w'"
proof -
  let ?r = "seen isUUID newID route r" and ?w = "entered isUUID newID route r (startWriter world m)"
  obtain w2 where run: "h ?r ?w = (w2, True)" using assms by (metis prod.collapse)
  have fl: "httpInFlight (wrMetrics w2) = gauge_Inc (httpInFlight m)" using in_flight [of ?r ?w] run by simp
  have rq: "httpRequests (wrMetrics w2) = httpRequests m" using requests [of ?r ?w] run by simp
  have sc: "scoped (sanitiseRequestID isUUID newID (hqRequestIDHeader r)) w2"
    using scope [of ?r ?w] run by (simp add: scoped_def)
  obtain w' where w': "observability route isUUID newID seconds h r (startWriter world m) = (w', False)"
    "wrReply w' \<noteq> None" "wrMetrics w' = (wrMetrics w2)\<lparr>httpInFlight := gauge_Dec (httpInFlight (wrMetrics w2))\<rparr>"
    "wrLog w' = wrLog w2 @ map (Pair (sanitiseRequestID isUUID newID (hqRequestIDHeader r)))
      [HandlerPanicked, RequestRejected 500 ''INTERNAL_SERVER_ERROR'' ''handler_panic'']"
    by (rule observability_panics [where h = h and w = "startWriter world m" and seconds = seconds, OF run]) simp
  show thesis
    by (rule that [OF w'(1, 2)]) (use w'(3, 4) fl rq sc in \<open>simp_all add: gauge_Inc_def gauge_Dec_def scoped_def\<close>)
qed

end

lemma written_status: "s \<noteq> 0 \<Longrightarrow> wrReply w = None \<Longrightarrow> one_status (WriteJSON s c w)"
  by (simp add: one_status_def)

lemma api_handler_replies: "s \<noteq> 0 \<Longrightarrow> api_handler (\<lambda>r w. (WriteJSON s c w, False)) False"
  by unfold_locales (simp_all add: written_status scoped_def split: option.split)

interpretation health: api_handler healthHandler False
proof -
  have "healthHandler = (\<lambda>r w. (WriteJSON 200 ''ok'' w, False))" by (simp add: healthHandler_def fun_eq_iff)
  then show "api_handler healthHandler False" using api_handler_replies [of 200 "''ok''"] by simp
qed

interpretation ready: api_handler "readyHandler shuttingDown ok" False
proof -
  have "readyHandler shuttingDown ok = (\<lambda>r w. (WriteJSON (if shuttingDown \<or> \<not> ok then 503 else 200)
      (if shuttingDown \<or> \<not> ok then ''not_ready'' else ''ready'') w, False))"
    by (simp add: readyHandler_def fun_eq_iff)
  then show "api_handler (readyHandler shuttingDown ok) False" by (simp add: api_handler_replies)
qed

text \<open>The guards in front of a handler keep its contract.\<close>

lemma rejections_keep:
  "wrMetrics (fst (writeError s c reason r w)) = wrMetrics w" "wrMetrics (fst (writeRequestError big r w)) = wrMetrics w"
  "s \<noteq> 0 \<Longrightarrow> wrReply w = None \<Longrightarrow> one_status (fst (writeError s c reason r w))"
  "wrReply w = None \<Longrightarrow> one_status (fst (writeRequestError big r w))"
  "scoped (hqScopeID r) w \<Longrightarrow> scoped (hqScopeID r) (fst (writeError s c reason r w))"
  "scoped (hqScopeID r) w \<Longrightarrow> scoped (hqScopeID r) (fst (writeRequestError big (r\<lparr>hqLimit := l\<rparr>) w))"
  "wrReply (fst (writeError s c reason r w)) \<noteq> None" "wrReply (fst (writeRequestError big r w)) \<noteq> None"
  by (simp_all add: writeError_def writeRequestError_def Let_def written_status scoped_def split: option.split)

lemma guard_handler:
  assumes "api_handler h late"
  shows "api_handler (guard cfg allow decodes h) late"
proof
  note laws = api_handler.instruments [OF assms] api_handler.in_flight [OF assms] api_handler.requests [OF assms]
    api_handler.status [OF assms] api_handler.replies [OF assms]
  have sid: "hqScopeID (prepared cfg r) = hqScopeID r" for r by (simp add: prepared_def)
  fix r w
  show "metrics_ok (wrMetrics w) \<Longrightarrow> metrics_ok (wrMetrics (fst (guard cfg allow decodes h r w)))"
    "httpInFlight (wrMetrics (fst (guard cfg allow decodes h r w))) = httpInFlight (wrMetrics w)"
    "httpRequests (wrMetrics (fst (guard cfg allow decodes h r w))) = httpRequests (wrMetrics w)"
    "wrReply w = None \<Longrightarrow> wrStatus w = 0 \<Longrightarrow> one_status (fst (guard cfg allow decodes h r w)) \<or>
      late \<and> late_failure (fst (guard cfg allow decodes h r w))"
    by (simp_all add: guard_if laws rejections_keep)
  show "\<not> snd (guard cfg allow decodes h r w) \<Longrightarrow> wrReply (fst (guard cfg allow decodes h r w)) \<noteq> None"
    unfolding guard_if using laws(5) [of "prepared cfg r" w] by (auto simp: rejections_keep simp del: not_None_eq split: if_splits)
  show "scoped (hqScopeID r) w \<Longrightarrow> scoped (hqScopeID r) (fst (guard cfg allow decodes h r w))"
    using api_handler.scope [OF assms, of "prepared cfg r" w] by (simp add: guard_if rejections_keep sid)
qed
end
