(* ===== verification/Routes.thy ===== *)
theory Routes
  imports Middleware
begin

text \<open>
  The generated routing layer (\<open>internal/pkg/http/api/api.gen.go\<close>) and the router's whole handler
  (\<open>internal/pkg/http/server/router.go\<close>): binding of parameters, decoding of bodies, the calls into
  the handlers, and the writing of their replies. The binding library, the JSON decoder and the mux,
  which names the pattern a request matched, are arguments. The lemmas show that a request either
  fails to bind, outside the middleware, or runs through the whole chain, and what it then leaves on
  the instruments.
\<close>

section \<open>Writing replies\<close>

text \<open>How a reply leaves: its encoding or the connection may fail.\<close>

datatype sending = Sent | EncodingFails | WritingFails

fun reply_code :: "'a reply \<Rightarrow> string" where
  "reply_code (Success _ _) = []"
| "reply_code (Failed_reply _ b) = erCode b"

definition visitResponse :: "sending \<Rightarrow> 'a reply \<Rightarrow> handler" where
  "visitResponse sending response r w =
     (case sending of
        Sent \<Rightarrow> (WriteJSON (reply_status response) (reply_code response) w, False)
      | EncodingFails \<Rightarrow> writeResponseError r w
      | WritingFails \<Rightarrow> writeResponseError r (WriteJSON (reply_status response) (reply_code response) w))"

section \<open>Strict handlers\<close>

record paramBinding =
  bdInt :: "string list option \<Rightarrow> goerror + int option"
  bdString :: "string list option \<Rightarrow> goerror + string option"
  bdUUID :: "string \<Rightarrow> goerror + uuid"
  bdPath :: "string \<Rightarrow> goerror + string"

record bodyDecoder =
  bcCreate :: "string \<Rightarrow> createBody option"
  bcFeedback :: "string \<Rightarrow> (string \<times> string option) option"
  bcValidate :: "string \<Rightarrow> (string, goval) gomap option"

text \<open>The server and what one request draws from its surroundings.\<close>

record requestEnv =
  reService :: Service
  reSession :: Session
  reBinding :: paramBinding
  reDecoder :: bodyDecoder
  reStrict :: "string \<Rightarrow> string \<Rightarrow> bool"
  reSending :: sending
  reConfig :: routerConfig
  reAllow :: bool
  reIsUUID :: "string \<Rightarrow> bool"
  reNewID :: string
  reSeconds :: float64
  reShuttingDown :: bool
  reReady :: bool
  reMCP :: "handler option"
  reMux :: int

definition withBody :: "(string \<Rightarrow> 'b option) \<Rightarrow> ('b \<Rightarrow> handler) \<Rightarrow> handler" where
  "withBody decode k r w =
     (case readAll r of
        None \<Rightarrow> writeRequestError True r w
      | Some text \<Rightarrow> (case decode text of None \<Rightarrow> writeRequestError False r w | Some body \<Rightarrow> k body r w))"

text \<open>
  The world after a call of the pipeline, with its observations made on the instruments. A panic of
  an observation during the provider call unwinds the pipeline: the deferred end of the call is still
  observed, and nothing after it happens, so of the tables only the snapshot has changed.
\<close>

fun is_decision :: "event \<Rightarrow> bool" where
  "is_decision (ObserveEvaluation _ _ _ _) = True"
| "is_decision _ = False"

definition pipelineRan :: "World \<Rightarrow> writer \<Rightarrow> writer \<times> bool" where
  "pipelineRan after w =
     (let before = wrWorld w; es = drop (length (wEvents before)) (wEvents after);
          call = filter (\<lambda>e. \<not> is_decision e) es in
      case observeAll observe call (wrMetrics w) of
        (m, True) \<Rightarrow>
          (w\<lparr>wrMetrics := fst (recordCallFinished m),
             wrWorld := before\<lparr>wCalls := wCalls after, wEvents := wEvents before @ call,
               wDB := (wDB before)\<lparr>dbSnapshots := dbSnapshots (wDB after)\<rparr>\<rparr>\<rparr>, True)
      | (m, False) \<Rightarrow>
          (case observeAll observe (filter is_decision es) m of
             (m', panics) \<Rightarrow> (w\<lparr>wrMetrics := m', wrWorld := after\<rparr>, panics)))"

definition strict_CreateEvaluation :: "requestEnv \<Rightarrow> uuid option \<Rightarrow> handler" where
  "strict_CreateEvaluation env key =
     withBody (bcCreate (reDecoder env)) (\<lambda>body r w.
       case CreateEvaluation (reService env) (reSession env) (wrWorld w)
           \<lparr>crqBody = Some body, crqIdempotencyKey = key, crqRequestID = hqScopeID r\<rparr> of
         (world, response) \<Rightarrow>
           (case pipelineRan world w of
              (w', True) \<Rightarrow> (w', True)
            | (w', False) \<Rightarrow> visitResponse (reSending env) response r w'))"

definition strict_ListEvaluations :: "requestEnv \<Rightarrow> listParams \<Rightarrow> handler" where
  "strict_ListEvaluations env params r w =
     visitResponse (reSending env) (ListEvaluations (reSession env) (wDB (wrWorld w)) params) r w"

definition strict_GetEvaluation :: "requestEnv \<Rightarrow> uuid \<Rightarrow> handler" where
  "strict_GetEvaluation env i r w =
     visitResponse (reSending env) (GetEvaluation (reSession env) (wDB (wrWorld w)) i) r w"

definition strict_SubmitFeedback :: "requestEnv \<Rightarrow> uuid \<Rightarrow> handler" where
  "strict_SubmitFeedback env i =
     withBody (bcFeedback (reDecoder env)) (\<lambda>body r w.
       case SubmitFeedback_handler (reService env) (reSession env) (wrWorld w)
           \<lparr>frqEvaluationId = i, frqBody = Some body\<rparr> of
         (world, response) \<Rightarrow> visitResponse (reSending env) response r (w\<lparr>wrWorld := world\<rparr>))"

definition strict_ListPolicies :: "requestEnv \<Rightarrow> handler" where
  "strict_ListPolicies env r w =
     visitResponse (reSending env) (ListPolicies (svcPolicies (reService env))) r w"

definition strict_ValidatePolicy :: "requestEnv \<Rightarrow> handler" where
  "strict_ValidatePolicy env =
     withBody (bcValidate (reDecoder env)) (\<lambda>body r w.
       visitResponse (reSending env)
         (ValidatePolicy (svcYaml (reService env)) (svcPolicies (reService env)) (Some body)) r w)"

definition strict_GetPolicy :: "requestEnv \<Rightarrow> string \<Rightarrow> string \<Rightarrow> handler" where
  "strict_GetPolicy env name version r w =
     visitResponse (reSending env) (GetPolicy (svcPolicies (reService env)) name version) r w"

section \<open>Binding\<close>

definition apiChain :: "requestEnv \<Rightarrow> handler \<Rightarrow> handler" where
  "apiChain env = apiMiddleware (reConfig env) (reAllow env) (reStrict env) (reIsUUID env) (reNewID env) (reSeconds env)"

text \<open>
  A wrapper binds the parameters first and wraps the operation in the middleware second, so that a
  parameter that does not bind is answered by the error handler alone.
\<close>

definition bound :: "requestEnv \<Rightarrow> goerror + 'p \<Rightarrow> ('p \<Rightarrow> handler) \<Rightarrow> handler" where
  "bound env params k r w =
     (case params of Inl e \<Rightarrow> writeRequestError False r w | Inr p \<Rightarrow> apiChain env (k p) r w)"

definition bindListParams :: "paramBinding \<Rightarrow> httpReq \<Rightarrow> goerror + listParams" where
  "bindListParams b r =
     rbind (bdInt b (map_of (hqQuery r) ''limit'')) (\<lambda>limit.
     rbind (bdInt b (map_of (hqQuery r) ''offset'')) (\<lambda>offset.
     rbind (bdString b (map_of (hqQuery r) ''policyName'')) (\<lambda>name.
     rbind (bdString b (map_of (hqQuery r) ''policyVersion'')) (\<lambda>version.
     rbind (bdString b (map_of (hqQuery r) ''outcome'')) (\<lambda>outcome.
     rbind (bdString b (map_of (hqQuery r) ''status'')) (\<lambda>status.
     Inr \<lparr>lpLimit = limit, lpOffset = offset, lpPolicyName = name, lpPolicyVersion = version,
       lpOutcome = outcome, lpStatus = status\<rparr>))))))"

definition bindIdempotencyKey :: "paramBinding \<Rightarrow> httpReq \<Rightarrow> goerror + uuid option" where
  "bindIdempotencyKey b r =
     (case hqIdempotencyKey r of
        None \<Rightarrow> Inr None
      | Some values \<Rightarrow>
          if length values \<noteq> 1 then Inl [ErrOther ''too many values'']
          else rbind (bdUUID b (hd values)) (\<lambda>key. Inr (Some key)))"

definition PathValue :: "httpReq \<Rightarrow> string \<Rightarrow> string" where
  "PathValue r name = (case map_of (hqPathValues r) name of None \<Rightarrow> [] | Some v \<Rightarrow> v)"

definition bindPolicyRef :: "paramBinding \<Rightarrow> httpReq \<Rightarrow> goerror + string \<times> string" where
  "bindPolicyRef b r =
     rbind (bdPath b (PathValue r ''policyName'')) (\<lambda>name.
     rbind (bdPath b (PathValue r ''policyVersion'')) (\<lambda>version. Inr (name, version)))"

definition siw_ListEvaluations :: "requestEnv \<Rightarrow> handler" where
  "siw_ListEvaluations env r = bound env (bindListParams (reBinding env) r) (strict_ListEvaluations env) r"

definition siw_CreateEvaluation :: "requestEnv \<Rightarrow> handler" where
  "siw_CreateEvaluation env r = bound env (bindIdempotencyKey (reBinding env) r) (strict_CreateEvaluation env) r"

definition siw_GetEvaluation :: "requestEnv \<Rightarrow> handler" where
  "siw_GetEvaluation env r =
     bound env (bdUUID (reBinding env) (PathValue r ''evaluationId'')) (strict_GetEvaluation env) r"

definition siw_SubmitFeedback :: "requestEnv \<Rightarrow> handler" where
  "siw_SubmitFeedback env r =
     bound env (bdUUID (reBinding env) (PathValue r ''evaluationId'')) (strict_SubmitFeedback env) r"

definition siw_ListPolicies :: "requestEnv \<Rightarrow> handler" where
  "siw_ListPolicies env = apiChain env (strict_ListPolicies env)"

definition siw_ValidatePolicy :: "requestEnv \<Rightarrow> handler" where
  "siw_ValidatePolicy env = apiChain env (strict_ValidatePolicy env)"

definition siw_GetPolicy :: "requestEnv \<Rightarrow> handler" where
  "siw_GetPolicy env r =
     bound env (bindPolicyRef (reBinding env) r) (\<lambda>(name, version). strict_GetPolicy env name version) r"

section \<open>The router\<close>

definition HandlerWithOptions :: "requestEnv \<Rightarrow> (string, handler) gomap" where
  "HandlerWithOptions env =
     [(''GET /v1/evaluations'', siw_ListEvaluations env),
      (''POST /v1/evaluations'', siw_CreateEvaluation env),
      (''GET /v1/evaluations/{evaluationId}'', siw_GetEvaluation env),
      (''POST /v1/evaluations/{evaluationId}/feedback'', siw_SubmitFeedback env),
      (''GET /v1/policies'', siw_ListPolicies env),
      (''GET /v1/policies/{policyName}/versions/{policyVersion}'', siw_GetPolicy env),
      (''POST /v1/policies/validate'', siw_ValidatePolicy env)]"

text \<open>A request no pattern matched is answered by the mux itself.\<close>

definition Router_Handler :: "requestEnv \<Rightarrow> handler" where
  "Router_Handler env r w =
     (let probe = \<lambda>route h. observability route (reIsUUID env) (reNewID env) (reSeconds env) h r w in
      case map_of (HandlerWithOptions env) (hqPattern r) of
        Some h \<Rightarrow> h r w
      | None \<Rightarrow>
          if hqPattern r = routeHealth then probe routeHealth healthHandler
          else if hqPattern r = routeReady then probe routeReady (readyHandler (reShuttingDown env) (reReady env))
          else if hqPattern r = routeMCP \<or> hqPattern r = ''/mcp/{$}'' then
            (case reMCP env of
               None \<Rightarrow> (WriteHeader (reMux env) [] w, False)
             | Some h \<Rightarrow> mountMCP (reConfig env) (reAllow env) (reIsUUID env) (reNewID env) (reSeconds env) h r w)
          else (WriteHeader (reMux env) [] w, False))"

section \<open>Every endpoint keeps the contract of a handler\<close>

definition step_ok :: "bool \<Rightarrow> httpReq \<Rightarrow> writer \<Rightarrow> writer \<times> bool \<Rightarrow> bool" where
  "step_ok late r w = (\<lambda>(w', panics).
     (metrics_ok (wrMetrics w) \<longrightarrow> metrics_ok (wrMetrics w')) \<and>
     httpInFlight (wrMetrics w') = httpInFlight (wrMetrics w) \<and> httpRequests (wrMetrics w') = httpRequests (wrMetrics w) \<and>
     (wrReply w = None \<and> wrStatus w = 0 \<longrightarrow> one_status w' \<or> late \<and> late_failure w') \<and>
     (\<not> panics \<longrightarrow> wrReply w' \<noteq> None) \<and> (scoped (hqScopeID r) w \<longrightarrow> scoped (hqScopeID r) w'))"

lemma api_handler_iff: "api_handler h late \<longleftrightarrow> (\<forall>r w. step_ok late r w (h r w))"
  unfolding api_handler_def step_ok_def case_prod_beta by blast

text \<open>A step that only changes the instruments of the pipeline and its world, before the rest.\<close>

definition quiet :: "writer \<Rightarrow> writer \<Rightarrow> bool" where
  "quiet w w' \<longleftrightarrow> (metrics_ok (wrMetrics w) \<longrightarrow> metrics_ok (wrMetrics w')) \<and>
     httpInFlight (wrMetrics w') = httpInFlight (wrMetrics w) \<and> httpRequests (wrMetrics w') = httpRequests (wrMetrics w) \<and>
     wrReply w' = wrReply w \<and> wrStatus w' = wrStatus w \<and> wrLog w' = wrLog w"

lemma quiet_then: "quiet w w1 \<Longrightarrow> step_ok late r w1 w' \<Longrightarrow> step_ok late r w w'"
  by (auto simp: quiet_def step_ok_def scoped_def)

lemma quiet_panics: "quiet w w' \<Longrightarrow> step_ok late r w (w', True)"
  by (auto simp: quiet_def step_ok_def scoped_def one_status_def)

lemma visit_ok: "reply_status response \<noteq> 0 \<Longrightarrow> step_ok (sending = WritingFails) r w (visitResponse sending response r w)"
  by (cases sending) (auto simp: step_ok_def visitResponse_def writeResponseError_def scoped_def one_status_def late_failure_def
      split: option.split)

lemma request_error_ok: "step_ok late r w (writeRequestError big r w)"
  by (auto simp: step_ok_def writeRequestError_def Let_def scoped_def one_status_def split: option.split)

lemma withBody_ok: "(\<And>b w. step_ok late r w (k b r w)) \<Longrightarrow> step_ok late r w (withBody decode k r w)"
  by (simp add: withBody_def request_error_ok split: option.split)

lemma observe_http [simp]:
  "httpInFlight (fst (observe e m)) = httpInFlight m" "httpRequests (fst (observe e m)) = httpRequests m"
  by (cases e; simp add: observe_def record_defs followed_simps)+

lemma observeAll_http [simp]:
  "httpInFlight (fst (observeAll observe es m)) = httpInFlight m"
  "httpRequests (fst (observeAll observe es m)) = httpRequests m"
  "metrics_ok (fst (observeAll observe es m)) = metrics_ok m"
  by (induction es arbitrary: m) (simp_all add: followed_simps)

lemma pipelineRan_quiet: "quiet w (fst (pipelineRan after w))"
proof -
  have "metrics_ok (m\<lparr>providerInFlight := g\<rparr>) = metrics_ok m" for m g by (simp add: metrics_ok_def)
  then show ?thesis
    by (simp add: pipelineRan_def quiet_def Let_def recordCallFinished_def case_prod_beta split: bool.split)
qed

text \<open>The statuses of the handlers are statuses.\<close>

lemma statuses:
  "reply_status (snd (CreateEvaluation svc se wd request)) \<noteq> 0"
  "reply_status (ListEvaluations se db params) \<noteq> 0" "reply_status (GetEvaluation se db i) \<noteq> 0"
  "reply_status (snd (SubmitFeedback_handler svc se wd feedback)) \<noteq> 0" "reply_status (ListPolicies ps) \<noteq> 0"
  "reply_status (ValidatePolicy yaml ps document) \<noteq> 0" "reply_status (GetPolicy ps name version) \<noteq> 0"
proof -
  have st: "reply_status (createEvaluationStatus f) \<noteq> 0" for f
    by (simp add: createEvaluationStatus_def createEvaluationClientFailure_def createEvaluationUpstreamFailure_def)
  show "reply_status (snd (CreateEvaluation svc se wd request)) \<noteq> 0"
    by (simp add: CreateEvaluation_def st createEvaluationFailure_is split: option.split prod.split sum.split)
qed (simp_all add: ListEvaluations_def GetEvaluation_def SubmitFeedback_handler_def ListPolicies_def ValidatePolicy_def
    GetPolicy_def Let_def split: option.split prod.split sum.split)

lemma endpoints_ok:
  fixes env :: requestEnv
  defines "late \<equiv> reSending env = WritingFails"
  shows "api_handler (strict_CreateEvaluation env key) late" "api_handler (strict_ListEvaluations env params) late"
    "api_handler (strict_GetEvaluation env i) late" "api_handler (strict_SubmitFeedback env i) late"
    "api_handler (strict_ListPolicies env) late" "api_handler (strict_ValidatePolicy env) late"
    "api_handler (strict_GetPolicy env name version) late"
proof -
  note visit = visit_ok [of _ "reSending env", folded late_def]
  show "api_handler (strict_ListEvaluations env params) late" "api_handler (strict_GetEvaluation env i) late"
    "api_handler (strict_ListPolicies env) late" "api_handler (strict_GetPolicy env name version) late"
    by (simp_all add: api_handler_iff strict_ListEvaluations_def strict_GetEvaluation_def strict_ListPolicies_def
        strict_GetPolicy_def visit statuses)
  show "api_handler (strict_ValidatePolicy env) late"
    unfolding api_handler_iff strict_ValidatePolicy_def by (intro allI withBody_ok visit statuses)
  have "quiet w (w\<lparr>wrWorld := wd\<rparr>)" for w wd by (simp add: quiet_def)
  then show "api_handler (strict_SubmitFeedback env i) late"
    unfolding api_handler_iff strict_SubmitFeedback_def case_prod_beta
    by (intro allI withBody_ok) (rule quiet_then, assumption, rule visit, rule statuses)
  have "step_ok late r w (case pipelineRan wd w of (w', True) \<Rightarrow> (w', True)
      | (w', False) \<Rightarrow> visitResponse (reSending env) response r w')" if "reply_status response \<noteq> 0"
    for r w wd and response :: "apiEvaluation reply"
    using pipelineRan_quiet [of w wd] visit [OF that]
    by (auto split: prod.split bool.split intro: quiet_panics quiet_then)
  then show "api_handler (strict_CreateEvaluation env key) late"
    unfolding api_handler_iff strict_CreateEvaluation_def case_prod_beta
    by (intro allI withBody_ok) (simp add: statuses case_prod_beta)
qed

section \<open>Bound requests run through the chain\<close>

definition api_patterns :: "string set" where
  "api_patterns = {''GET /v1/evaluations'', ''POST /v1/evaluations'', ''GET /v1/evaluations/{evaluationId}'',
     ''POST /v1/evaluations/{evaluationId}/feedback'', ''GET /v1/policies'',
     ''GET /v1/policies/{policyName}/versions/{policyVersion}'', ''POST /v1/policies/validate''}"

definition binds :: "requestEnv \<Rightarrow> httpReq \<Rightarrow> bool" where
  "binds env r \<longleftrightarrow>
     (hqPattern r = ''GET /v1/evaluations'' \<longrightarrow> \<not> isl (bindListParams (reBinding env) r)) \<and>
     (hqPattern r = ''POST /v1/evaluations'' \<longrightarrow> \<not> isl (bindIdempotencyKey (reBinding env) r)) \<and>
     (hqPattern r \<in> {''GET /v1/evaluations/{evaluationId}'', ''POST /v1/evaluations/{evaluationId}/feedback''} \<longrightarrow>
        \<not> isl (bdUUID (reBinding env) (PathValue r ''evaluationId''))) \<and>
     (hqPattern r = ''GET /v1/policies/{policyName}/versions/{policyVersion}'' \<longrightarrow> \<not> isl (bindPolicyRef (reBinding env) r))"

lemma bound_if:
  "bound env params k r w = (if isl params then writeRequestError False r w else apiChain env (k (projr params)) r w)"
  by (simp add: bound_def split: sum.split)

lemma api_pattern_cases:
  assumes "hqPattern r \<in> api_patterns"
  obtains (List) "hqPattern r = ''GET /v1/evaluations''" "Router_Handler env r = siw_ListEvaluations env r"
  | (Create) "hqPattern r = ''POST /v1/evaluations''" "Router_Handler env r = siw_CreateEvaluation env r"
  | (Get) "hqPattern r = ''GET /v1/evaluations/{evaluationId}''" "Router_Handler env r = siw_GetEvaluation env r"
  | (Feedback) "hqPattern r = ''POST /v1/evaluations/{evaluationId}/feedback''" "Router_Handler env r = siw_SubmitFeedback env r"
  | (Policies) "hqPattern r = ''GET /v1/policies''" "Router_Handler env r = siw_ListPolicies env r"
  | (Policy) "hqPattern r = ''GET /v1/policies/{policyName}/versions/{policyVersion}''" "Router_Handler env r = siw_GetPolicy env r"
  | (Validate) "hqPattern r = ''POST /v1/policies/validate''" "Router_Handler env r = siw_ValidatePolicy env r"
proof -
  have "map_of (HandlerWithOptions env) (hqPattern r) = Some h \<Longrightarrow> Router_Handler env r = h r" for h
    by (simp add: fun_eq_iff Router_Handler_def)
  then show thesis using assms that unfolding api_patterns_def HandlerWithOptions_def by auto
qed

lemma Router_unbound:
  assumes "hqPattern r \<in> api_patterns" and "\<not> binds env r"
  shows "Router_Handler env r w = writeRequestError False r w"
  by (rule api_pattern_cases [OF assms(1), of env])
    (use assms(2) in \<open>simp_all add: binds_def bound_if siw_ListEvaluations_def siw_CreateEvaluation_def siw_GetEvaluation_def
        siw_SubmitFeedback_def siw_GetPolicy_def\<close>)

lemma unbound_reply:
  "writeRequestError False r (startWriter world m) =
     (\<lparr>wrHeaders = [(''Content-Type'', ''application/json'')], wrReply = Some (400, ''BAD_REQUEST''), wrStatus = 400,
       wrMetrics = m, wrLog = [(hqScopeID r, RejectedAtBinding)], wrWorld = world\<rparr>, False)"
  by (simp add: writeRequestError_def Let_def addLog_def WriteJSON_def WriteHeader_def Write_def startWriter_def)

lemma Router_bound:
  assumes "hqPattern r \<in> api_patterns" and "binds env r"
  shows "\<exists>h. api_handler h (reSending env = WritingFails) \<and> Router_Handler env r = apiChain env h r"
proof -
  note ok = endpoints_ok [of env]
  from assms(1) show ?thesis
  proof (cases rule: api_pattern_cases [where env = env])
    case List
    with assms(2) ok(2) show ?thesis by (auto simp: binds_def siw_ListEvaluations_def bound_if fun_eq_iff)
  next
    case Create
    with assms(2) ok(1) show ?thesis by (auto simp: binds_def siw_CreateEvaluation_def bound_if fun_eq_iff)
  next
    case Get
    with assms(2) ok(3) show ?thesis by (auto simp: binds_def siw_GetEvaluation_def bound_if fun_eq_iff)
  next
    case Feedback
    with assms(2) ok(4) show ?thesis by (auto simp: binds_def siw_SubmitFeedback_def bound_if fun_eq_iff)
  next
    case Policies
    with ok(5) show ?thesis by (auto simp: siw_ListPolicies_def)
  next
    case Policy
    with assms(2) ok(7) show ?thesis by (auto simp: binds_def siw_GetPolicy_def bound_if fun_eq_iff case_prod_beta)
  next
    case Validate
    with ok(6) show ?thesis by (auto simp: siw_ValidatePolicy_def)
  qed
qed

section \<open>What a request leaves on the instruments\<close>

text \<open>
  A bound request gets a reply and is counted once, under the status of that reply, or as an internal
  error when the body of the reply could not be written; only one whose handler panicked is not
  counted. Either way the number in flight is back and every log entry carries the request's
  identifier.
\<close>

lemma api_request_observed:
  assumes "hqPattern r \<in> api_patterns" and "binds env r" and "metrics_ok m" and "validUTF8 (hqMethod r)"
  obtains w' status code where "Router_Handler env r (startWriter world m) = (w', False)"
    and "ggValue (httpInFlight (wrMetrics w')) = ggValue (httpInFlight m)"
    and "scoped (sanitiseRequestID (reIsUUID env) (reNewID env) (hqRequestIDHeader r)) w'"
    and "wrReply w' = Some (status, code)"
    and "let counted = (\<lambda>s. (reading (httpRequests m))
        ([hqMethod r, hqPattern r, Itoa s] := reading (httpRequests m) [hqMethod r, hqPattern r, Itoa s] + 1)) in
      reading (httpRequests (wrMetrics w')) = counted status \<or>
      reading (httpRequests (wrMetrics w')) = counted 500 \<and> reSending env = WritingFails \<and> ResponseFailed \<in> snd ` set (wrLog w') \<or>
      reading (httpRequests (wrMetrics w')) = reading (httpRequests m) \<and> HandlerPanicked \<in> snd ` set (wrLog w')"
proof -
  obtain h where h: "api_handler h (reSending env = WritingFails)" "Router_Handler env r = apiChain env h r"
    using Router_bound [OF assms(1, 2)] by blast
  have route: "routeTemplate r = hqPattern r" "validUTF8 (hqPattern r)"
    using assms(1) by (auto simp: api_patterns_def routeTemplate_def; code_simp)+
  let ?g = "guard (reConfig env) (reAllow env) (reStrict env) h"
  have eq: "Router_Handler env r (startWriter world m) =
      observability (hqPattern r) (reIsUUID env) (reNewID env) (reSeconds env) ?g r (startWriter world m)"
    by (simp add: h(2) apiChain_def api_is_guarded route)
  note g = guard_handler [OF h(1), of "reConfig env" "reAllow env" "reStrict env"]
  let ?run = "?g (seen (reIsUUID env) (reNewID env) (hqPattern r) r)
    (entered (reIsUUID env) (reNewID env) (hqPattern r) r (startWriter world m))"
  show thesis
  proof (cases "snd ?run")
    case False
    from api_handler.answered [OF g assms(3, 4) route(2) False, where seconds = "reSeconds env"] obtain w' s where
      w': "observability (hqPattern r) (reIsUUID env) (reNewID env) (reSeconds env) ?g r (startWriter world m) = (w', False)"
        "counts_as (reSending env = WritingFails) w' s"
        "ggValue (httpInFlight (wrMetrics w')) = ggValue (httpInFlight m)"
        "reading (httpRequests (wrMetrics w')) = (reading (httpRequests m))
          ([hqMethod r, hqPattern r, Itoa s] := reading (httpRequests m) [hqMethod r, hqPattern r, Itoa s] + 1)"
        "scoped (sanitiseRequestID (reIsUUID env) (reNewID env) (hqRequestIDHeader r)) w'" by blast
    obtain status code where reply: "wrReply w' = Some (status, code)" using w'(2) by (auto simp: counts_as_def)
    from that [unfolded eq, OF w'(1, 3, 5) reply] show thesis using w'(2) by (auto simp: w'(4) Let_def counts_as_def reply)
  next
    case True
    then obtain w2 where run: "?run = (w2, True)" by (metis prod.collapse)
    from api_handler.panicked [OF g True, where seconds = "reSeconds env"] obtain w' where
      w': "observability (hqPattern r) (reIsUUID env) (reNewID env) (reSeconds env) ?g r (startWriter world m) = (w', False)"
        "wrReply w' \<noteq> None" "ggValue (httpInFlight (wrMetrics w')) = ggValue (httpInFlight m)"
        "reading (httpRequests (wrMetrics w')) = reading (httpRequests m)"
        "scoped (sanitiseRequestID (reIsUUID env) (reNewID env) (hqRequestIDHeader r)) w'" by blast
    have "HandlerPanicked \<in> snd ` set (wrLog w')"
      by (rule observability_panics [where h = ?g and w = "startWriter world m" and seconds = "reSeconds env", OF run])
        (use w'(1) in auto)
    moreover obtain status code where "wrReply w' = Some (status, code)" using w'(2) by auto
    ultimately show thesis using that [unfolded eq, OF w'(1, 3, 5)] w'(4) by (simp add: Let_def)
  qed
qed

section \<open>Probes mint series\<close>

text \<open>The instruments after probes of one path with the given methods, one after the other.\<close>

fun probed :: "requestEnv \<Rightarrow> httpReq \<Rightarrow> World \<Rightarrow> string list \<Rightarrow> Metrics \<Rightarrow> Metrics" where
  "probed env r world [] m = m"
| "probed env r world (verb # verbs) m =
     probed env r world verbs (wrMetrics (fst (Router_Handler env (r\<lparr>hqMethod := verb\<rparr>) (startWriter world m))))"

lemma Router_health:
  assumes "hqPattern r = routeHealth" and "metrics_ok m" and "validUTF8 (hqMethod r)"
  shows "metrics_ok (wrMetrics (fst (Router_Handler env r (startWriter world m))))"
    and "dom (vcSeries (httpRequests (wrMetrics (fst (Router_Handler env r (startWriter world m)))))) =
      insert [hqMethod r, routeHealth, ''200''] (dom (vcSeries (httpRequests m)))"
proof -
  let ?obs = "observability routeHealth (reIsUUID env) (reNewID env) (reSeconds env) healthHandler r (startWriter world m)"
  have eq: "Router_Handler env r (startWriter world m) = ?obs"
    using assms(1) by (simp add: Router_Handler_def HandlerWithOptions_def routeHealth_def)
  have utf: "validUTF8 routeHealth" by code_simp
  have run: "\<not> snd (healthHandler (seen isUUID newID route r) w)" for isUUID newID route w by (simp add: healthHandler_def)
  obtain w' status where w': "?obs = (w', False)" "counts_as False w' status"
      "dom (vcSeries (httpRequests (wrMetrics w'))) = insert [hqMethod r, routeHealth, Itoa status] (dom (vcSeries (httpRequests m)))"
      "wrReply w' = wrReply (fst (healthHandler (seen (reIsUUID env) (reNewID env) routeHealth r)
        (entered (reIsUUID env) (reNewID env) routeHealth r (startWriter world m))))" "metrics_ok (wrMetrics w')"
    by (rule health.answered [OF assms(2, 3) utf run, where seconds = "reSeconds env"]) (rule that; assumption)
  have "Itoa 200 = ''200''" by code_simp
  moreover have "status = 200" using w'(2, 4) by (auto simp: healthHandler_def counts_as_def)
  ultimately show "metrics_ok (wrMetrics (fst (Router_Handler env r (startWriter world m))))"
    and "dom (vcSeries (httpRequests (wrMetrics (fst (Router_Handler env r (startWriter world m)))))) =
      insert [hqMethod r, routeHealth, ''200''] (dom (vcSeries (httpRequests m)))"
    using w'(1, 3, 5) by (simp_all add: eq)
qed

lemma probed_series:
  assumes "hqPattern r = routeHealth" and "metrics_ok m" and "list_all validUTF8 verbs"
  shows "dom (vcSeries (httpRequests (probed env r world verbs m))) =
    (\<lambda>verb. [verb, routeHealth, ''200'']) ` set verbs \<union> dom (vcSeries (httpRequests m))"
  using assms(2, 3)
proof (induction verbs arbitrary: m)
  case (Cons verb verbs)
  have "hqPattern (r\<lparr>hqMethod := verb\<rparr>) = routeHealth" "validUTF8 (hqMethod (r\<lparr>hqMethod := verb\<rparr>))"
    using assms(1) Cons.prems by simp_all
  note step = Router_health [OF this(1) Cons.prems(1) this(2), of env world]
  show ?case using Cons.IH [OF step(1)] Cons.prems(2) step(2) by simp
qed simp

section \<open>A reply that cannot be counted\<close>

text \<open>
  When the provider reports a negative number of tokens, the request panics between the provider
  call and the record: the call was made, no row is added, and the caller gets an internal error.
\<close>

lemma observeAll_stops: "snd (obs e m) \<Longrightarrow> observeAll obs (e # es) m = (fst (obs e m), True)"
  by (simp add: followed_def)

lemma uncountable_call_panics:
  assumes "metrics_ok m" and "svcObserved svc" and "svcProvider svc request = Inr response"
    and "rsModel response \<noteq> []" and "validUTF8 (rsModel response)"
    and "- (2 ^ 53) < usInputTokens (rsUsage response)" and "usInputTokens (rsUsage response) < 0"
  shows "snd (observeAll observe (call_events svc request) m)"
proof -
  have two: "observeAll observe (ProviderCallStarted # ObserveProviderCall n # es) m =
      observeAll observe es (fst (observe (ObserveProviderCall n) (fst (observe ProviderCallStarted m))))" for n es
    by (simp add: followed_def observe_def recordCallStarted_def recordProviderCall_def)
  let ?m = "fst (observe (ObserveProviderCall (AttemptCount response)) (fst (observe ProviderCallStarted m)))"
  have "metrics_ok ?m" using assms(1) by simp
  then have "snd (observe (ObserveTokens (rsModel response) (usInputTokens (rsUsage response)) out) ?m)" for out
    by (rule negative_tokens_panic [OF _ assms(4-7)])
  then show ?thesis using assms(2, 3)
    by (simp add: call_events_def two observeAll_stops del: observeAll.simps)
qed

lemma call_events_no_decision: "\<forall>e \<in> set (call_events svc request). \<not> is_decision e"
  by (auto simp: call_events_def split: sum.splits)

lemma pipelineRan_lost:
  assumes "wEvents after = wEvents (wrWorld w) @ call_events svc request @ ds" and "list_all is_decision ds"
    and "snd (observeAll observe (call_events svc request) (wrMetrics w))"
  obtains w' where "pipelineRan after w = (w', True)" and "wCalls (wrWorld w') = wCalls after"
    and "dbEvaluations (wDB (wrWorld w')) = dbEvaluations (wDB (wrWorld w))" and "wrReply w' = wrReply w"
proof -
  have "filter (\<lambda>e. \<not> is_decision e) ds = []" using assms(2) by (simp add: filter_empty_conv list_all_iff)
  then have "filter (\<lambda>e. \<not> is_decision e) (drop (length (wEvents (wrWorld w))) (wEvents after)) = call_events svc request"
    using call_events_no_decision by (simp add: assms(1) filter_id_conv)
  moreover obtain m where "observeAll observe (call_events svc request) (wrMetrics w) = (m, True)"
    using assms(3) by (metis prod.collapse)
  ultimately have "pipelineRan after w = (w\<lparr>wrMetrics := fst (recordCallFinished m),
      wrWorld := (wrWorld w)\<lparr>wCalls := wCalls after, wEvents := wEvents (wrWorld w) @ call_events svc request,
        wDB := (wDB (wrWorld w))\<lparr>dbSnapshots := dbSnapshots (wDB after)\<rparr>\<rparr>\<rparr>, True)"
    by (simp add: pipelineRan_def Let_def)
  then show thesis by (rule that) simp_all
qed

lemma decide_calls:
  assumes "decide svc se w compiled pk input = (w', result)" and "wCalls w' \<noteq> wCalls w"
  shows "wEvents w' = wEvents w @ call_events svc (buildProviderRequest compiled input)"
  using assms by (auto simp: decide_def askProvider_def call_events_def Let_def emit_def
      split: sum.splits option.splits prod.splits)

lemma createBegin_calls:
  assumes "createBegin svc se w input = (w', result)" and "wCalls w' \<noteq> wCalls w"
  shows "\<exists>request. wEvents w' = wEvents w @ call_events svc request"
  using assms by (auto simp: createBegin_def split: sum.splits option.splits prod.splits dest!: decide_calls)

lemma Create_calls:
  assumes "Create svc se w input = (w', result)" and "wCalls w' \<noteq> wCalls w"
  shows "\<exists>request ds. wEvents w' = wEvents w @ call_events svc request @ ds \<and> list_all is_decision ds"
proof -
  obtain w1 b where started: "createBegin svc se w input = (w1, b)" by fastforce
  have more: "\<exists>ds. wEvents w' = wEvents w1 @ ds \<and> list_all is_decision ds \<and> wCalls w' = wCalls w1"
    using assms(1) started
    by (auto simp: Create_def createCommit_def observeCompleted_def emit_def split: sum.splits prod.splits
        dest!: persist_Inl persist_Inr(5))
  then have "wCalls w1 \<noteq> wCalls w" using assms(2) by auto
  with createBegin_calls [OF started] more show ?thesis by fastforce
qed

lemma uncountable_reply_loses_evaluation:
  assumes "svcObserved (reService env)" and "metrics_ok (wrMetrics w)"
    and "\<And>request. \<exists>response. svcProvider (reService env) request = Inr response \<and> rsModel response \<noteq> [] \<and>
      validUTF8 (rsModel response) \<and> - (2 ^ 53) < usInputTokens (rsUsage response) \<and> usInputTokens (rsUsage response) < 0"
    and "readAll r = Some text" and "bcCreate (reDecoder env) text = Some body"
    and "CreateEvaluation (reService env) (reSession env) (wrWorld w)
      \<lparr>crqBody = Some body, crqIdempotencyKey = key, crqRequestID = hqScopeID r\<rparr> = (world, response)"
    and "wCalls world \<noteq> wCalls (wrWorld w)"
  shows "\<exists>w'. strict_CreateEvaluation env key r w = (w', True) \<and> wCalls (wrWorld w') = wCalls world \<and>
    dbEvaluations (wDB (wrWorld w')) = dbEvaluations (wDB (wrWorld w)) \<and> wrReply w' = wrReply w"
proof -
  have "fst (Create (reService env) (reSession env) (wrWorld w)
      (createInputFromRequest \<lparr>crqBody = Some body, crqIdempotencyKey = key, crqRequestID = hqScopeID r\<rparr> body)) = world"
    using assms(6) by (auto simp: CreateEvaluation_def split: prod.splits sum.splits option.splits)
  then obtain request ds where ev: "wEvents world = wEvents (wrWorld w) @ call_events (reService env) request @ ds" "list_all is_decision ds"
    using Create_calls [OF prod.collapse [symmetric]] assms(7) by metis
  obtain reply where "svcProvider (reService env) request = Inr reply" "rsModel reply \<noteq> []" "validUTF8 (rsModel reply)"
    "- (2 ^ 53) < usInputTokens (rsUsage reply)" "usInputTokens (rsUsage reply) < 0" using assms(3) [of request] by blast
  from uncountable_call_panics [OF assms(2, 1) this]
  have stop: "snd (observeAll observe (call_events (reService env) request) (wrMetrics w))" .
  show ?thesis
    by (rule pipelineRan_lost [OF ev stop]) (simp add: strict_CreateEvaluation_def withBody_def assms(4-6))
qed

end
