(* ===== verification/Database.thy ===== *)
theory Database
  imports Metrics
begin

text \<open>
  Opening and closing the database (\<open>internal/pkg/db/db.go\<close>). What the drivers do is an argument:
  which of their calls fail. The state is what the program holds afterwards: the connection pools
  that are open, the settings applied to them and the callbacks registered. The lemmas show what a
  successful open guarantees, that closing is idempotent, and which failures leave a pool behind.
\<close>

section \<open>Drivers and configuration\<close>

definition Driver_IsValid :: "string \<Rightarrow> bool" where
  "Driver_IsValid d \<longleftrightarrow> d = DriverSQLite \<or> d = DriverPostgres"

definition defaultBusyTimeout :: duration where "defaultBusyTimeout = 5 * 1000000000"
definition sqliteMaxOpenConns :: int where "sqliteMaxOpenConns = 1"

definition pragmaJournalWAL :: string where "pragmaJournalWAL = ''PRAGMA journal_mode=WAL''"
definition pragmaForeignKeysOn :: string where "pragmaForeignKeysOn = ''PRAGMA foreign_keys=ON''"
definition pragmaSynchronousNRM :: string where "pragmaSynchronousNRM = ''PRAGMA synchronous=NORMAL''"

record PostgresConfig =
  pgHostname :: string
  pgPort :: int
  pgUsername :: string
  pgPassword :: string
  pgDatabase :: string
  pgIsSSL :: bool

record dbConfig =
  dbcDriver :: string
  dbcSQLitePath :: string
  dbcSQLiteBusyTimeout :: duration
  dbcPostgres :: PostgresConfig

section \<open>Opening\<close>

text \<open>The calls of the drivers and the error each returns, if any.\<close>

record driverCalls =
  drOpen :: "goerror option"
  drPool :: "goerror option"
  drRegister :: "string \<Rightarrow> goerror option"
  drExec :: "string \<Rightarrow> goerror option"
  drMigrate :: "goerror option"
  drClose :: "goerror option"

record dbState =
  dsPools :: nat
  dsMaxOpen :: "int option"
  dsPragmas :: "string list"
  dsCallbacks :: "string list"
  dsMigrated :: bool

record Database =
  dtDriver :: string
  dtClose :: bool

definition poolClosed :: "dbState \<Rightarrow> dbState" where
  "poolClosed s = s\<lparr>dsPools := dsPools s - 1\<rparr>"

definition busyTimeoutPragma :: "duration \<Rightarrow> string" where
  "busyTimeoutPragma timeout = ''PRAGMA busy_timeout='' @ Itoa (Milliseconds timeout)"

fun execAll :: "(string \<Rightarrow> goerror option) \<Rightarrow> string list \<Rightarrow> dbState \<Rightarrow> dbState \<times> goerror option" where
  "execAll exec [] s = (s, None)"
| "execAll exec (pragma # pragmas) s =
     (case exec pragma of
        Some e \<Rightarrow> (s, Some e)
      | None \<Rightarrow> execAll exec pragmas (s\<lparr>dsPragmas := dsPragmas s @ [pragma]\<rparr>))"

definition applySQLitePragmas :: "(string \<Rightarrow> goerror option) \<Rightarrow> duration \<Rightarrow> dbState \<Rightarrow> dbState \<times> goerror option" where
  "applySQLitePragmas exec busyTimeout =
     execAll exec [pragmaJournalWAL, pragmaForeignKeysOn, pragmaSynchronousNRM, busyTimeoutPragma busyTimeout]"

text \<open>The cause is returned whether or not closing the pool succeeds.\<close>

definition closeOnSetupError :: "goerror \<Rightarrow> dbState \<Rightarrow> dbState \<times> goerror" where
  "closeOnSetupError cause s = (poolClosed s, cause)"

definition openSQLite :: "driverCalls \<Rightarrow> dbConfig \<Rightarrow> bool \<Rightarrow> dbState \<Rightarrow> dbState \<times> (goerror + Database)" where
  "openSQLite dr config observed s =
     (if dbcSQLitePath config = [] then (s, Inl [ErrRequiredConfigValueNotSet])
      else let busyTimeout = (if dbcSQLiteBusyTimeout config \<le> 0 then defaultBusyTimeout else dbcSQLiteBusyTimeout config) in
        case drOpen dr of
          Some e \<Rightarrow> (s, Inl e)
        | None \<Rightarrow>
          let s1 = s\<lparr>dsPools := Suc (dsPools s)\<rparr> in
          case drPool dr of
            Some e \<Rightarrow> (s1, Inl e)
          | None \<Rightarrow>
            let s2 = s1\<lparr>dsMaxOpen := Some sqliteMaxOpenConns\<rparr> in
            case registerObserver (drRegister dr) observed of
              Inl e \<Rightarrow> (case closeOnSetupError e s2 of (s3, e') \<Rightarrow> (s3, Inl e'))
            | Inr names \<Rightarrow>
              (case applySQLitePragmas (drExec dr) busyTimeout (s2\<lparr>dsCallbacks := names\<rparr>) of
                 (s3, Some e) \<Rightarrow> (s3, Inl e)
               | (s3, None) \<Rightarrow>
                   (case drMigrate dr of
                      Some e \<Rightarrow> (s3, Inl e)
                    | None \<Rightarrow> (s3\<lparr>dsMigrated := True\<rparr>, Inr \<lparr>dtDriver = DriverSQLite, dtClose = True\<rparr>))))"

definition openPostgres :: "driverCalls \<Rightarrow> dbConfig \<Rightarrow> bool \<Rightarrow> dbState \<Rightarrow> dbState \<times> (goerror + Database)" where
  "openPostgres dr config observed s =
     (case drOpen dr of
        Some e \<Rightarrow> (s, Inl e)
      | None \<Rightarrow>
        let s1 = s\<lparr>dsPools := Suc (dsPools s)\<rparr> in
        case registerObserver (drRegister dr) observed of
          Inl e \<Rightarrow> (poolClosed s1, Inl e)
        | Inr names \<Rightarrow>
          (case drMigrate dr of
             Some e \<Rightarrow> (poolClosed (s1\<lparr>dsCallbacks := names\<rparr>), Inl e)
           | None \<Rightarrow> (s1\<lparr>dsCallbacks := names, dsMigrated := True\<rparr>, Inr \<lparr>dtDriver = DriverPostgres, dtClose = True\<rparr>)))"

definition Open_db :: "driverCalls \<Rightarrow> dbConfig \<Rightarrow> bool \<Rightarrow> dbState \<Rightarrow> dbState \<times> (goerror + Database)" where
  "Open_db dr config observed s =
     (if \<not> Driver_IsValid (dbcDriver config) then (s, Inl [ErrInvalidValue])
      else if dbcDriver config = DriverSQLite then openSQLite dr config observed s
      else openPostgres dr config observed s)"

text \<open>The function to call is taken once: a second close does nothing.\<close>

definition Close_db :: "driverCalls \<Rightarrow> Database option \<Rightarrow> dbState \<Rightarrow> dbState \<times> Database option \<times> goerror option" where
  "Close_db dr d s =
     (case d of
        None \<Rightarrow> (s, None, None)
      | Some db \<Rightarrow> if \<not> dtClose db then (s, Some db, None)
                   else (poolClosed s, Some (db\<lparr>dtClose := False\<rparr>), drClose dr))"

section \<open>What opening and closing guarantee\<close>

lemma registerPairs_names:
  "registerPairs refuse ops names = Inr names' \<Longrightarrow>
     names' = names @ concat (map (\<lambda>op. [callbackPrefix @ op @ ''_before'', callbackPrefix @ op @ ''_after'']) ops)"
proof (induction ops arbitrary: names)
  case (Cons op ops)
  then obtain names1 where "registerPair refuse op names = Inr names1" "registerPairs refuse ops names1 = Inr names'"
    by (auto simp: rbind_Inr_iff)
  with Cons.IH [of names1] show ?case by (simp add: registerPair_def Let_def split: option.splits)
qed simp

lemma registerObserver_names:
  "registerObserver refuse True = Inr names \<Longrightarrow>
     length names = 12 \<and> (\<forall>op \<in> set observedOperations. callbackPrefix @ op @ ''_after'' \<in> set names)"
  using registerPairs_names [of refuse observedOperations "[]" names]
  by (simp add: registerObserver_def del: registerPairs.simps) (simp add: observedOperations_def)

lemma execAll_None:
  "execAll exec pragmas s = (s', None) \<Longrightarrow> s' = s\<lparr>dsPragmas := dsPragmas s @ pragmas\<rparr>"
proof (induction pragmas arbitrary: s)
  case (Cons a pragmas)
  then show ?case using Cons.IH [of "s\<lparr>dsPragmas := dsPragmas s @ [a]\<rparr>"] by (simp split: option.splits)
qed simp

lemma execAll_pools: "dsPools (fst (execAll exec pragmas s)) = dsPools s"
  by (induction pragmas arbitrary: s) (auto split: option.splits)

text \<open>An open that succeeds holds one more pool, migrated; on SQLite with one writer and all pragmas.\<close>

lemma Open_succeeds:
  assumes "Open_db dr config observed s = (s', Inr db)"
  shows "dsPools s' = Suc (dsPools s)" and "dsMigrated s'" and "dtClose db" and "dtDriver db = dbcDriver config"
    and "drMigrate dr = None"
    and "dbcDriver config = DriverSQLite \<Longrightarrow> dsMaxOpen s' = Some 1 \<and> dbcSQLitePath config \<noteq> [] \<and>
      {pragmaJournalWAL, pragmaForeignKeysOn, pragmaSynchronousNRM} \<subseteq> set (dsPragmas s')"
proof -
  have split: "dbcDriver config = DriverSQLite \<and> openSQLite dr config observed s = (s', Inr db) \<or>
      dbcDriver config = DriverPostgres \<and> openPostgres dr config observed s = (s', Inr db)"
    using assms by (auto simp: Open_db_def Driver_IsValid_def split: if_splits)
  have sqlite: "dsPools s' = Suc (dsPools s) \<and> dsMigrated s' \<and> dtClose db \<and> dtDriver db = DriverSQLite \<and>
      drMigrate dr = None \<and> dsMaxOpen s' = Some 1 \<and> dbcSQLitePath config \<noteq> [] \<and>
      {pragmaJournalWAL, pragmaForeignKeysOn, pragmaSynchronousNRM} \<subseteq> set (dsPragmas s')"
    if "openSQLite dr config observed s = (s', Inr db)"
    using that by (auto simp: openSQLite_def Let_def applySQLitePragmas_def sqliteMaxOpenConns_def
        split: if_splits option.splits sum.splits prod.splits dest!: execAll_None)
  have postgres: "dsPools s' = Suc (dsPools s) \<and> dsMigrated s' \<and> dtClose db \<and> dtDriver db = DriverPostgres \<and> drMigrate dr = None"
    if "openPostgres dr config observed s = (s', Inr db)"
    using that by (auto simp: openPostgres_def Let_def split: if_splits option.splits sum.splits)
  from split sqlite postgres show "dsPools s' = Suc (dsPools s)" and "dsMigrated s'" and "dtClose db"
    and "dtDriver db = dbcDriver config" and "drMigrate dr = None" by metis+
  show "dsMaxOpen s' = Some 1 \<and> dbcSQLitePath config \<noteq> [] \<and>
      {pragmaJournalWAL, pragmaForeignKeysOn, pragmaSynchronousNRM} \<subseteq> set (dsPragmas s')"
    if "dbcDriver config = DriverSQLite"
    using split sqlite that by (auto simp: DriverSQLite_def DriverPostgres_def)
qed

text \<open>A failed open on Postgres leaves nothing open; on SQLite it does when a pragma or the migration fails.\<close>

lemma Open_fails_pools:
  assumes "Open_db dr config observed s = (s', Inl e)"
  shows "dsPools s' = dsPools s \<or>
    dsPools s' = Suc (dsPools s) \<and> dbcDriver config = DriverSQLite \<and> drOpen dr = None \<and>
      (drPool dr \<noteq> None \<or> (\<exists>pragma. drExec dr pragma = Some e) \<or> drMigrate dr = Some e)"
proof -
  have pragma: "\<exists>pragma. exec pragma = Some e" if "execAll exec pragmas t = (t', Some e)" for exec pragmas t t'
    using that by (induction pragmas arbitrary: t) (auto split: option.splits)
  have "dsPools t' = dsPools t" if "execAll exec pragmas t = (t', r)" for exec pragmas t t' r
    using execAll_pools [of exec pragmas t] that by simp
  with assms pragma show ?thesis
    by (auto simp: Open_db_def openSQLite_def openPostgres_def Let_def applySQLitePragmas_def closeOnSetupError_def
        poolClosed_def split: if_splits option.splits sum.splits prod.splits)
qed

lemma failed_migration_leaks_sqlite:
  assumes "dbcDriver config = DriverSQLite" and "dbcSQLitePath config \<noteq> []" and "drOpen dr = None" and "drPool dr = None"
    and "registerObserver (drRegister dr) observed = Inr names" and "drExec dr = (\<lambda>_. None)" and "drMigrate dr = Some e"
  shows "\<exists>s'. Open_db dr config observed s = (s', Inl e) \<and> dsPools s' = Suc (dsPools s)"
  using assms by (simp add: Open_db_def Driver_IsValid_def openSQLite_def Let_def applySQLitePragmas_def)

lemma Close_twice:
  assumes "Close_db dr d s = (s1, d1, r1)"
  shows "Close_db dr d1 s1 = (s1, d1, None)"
  using assms by (auto simp: Close_db_def split: option.splits if_splits)

lemma Open_then_Close:
  assumes "Open_db dr config observed s = (s', Inr db)" and "Close_db dr (Some db) s' = (s2, d2, r)"
  shows "dsPools s2 = dsPools s"
  using assms Open_succeeds(1, 3) [OF assms(1)] by (auto simp: Close_db_def poolClosed_def split: if_splits)

end
