(* ===== verification/TypeSafeClient.thy ===== *)
theory TypeSafeClient
  imports Provider Store
begin

text \<open>
  The public TypeSafe client (\<open>pkg/gotypesafe\<close>: \<open>client.go\<close>, \<open>config.go\<close>, \<open>convert.go\<close>): defaults
  and validation of its configuration, the check of a request, the classification of transport
  failures and statuses, the back-off and the retry loop, and the normalisation of a response.
  The generated HTTP call, the JSON decoder and the date parser are arguments, as are the clock
  and the context: a \<open>clientWorld\<close> gives what each attempt meets. Durations are nanoseconds.
\<close>

section \<open>Configuration\<close>

record tsConfig =
  tcBaseURL :: string
  tcAPIKey :: string
  tcDefaultModel :: string
  tcTimeout :: duration
  tcMaxResponseBytes :: int
  tcConcurrency :: int
  tcMaxAttempts :: int
  tcBackoffBase :: duration
  tcBackoffMax :: duration
  tcMaxElapsed :: duration

definition millisecond :: duration where "millisecond = 1000000"
definition second :: duration where "second = 1000 * millisecond"
definition MaxRetryAfterWait :: duration where "MaxRetryAfterWait = 30 * second"

definition tsWithDefaults :: "tsConfig \<Rightarrow> tsConfig" where
  "tsWithDefaults c = c\<lparr>
     tcBaseURL := (if tcBaseURL c = '''' then ''https://api.typesafe.ai'' else tcBaseURL c),
     tcDefaultModel := (if tcDefaultModel c = '''' then ''jev-latest'' else tcDefaultModel c),
     tcTimeout := (if tcTimeout c \<le> 0 then 10 * second else tcTimeout c),
     tcMaxResponseBytes := (if tcMaxResponseBytes c \<le> 0 then 2 ^ 20 else tcMaxResponseBytes c),
     tcConcurrency := (if tcConcurrency c \<le> 0 then 32 else tcConcurrency c),
     tcMaxAttempts := (if tcMaxAttempts c \<le> 0 then 3 else tcMaxAttempts c),
     tcBackoffBase := (if tcBackoffBase c \<le> 0 then 200 * millisecond else tcBackoffBase c),
     tcBackoffMax := (if tcBackoffMax c \<le> 0 then 5 * second else tcBackoffMax c),
     tcMaxElapsed := (if tcMaxElapsed c \<le> 0 then 30 * second else tcMaxElapsed c)\<rparr>"

definition tsValidate :: "tsConfig \<Rightarrow> goerror + unit" where
  "tsValidate c =
     (if tcBaseURL c = '''' then Inl [ErrRequiredConfigValueNotSet]
      else if tcBackoffMax c < tcBackoffBase c then Inl [ErrInvalidValue] else Inr ())"

text \<open>The client keeps the completed configuration; building the generated client may fail.\<close>

definition tsNew :: "(string \<Rightarrow> goerror option) \<Rightarrow> tsConfig \<Rightarrow> goerror + tsConfig" where
  "tsNew newClient config =
     (let c = tsWithDefaults config in
      rbind (tsValidate c) (\<lambda>_. case newClient (tcBaseURL c) of Some e \<Rightarrow> Inl e | None \<Rightarrow> Inr c))"

section \<open>Requests\<close>

definition normalizedChoiceCriteria :: "goval \<Rightarrow> goerror + goval" where
  "normalizedChoiceCriteria raw =
     (case raw of
        VMap m \<Rightarrow> if length m = 0 \<or> 255 < length m then Inl [ErrInvalidArgument] else Inr raw
      | _ \<Rightarrow> Inl [ErrInvalidArgument])"

definition normalizedScoreCriteria :: "goval \<Rightarrow> goerror + goval" where
  "normalizedScoreCriteria raw =
     (case raw of
        VList xs \<Rightarrow> if length xs < 2 \<or> 10 < length xs then Inl [ErrInvalidArgument] else Inr raw
      | _ \<Rightarrow> Inl [ErrInvalidArgument])"

definition normalizedQuestionCriteria :: "QuestionInput \<Rightarrow> goerror + goval" where
  "normalizedQuestionCriteria q =
     (if qiType q = QuestionTypeNoul then Inr (qiCriteria q)
      else if qiType q = QuestionTypeChoice then normalizedChoiceCriteria (qiCriteria q)
      else if qiType q = QuestionTypeScore then normalizedScoreCriteria (qiCriteria q)
      else Inl [ErrInvalidArgument])"

definition jsonError :: sentinel where "jsonError = ErrOther ''json''"

text \<open>A question of the wire: its fields before encoding, a nil one being absent or null.\<close>

definition buildQuestion :: "QuestionInput \<Rightarrow> goerror + QuestionInput" where
  "buildQuestion q =
     rbind (normalizedQuestionCriteria q) (\<lambda>criteria.
       if Marshal (qiInstructions q) = None \<or> Marshal criteria = None then Inl [jsonError]
       else Inr (q\<lparr>qiCriteria := criteria\<rparr>))"

fun buildQuestions :: "(string, QuestionInput) gomap \<Rightarrow> goerror + (string, QuestionInput) gomap" where
  "buildQuestions [] = Inr []"
| "buildQuestions ((name, q) # rest) =
     (if name = '''' then Inl [ErrInvalidArgument]
      else rbind (buildQuestion q) (\<lambda>wire. rbind (buildQuestions rest) (\<lambda>others. Inr ((name, wire) # others))))"

definition buildRequest :: "tsRequest \<Rightarrow> string \<Rightarrow> goerror + tsRequest" where
  "buildRequest request defaultModel =
     (if length (tsQuestions request) = 0 then Inl [ErrInvalidArgument]
      else if Marshal (tsState request) = None then Inl [jsonError]
      else rbind (buildQuestions (tsQuestions request)) (\<lambda>questions.
        Inr \<lparr>tsState = tsState request,
             tsModel = (if tsModel request = '''' then defaultModel else tsModel request),
             tsQuestions = questions\<rparr>))"

section \<open>Responses\<close>

text \<open>An answer of the wire through the accessors of its union; \<open>None\<close> is a decoding failure.\<close>

record wireChoice =
  wcChoice :: string
  wcConfidence :: float64
  wcProbabilities :: "(string, float64) gomap"

record wireScore =
  wsScore :: float64
  wsConfidence :: float64
  wsProbabilities :: "(string, float64) gomap"
  wsLegend :: "(string, goval option) gomap"

record wireAnswer =
  waDiscriminator :: "string option"
  waNoul :: "float64 option"
  waChoice :: "wireChoice option"
  waScore :: "wireScore option"

record wireResponse =
  wrModel :: string
  wrAnswers :: "(string, wireAnswer) gomap"
  wrUsage :: Usage

definition zeroAnswer :: Answer where
  "zeroAnswer = \<lparr>ansType = '''', ansChoice = '''', ansScore = Fin 0, ansNoul = Fin 0, ansConfidence = Fin 0,
     ansHasConfidence = False, ansProbabilities = [], ansLegend = []\<rparr>"

definition normalizeNoulAnswer :: "wireAnswer \<Rightarrow> goerror + Answer" where
  "normalizeNoulAnswer w =
     (case waNoul w of None \<Rightarrow> Inl [ErrParseFailed]
      | Some v \<Rightarrow> Inr (zeroAnswer\<lparr>ansType := QuestionTypeNoul, ansNoul := v\<rparr>))"

definition normalizeChoiceAnswer :: "wireAnswer \<Rightarrow> goerror + Answer" where
  "normalizeChoiceAnswer w =
     (case waChoice w of None \<Rightarrow> Inl [ErrParseFailed]
      | Some c \<Rightarrow> Inr (zeroAnswer\<lparr>ansType := QuestionTypeChoice, ansChoice := wcChoice c,
          ansConfidence := wcConfidence c, ansHasConfidence := True, ansProbabilities := wcProbabilities c\<rparr>))"

fun decodeLegend :: "(string, goval option) gomap \<Rightarrow> goerror + (string, goval) gomap" where
  "decodeLegend [] = Inr []"
| "decodeLegend ((level, None) # rest) = Inl [jsonError]"
| "decodeLegend ((level, Some v) # rest) = rbind (decodeLegend rest) (\<lambda>others. Inr ((level, v) # others))"

definition normalizeScoreAnswer :: "wireAnswer \<Rightarrow> goerror + Answer" where
  "normalizeScoreAnswer w =
     (case waScore w of None \<Rightarrow> Inl [ErrParseFailed]
      | Some c \<Rightarrow> rbind (decodeLegend (wsLegend c)) (\<lambda>legend.
          Inr (zeroAnswer\<lparr>ansType := QuestionTypeScore, ansScore := wsScore c, ansConfidence := wsConfidence c,
            ansHasConfidence := True, ansProbabilities := wsProbabilities c, ansLegend := legend\<rparr>)))"

definition normalizeAnswer :: "wireAnswer \<Rightarrow> goerror + Answer" where
  "normalizeAnswer w =
     (case waDiscriminator w of
        None \<Rightarrow> Inl [ErrParseFailed]
      | Some t \<Rightarrow>
          if t = QuestionTypeNoul then normalizeNoulAnswer w
          else if t = QuestionTypeChoice then normalizeChoiceAnswer w
          else if t = QuestionTypeScore then normalizeScoreAnswer w
          else Inl [ErrParseFailed])"

fun normalizeAnswers :: "(string, wireAnswer) gomap \<Rightarrow> goerror + Answers" where
  "normalizeAnswers [] = Inr []"
| "normalizeAnswers ((name, w) # rest) =
     rbind (normalizeAnswer w) (\<lambda>a. rbind (normalizeAnswers rest) (\<lambda>others. Inr ((name, a) # others)))"

definition normalizeResponse :: "wireResponse \<Rightarrow> goerror + tsResponse" where
  "normalizeResponse r =
     (if wrModel r = '''' then Inl [ErrParseFailed]
      else rbind (normalizeAnswers (wrAnswers r)) (\<lambda>answers.
        Inr \<lparr>trModel = wrModel r, trAnswers = answers, trUsage = wrUsage r, trAttempts = [], trDuration = 0\<rparr>))"

definition decodeSystemOneResponse :: "(string \<Rightarrow> wireResponse option) \<Rightarrow> string \<Rightarrow> goerror + tsResponse" where
  "decodeSystemOneResponse decode body =
     (case decode body of None \<Rightarrow> Inl [ErrParseFailed] | Some r \<Rightarrow> normalizeResponse r)"

section \<open>Failures\<close>

record tsFailure =
  tfErr :: goerror
  tfStatusCode :: int
  tfRetryable :: bool
  tfRetryAfter :: duration

record httpResponse =
  hrStatus :: int
  hrRetryAfterMs :: string
  hrRetryAfter :: string
  hrBody :: "string option"

text \<open>\<open>ctxErr\<close> is what the context reports when the failure is classified.\<close>

definition classifyTransport :: "sentinel option \<Rightarrow> goerror \<Rightarrow> tsFailure" where
  "classifyTransport ctxErr err =
     (case ctxErr of
        Some e \<Rightarrow> \<lparr>tfErr = [e], tfStatusCode = 0, tfRetryable = False, tfRetryAfter = 0\<rparr>
      | None \<Rightarrow>
          if ErrCanceled \<in> set err then \<lparr>tfErr = [ErrCanceled], tfStatusCode = 0, tfRetryable = False, tfRetryAfter = 0\<rparr>
          else if ErrDeadlineExceeded \<in> set err
          then \<lparr>tfErr = [ErrTimeout], tfStatusCode = 0, tfRetryable = True, tfRetryAfter = 0\<rparr>
          else \<lparr>tfErr = [ErrConnectFailed], tfStatusCode = 0, tfRetryable = True, tfRetryAfter = 0\<rparr>)"

text \<open>
  A header is read as a positive number of milliseconds or seconds, or as a date. \<open>untilDate\<close> is
  the time left until a date the parser of the library accepts. The products wrap.
\<close>

definition positiveCount :: "string \<Rightarrow> int option" where
  "positiveCount s = (case Atoi s of Some n \<Rightarrow> if 0 < n then Some n else None | None \<Rightarrow> None)"

definition parseRetryAfter :: "(string \<Rightarrow> duration option) \<Rightarrow> httpResponse \<Rightarrow> duration" where
  "parseRetryAfter untilDate r =
     (case positiveCount (hrRetryAfterMs r) of
        Some milliseconds \<Rightarrow> wrap64 (milliseconds * millisecond)
      | None \<Rightarrow>
          (case positiveCount (hrRetryAfter r) of
             Some seconds \<Rightarrow> wrap64 (seconds * second)
           | None \<Rightarrow> (case untilDate (hrRetryAfter r) of Some d \<Rightarrow> max d 0 | None \<Rightarrow> 0)))"

definition statusOverloaded :: int where "statusOverloaded = 529"

definition classifyStatus :: "(string \<Rightarrow> duration option) \<Rightarrow> httpResponse \<Rightarrow> tsFailure" where
  "classifyStatus untilDate r =
     (let status = hrStatus r;
          fail = (\<lambda>e retryable. \<lparr>tfErr = [e], tfStatusCode = status, tfRetryable = retryable,
                    tfRetryAfter = parseRetryAfter untilDate r\<rparr>) in
      if status = 401 then fail ErrNotAuthenticated False
      else if status = 403 then fail ErrPermissionDenied False
      else if status = 400 \<or> status = 422 then fail ErrValidationFailed False
      else if status = 429 then fail ErrRateLimited True
      else if status = statusOverloaded then fail tsErrOverloaded True
      else if 500 \<le> status then fail ErrFetchFailed True
      else fail ErrFetchFailed False)"

text \<open>The body is read up to one byte past the limit, a sum that wraps; \<open>None\<close> is a body that cannot be read.\<close>

definition readResponse :: "tsConfig \<Rightarrow> httpResponse \<Rightarrow> goerror + string" where
  "readResponse c r =
     (case hrBody r of
        None \<Rightarrow> Inl [ErrOther ''read'']
      | Some data \<Rightarrow>
          (let body = take (nat (wrap64 (tcMaxResponseBytes c + 1))) data in
           if tcMaxResponseBytes c < int (length body) then Inl [tsErrResponseTooLarge] else Inr body))"

section \<open>One attempt and the retry loop\<close>

text \<open>
  What the attempt of a number meets: the outcome of the call and its duration, the context when
  a transport failure is classified, the context and the elapsed time when a retry is considered,
  the elapsed time when the wait starts, and how the wait ends (\<open>None\<close>: the timer fired). The
  scaling of the base delay by a power of two in floating point is an argument, because its value
  outside the range of the integer type is up to the implementation.
\<close>

record clientWorld =
  cwCall :: "int \<Rightarrow> goerror + httpResponse"
  cwDuration :: "int \<Rightarrow> duration"
  cwCtxCall :: "int \<Rightarrow> sentinel option"
  cwCtxRetry :: "int \<Rightarrow> sentinel option"
  cwElapsedRetry :: "int \<Rightarrow> duration"
  cwElapsedWait :: "int \<Rightarrow> duration"
  cwWait :: "int \<Rightarrow> sentinel option"
  cwTotal :: duration
  cwUntilDate :: "string \<Rightarrow> duration option"
  cwDecode :: "string \<Rightarrow> wireResponse option"
  cwScaled :: "duration \<Rightarrow> int \<Rightarrow> duration"

definition evaluateAttempt :: "tsConfig \<Rightarrow> clientWorld \<Rightarrow> int \<Rightarrow> Attempt \<times> (tsFailure + tsResponse)" where
  "evaluateAttempt c w number =
     (let attempt = \<lparr>atNumber = number, atStatusCode = 0, atDuration = cwDuration w number, atErr = None\<rparr> in
      case cwCall w number of
        Inl err \<Rightarrow>
          (let f = classifyTransport (cwCtxCall w number) err in (attempt\<lparr>atErr := Some (tfErr f)\<rparr>, Inl f))
      | Inr r \<Rightarrow>
          (let attempt = attempt\<lparr>atStatusCode := hrStatus r\<rparr>;
               fail = (\<lambda>e. \<lparr>tfErr = e, tfStatusCode = hrStatus r, tfRetryable = False, tfRetryAfter = 0\<rparr>) in
           case readResponse c r of
             Inl e \<Rightarrow> (attempt\<lparr>atErr := Some e\<rparr>, Inl (fail e))
           | Inr body \<Rightarrow>
               if hrStatus r < 200 \<or> 300 \<le> hrStatus r then
                 (let f = classifyStatus (cwUntilDate w) r in (attempt\<lparr>atErr := Some (tfErr f)\<rparr>, Inl f))
               else (case decodeSystemOneResponse (cwDecode w) body of
                 Inl e \<Rightarrow> (attempt\<lparr>atErr := Some e\<rparr>, Inl (fail e))
               | Inr response \<Rightarrow> (attempt, Inr response))))"

definition shouldRetry :: "tsConfig \<Rightarrow> clientWorld \<Rightarrow> tsFailure \<Rightarrow> int \<Rightarrow> bool" where
  "shouldRetry c w f number \<longleftrightarrow>
     tfRetryable f \<and> number < tcMaxAttempts c \<and> cwCtxRetry w number = None \<and> cwElapsedRetry w number < tcMaxElapsed c"

definition backoffFor :: "tsConfig \<Rightarrow> clientWorld \<Rightarrow> int \<Rightarrow> duration \<Rightarrow> duration" where
  "backoffFor c w number retryAfter =
     min (max retryAfter (min (cwScaled w (tcBackoffBase c) (number - 1)) (tcBackoffMax c))) MaxRetryAfterWait"

definition waitBeforeRetry :: "tsConfig \<Rightarrow> clientWorld \<Rightarrow> int \<Rightarrow> tsFailure \<Rightarrow> goerror + unit" where
  "waitBeforeRetry c w number f =
     (if tcMaxElapsed c \<le> wrap64 (cwElapsedWait w number + backoffFor c w number (tfRetryAfter f)) then Inl [ErrTimeout]
      else case cwWait w number of None \<Rightarrow> Inr () | Some e \<Rightarrow> Inl [e])"

function retryLoop ::
  "tsConfig \<Rightarrow> clientWorld \<Rightarrow> int \<Rightarrow> Attempt list \<Rightarrow> goerror \<Rightarrow> Attempt list \<times> (goerror + tsResponse)" where
  "retryLoop c w number attempts lastErr =
     (if tcMaxAttempts c < number then (attempts, Inl lastErr)
      else case evaluateAttempt c w number of (attempt, outcome) \<Rightarrow>
        let attempts' = attempts @ [attempt] in
        case outcome of
          Inr response \<Rightarrow> (attempts', Inr (response\<lparr>trAttempts := attempts', trDuration := cwTotal w\<rparr>))
        | Inl f \<Rightarrow>
            if \<not> shouldRetry c w f number then (attempts', Inl (tfErr f))
            else case waitBeforeRetry c w number f of
              Inl e \<Rightarrow> (attempts', Inl e)
            | Inr _ \<Rightarrow> retryLoop c w (number + 1) attempts' (tfErr f))"
  by pat_completeness auto
termination by (relation "measure (\<lambda>(c, w, number, _, _). nat (tcMaxAttempts c + 1 - number))") auto

declare retryLoop.simps [simp del]

definition evaluateWithRetries :: "tsConfig \<Rightarrow> clientWorld \<Rightarrow> Attempt list \<times> (goerror + tsResponse)" where
  "evaluateWithRetries c w = retryLoop c w 1 [] []"

text \<open>The slot is acquired before the first attempt; \<open>slot\<close> is the context's error if it ends first.\<close>

definition tsEvaluate ::
  "tsConfig \<Rightarrow> (tsRequest \<Rightarrow> clientWorld) \<Rightarrow> sentinel option \<Rightarrow> tsRequest \<Rightarrow> Attempt list \<times> (goerror + tsResponse)" where
  "tsEvaluate c world slot request =
     (if tcAPIKey c = '''' then ([], Inl [ErrRequiredConfigValueNotSet])
      else case buildRequest request (tcDefaultModel c) of
        Inl e \<Rightarrow> ([], Inl e)
      | Inr body \<Rightarrow>
          (case slot of Some e \<Rightarrow> ([], Inl [e]) | None \<Rightarrow> evaluateWithRetries c (world body)))"

text \<open>The models of the credential: one call without retries; \<open>decodeModels\<close> reads the body.\<close>

definition tsModels ::
  "tsConfig \<Rightarrow> sentinel option \<Rightarrow> sentinel option \<Rightarrow> (string \<Rightarrow> duration option) \<Rightarrow> (string \<Rightarrow> 'm list option) \<Rightarrow>
     goerror + httpResponse \<Rightarrow> goerror + 'm list" where
  "tsModels c slot ctxErr untilDate decodeModels call =
     (if tcAPIKey c = [] then Inl [ErrRequiredConfigValueNotSet]
      else case slot of
        Some e \<Rightarrow> Inl [e]
      | None \<Rightarrow>
          (case call of
             Inl err \<Rightarrow> Inl (tfErr (classifyTransport ctxErr err))
           | Inr response \<Rightarrow>
               (case readResponse c response of
                  Inl e \<Rightarrow> Inl e
                | Inr body \<Rightarrow>
                    if hrStatus response < 200 \<or> 300 \<le> hrStatus response
                    then Inl (tfErr (classifyStatus untilDate response))
                    else (case decodeModels body of None \<Rightarrow> Inl [ErrParseFailed] | Some models \<Rightarrow> Inr models))))"

section \<open>What the loop guarantees\<close>

lemma withDefaults_positive:
  "0 < tcMaxAttempts (tsWithDefaults c)" "0 < tcMaxElapsed (tsWithDefaults c)" "0 < tcBackoffBase (tsWithDefaults c)"
  "0 < tcMaxResponseBytes (tsWithDefaults c)" "0 < tcConcurrency (tsWithDefaults c)"
  by (simp_all add: tsWithDefaults_def second_def millisecond_def)

lemma tsNew_Inr: "tsNew newClient config = Inr c \<Longrightarrow> c = tsWithDefaults config \<and> tsValidate c = Inr ()"
  by (auto simp: tsNew_def Let_def result_iff split: option.splits)

lemma tsNew_complete:
  assumes "tsNew newClient config = Inr c"
  shows "0 < tcMaxAttempts c \<and> 0 < tcMaxElapsed c \<and> 0 < tcBackoffBase c \<and> tcBackoffBase c \<le> tcBackoffMax c \<and>
    0 < tcMaxResponseBytes c \<and> 0 < tcConcurrency c"
proof -
  have "c = tsWithDefaults config" and v: "tsValidate c = Inr ()" using tsNew_Inr [OF assms] by blast+
  moreover have "tcBackoffBase c \<le> tcBackoffMax c" using v by (auto simp: tsValidate_def split: if_splits)
  ultimately show ?thesis using withDefaults_positive by simp
qed

text \<open>An attempt that is followed by another one.\<close>

definition retried :: "tsConfig \<Rightarrow> clientWorld \<Rightarrow> int \<Rightarrow> bool" where
  "retried c w n \<longleftrightarrow>
     (\<exists>f. snd (evaluateAttempt c w n) = Inl f \<and> tfRetryable f \<and> n < tcMaxAttempts c \<and> cwCtxRetry w n = None \<and>
        cwElapsedRetry w n < tcMaxElapsed c \<and>
        wrap64 (cwElapsedWait w n + backoffFor c w n (tfRetryAfter f)) < tcMaxElapsed c \<and> cwWait w n = None)"

text \<open>How the loop ends at an attempt.\<close>

definition ends_with :: "tsConfig \<Rightarrow> clientWorld \<Rightarrow> int \<Rightarrow> Attempt list \<Rightarrow> goerror + tsResponse \<Rightarrow> bool" where
  "ends_with c w n attempts r \<longleftrightarrow>
     (case snd (evaluateAttempt c w n) of
        Inr response \<Rightarrow> r = Inr (response\<lparr>trAttempts := attempts, trDuration := cwTotal w\<rparr>)
      | Inl f \<Rightarrow>
          (\<not> shouldRetry c w f n \<and> r = Inl (tfErr f)) \<or>
          (shouldRetry c w f n \<and> (\<exists>e. waitBeforeRetry c w n f = Inl e \<and> r = Inl e)))"

lemma retryLoop_shape:
  assumes "retryLoop c w n as l = (as', r)" and "n \<le> tcMaxAttempts c"
  shows "\<exists>k. n \<le> k \<and> k \<le> tcMaxAttempts c \<and> as' = as @ map (\<lambda>i. fst (evaluateAttempt c w i)) [n..k] \<and>
    (\<forall>i. n \<le> i \<and> i < k \<longrightarrow> retried c w i) \<and> ends_with c w k as' r"
  using assms
proof (induction c w n as l rule: retryLoop.induct)
  case (1 c w n as l)
  obtain a o1 where ev: "evaluateAttempt c w n = (a, o1)" by fastforce
  have one: "[n..n] = [n]" by simp
  show ?case
  proof (cases "\<exists>f. o1 = Inl f \<and> shouldRetry c w f n \<and> (\<exists>u. waitBeforeRetry c w n f = Inr u)")
    case False
    then have "as' = as @ [a] \<and> ends_with c w n as' r"
      using "1.prems" ev by (auto simp: retryLoop.simps [of c w n] ends_with_def Let_def split: sum.splits if_splits)
    then show ?thesis using "1.prems"(2) ev one by (intro exI [of _ n]) auto
  next
    case True
    then obtain f where f: "o1 = Inl f" "shouldRetry c w f n" "waitBeforeRetry c w n f = Inr ()" by auto
    have go: "retryLoop c w (n + 1) (as @ [a]) (tfErr f) = (as', r)"
      using "1.prems" ev f by (simp add: retryLoop.simps [of c w n] Let_def)
    have "n + 1 \<le> tcMaxAttempts c" using f(2) by (simp add: shouldRetry_def)
    then obtain k where k: "n + 1 \<le> k" "k \<le> tcMaxAttempts c"
      "as' = (as @ [a]) @ map (\<lambda>i. fst (evaluateAttempt c w i)) [n + 1..k]"
      "\<forall>i. n + 1 \<le> i \<and> i < k \<longrightarrow> retried c w i" "ends_with c w k as' r"
      using "1.IH" [OF _ ev [symmetric] refl f(1) _ f(3) go] "1.prems"(2) f(2) by auto
    have "retried c w n"
      using f ev by (auto simp: retried_def shouldRetry_def waitBeforeRetry_def split: if_splits option.splits)
    moreover have "[n..k] = n # [n + 1..k]" using k(1) by (simp add: upto_rec1)
    moreover have "retried c w i" if "n \<le> i" "i < k" for i
      using that k(4) \<open>retried c w n\<close> by (cases "i = n") auto
    ultimately show ?thesis using k ev by (intro exI [of _ k]) auto
  qed
qed

lemma evaluateAttempt_number [simp]: "atNumber (fst (evaluateAttempt c w n)) = n"
  by (auto simp: evaluateAttempt_def Let_def split: sum.splits)

text \<open>Only a transport failure, a rate limit, an overload or a server error is tried again.\<close>

definition worth_retrying :: "Attempt \<Rightarrow> bool" where
  "worth_retrying a \<longleftrightarrow>
     atErr a \<in> Some ` {[ErrTimeout], [ErrConnectFailed], [ErrRateLimited], [tsErrOverloaded], [ErrFetchFailed]} \<and>
     (atStatusCode a = 0 \<or> atStatusCode a = 429 \<or> 500 \<le> atStatusCode a)"

lemma classifyTransport_retryable:
  "tfRetryable (classifyTransport ctx e) \<Longrightarrow> tfErr (classifyTransport ctx e) \<in> {[ErrTimeout], [ErrConnectFailed]}"
  by (auto simp: classifyTransport_def split: option.splits if_splits)

lemma classifyStatus_retryable:
  "tfRetryable (classifyStatus d r) \<Longrightarrow>
     tfErr (classifyStatus d r) \<in> {[ErrRateLimited], [tsErrOverloaded], [ErrFetchFailed]} \<and>
     (hrStatus r = 429 \<or> 500 \<le> hrStatus r)"
  by (simp add: classifyStatus_def Let_def statusOverloaded_def split: if_splits)

lemma retried_worth:
  assumes "retried c w n"
  shows "worth_retrying (fst (evaluateAttempt c w n))"
proof (cases "cwCall w n")
  case (Inl err)
  then show ?thesis using assms classifyTransport_retryable [of "cwCtxCall w n" err]
    by (auto simp: retried_def worth_retrying_def evaluateAttempt_def Let_def)
next
  case (Inr r)
  show ?thesis
  proof (cases "readResponse c r")
    case (Inl e)
    then show ?thesis using assms Inr by (simp add: retried_def evaluateAttempt_def Let_def)
  next
    case body: (Inr body)
    show ?thesis
    proof (cases "hrStatus r < 200 \<or> 300 \<le> hrStatus r")
      case True
      have "evaluateAttempt c w n =
          (\<lparr>atNumber = n, atStatusCode = hrStatus r, atDuration = cwDuration w n,
             atErr = Some (tfErr (classifyStatus (cwUntilDate w) r))\<rparr>, Inl (classifyStatus (cwUntilDate w) r))"
        using Inr body True by (auto simp: evaluateAttempt_def Let_def)
      then show ?thesis using assms classifyStatus_retryable [of "cwUntilDate w" r]
        by (auto simp: retried_def worth_retrying_def)
    next
      case False
      then show ?thesis using assms Inr body
        by (cases "decodeSystemOneResponse (cwDecode w) body") (simp_all add: retried_def evaluateAttempt_def Let_def)
    qed
  qed
qed

lemma backoff_bounded: "backoffFor c w n d \<le> MaxRetryAfterWait"
  by (simp add: backoffFor_def)

lemma evaluateWithRetries_shape:
  assumes "0 < tcMaxAttempts c" and "evaluateWithRetries c w = (as, r)"
  shows "\<exists>k. 1 \<le> k \<and> k \<le> tcMaxAttempts c \<and> map atNumber as = [1..k] \<and>
    (\<forall>i. 1 \<le> i \<and> i < k \<longrightarrow> retried c w i \<and> worth_retrying (as ! nat (i - 1))) \<and> ends_with c w k as r"
proof -
  obtain k where k: "1 \<le> k" "k \<le> tcMaxAttempts c" "as = map (\<lambda>i. fst (evaluateAttempt c w i)) [1..k]"
    "\<forall>i. 1 \<le> i \<and> i < k \<longrightarrow> retried c w i" "ends_with c w k as r"
    using retryLoop_shape [of c w 1 "[]" "[]" as r] assms by (auto simp: evaluateWithRetries_def)
  have "map atNumber as = [1..k]" unfolding k(3) by (simp add: comp_def)
  moreover have "as ! nat (i - 1) = fst (evaluateAttempt c w i)" if "1 \<le> i" "i < k" for i
    using that by (simp add: k(3))
  ultimately show ?thesis using k retried_worth by (intro exI [of _ k]) auto
qed

end
