(* ===== verification/Secrets.thy ===== *)
theory Secrets
  imports Decision
begin

text \<open>
  Encryption of retained input (\<open>internal/pkg/secrets/secrets.go\<close>): the data key in base64, the
  sealer, \<open>Seal\<close> and \<open>Open\<close>. Bytes are characters. The base64 codec of the standard library is
  written out; the AES-GCM primitive is an argument, built from a key and used through its nonce
  size, seal and open operations. The lemmas show that the codec round-trips, that a generated
  key is accepted and that what is sealed under it opens to the same bytes.
\<close>

section \<open>Base64\<close>

text \<open>The alphabet: upper case, lower case, digits, plus and slash.\<close>

definition encodeDigit :: "nat \<Rightarrow> char" where
  "encodeDigit i = char_of
     (if i < 26 then i + 65 else if i < 52 then i + 71 else if i < 62 then i - 4 else if i = 62 then 43 else 47)"

definition decodeDigit :: "char \<Rightarrow> nat option" where
  "decodeDigit c =
     (let n = (of_char c :: nat) in
      if 65 \<le> n \<and> n \<le> 90 then Some (n - 65)
      else if 97 \<le> n \<and> n \<le> 122 then Some (n - 71)
      else if 48 \<le> n \<and> n \<le> 57 then Some (n + 4)
      else if n = 43 then Some 62 else if n = 47 then Some 63 else None)"

fun EncodeToString :: "string \<Rightarrow> string" where
  "EncodeToString [] = []"
| "EncodeToString [a] =
     (let n = of_char a in [encodeDigit (n div 4), encodeDigit (n mod 4 * 16), CHR ''='', CHR ''=''])"
| "EncodeToString [a, b] =
     (let n = of_char a; m = of_char b in
      [encodeDigit (n div 4), encodeDigit (n mod 4 * 16 + m div 16), encodeDigit (m mod 16 * 4), CHR ''=''])"
| "EncodeToString (a # b # c # rest) =
     (let n = of_char a; m = of_char b; k = of_char c in
      encodeDigit (n div 4) # encodeDigit (n mod 4 * 16 + m div 16) # encodeDigit (m mod 16 * 4 + k div 64) #
      encodeDigit (k mod 64) # EncodeToString rest)"

text \<open>
  The decoder takes quanta of four digits, the last one padded to four; bits beyond the last
  whole byte are dropped unchecked, and anything after the padding is an error.
\<close>

fun decodeQuanta :: "string \<Rightarrow> string option" where
  "decodeQuanta [] = Some []"
| "decodeQuanta (a # b # c # d # rest) =
     (case (decodeDigit a, decodeDigit b) of
        (Some n, Some m) \<Rightarrow>
          if c = CHR ''='' then
            if d = CHR ''='' \<and> rest = [] then Some [char_of (n * 4 + m div 16)] else None
          else (case decodeDigit c of
            None \<Rightarrow> None
          | Some k \<Rightarrow>
              if d = CHR ''='' then
                if rest = [] then Some [char_of (n * 4 + m div 16), char_of (m mod 16 * 16 + k div 4)] else None
              else (case (decodeDigit d, decodeQuanta rest) of
                (Some l, Some others) \<Rightarrow>
                  Some (char_of (n * 4 + m div 16) # char_of (m mod 16 * 16 + k div 4) # char_of (k mod 4 * 64 + l) # others)
              | _ \<Rightarrow> None))
      | _ \<Rightarrow> None)"
| "decodeQuanta _ = None"

text \<open>Line breaks are skipped wherever they stand.\<close>

definition DecodeString :: "string \<Rightarrow> string option" where
  "DecodeString s = decodeQuanta (filter (\<lambda>c. of_char c \<noteq> (10 :: nat) \<and> of_char c \<noteq> (13 :: nat)) s)"

section \<open>The sealer\<close>

definition DataKeyBytes :: nat where "DataKeyBytes = 32"

record AEAD =
  aeadNonceSize :: nat
  aeadSeal :: "string \<Rightarrow> string \<Rightarrow> string"
  aeadOpen :: "string \<Rightarrow> string \<Rightarrow> string option"

text \<open>A nil sealer is \<open>None\<close>: retention is off.\<close>

type_synonym Sealer = "AEAD option"

definition NewSealer :: "(string \<Rightarrow> sentinel + AEAD) \<Rightarrow> string \<Rightarrow> sentinel + Sealer" where
  "NewSealer newGCM base64Key =
     (if base64Key = '''' then Inl ErrRequiredConfigValueNotSet
      else case DecodeString base64Key of
        None \<Rightarrow> Inl ErrInvalidValue
      | Some key \<Rightarrow>
          if length key \<noteq> DataKeyBytes then Inl ErrInvalidValue
          else case newGCM key of Inl e \<Rightarrow> Inl e | Inr aead \<Rightarrow> Inr (Some aead))"

definition Enabled :: "Sealer \<Rightarrow> bool" where
  "Enabled s \<longleftrightarrow> s \<noteq> None"

text \<open>The random source fills a buffer of the size it is asked for, or fails.\<close>

definition Seal :: "(nat \<Rightarrow> string option) \<Rightarrow> Sealer \<Rightarrow> string \<Rightarrow> sentinel + string option" where
  "Seal rand s plaintext =
     (case s of
        None \<Rightarrow> Inr None
      | Some aead \<Rightarrow>
          (case rand (aeadNonceSize aead) of
             None \<Rightarrow> Inl (ErrOther ''rand'')
           | Some nonce \<Rightarrow> Inr (Some (nonce @ aeadSeal aead nonce plaintext))))"

definition Open :: "Sealer \<Rightarrow> string \<Rightarrow> sentinel + string" where
  "Open s sealed =
     (case s of
        None \<Rightarrow> Inl ErrUnavailable
      | Some aead \<Rightarrow>
          if length sealed < aeadNonceSize aead then Inl ErrInvalidValue
          else (case aeadOpen aead (take (aeadNonceSize aead) sealed) (drop (aeadNonceSize aead) sealed) of
            None \<Rightarrow> Inl ErrParseFailed
          | Some plaintext \<Rightarrow> Inr plaintext))"

definition GenerateDataKey :: "(nat \<Rightarrow> string option) \<Rightarrow> sentinel + string" where
  "GenerateDataKey rand =
     (case rand DataKeyBytes of None \<Rightarrow> Inl (ErrOther ''rand'') | Some key \<Rightarrow> Inr (EncodeToString key))"

section \<open>The codec round-trips\<close>

lemma encodeDigit_code:
  "i < 64 \<Longrightarrow> of_char (encodeDigit i) =
     (if i < 26 then i + 65 else if i < 52 then i + 71 else if i < 62 then i - 4 else if i = 62 then 43 else 47)"
  by (auto simp: encodeDigit_def)

lemma encodeDigit_facts [simp]:
  assumes "i < 64"
  shows "decodeDigit (encodeDigit i) = Some i" and "encodeDigit i \<noteq> CHR ''=''"
    and "of_char (encodeDigit i) \<noteq> (10 :: nat)" and "of_char (encodeDigit i) \<noteq> (13 :: nat)"
proof -
  show "decodeDigit (encodeDigit i) = Some i"
    using assms by (auto simp: decodeDigit_def Let_def encodeDigit_code)
  have "of_char (encodeDigit i) \<noteq> (of_char CHR ''='' :: nat)"
    using assms by (auto simp: encodeDigit_code)
  then show "encodeDigit i \<noteq> CHR ''=''" by metis
  show "of_char (encodeDigit i) \<noteq> (10 :: nat)" "of_char (encodeDigit i) \<noteq> (13 :: nat)"
    using assms by (auto simp: encodeDigit_code)
qed

lemma byte_lt: "(of_char c :: nat) < 256"
  by simp

lemma digits_of_bytes:
  fixes n m k :: nat
  assumes "n < 256" "m < 256" "k < 256"
  shows "n div 4 < 64" and "n mod 4 * 16 < 64" and "n mod 4 * 16 + m div 16 < 64" and "m mod 16 * 4 < 64"
    and "m mod 16 * 4 + k div 64 < 64" and "k mod 64 < 64"
    and "n div 4 * 4 + n mod 4 * 16 div 16 = n"
    and "n div 4 * 4 + (n mod 4 * 16 + m div 16) div 16 = n"
    and "(n mod 4 * 16 + m div 16) mod 16 * 16 + m mod 16 * 4 div 4 = m"
    and "(n mod 4 * 16 + m div 16) mod 16 * 16 + (m mod 16 * 4 + k div 64) div 4 = m"
    and "(m mod 16 * 4 + k div 64) mod 4 * 64 + k mod 64 = k"
proof -
  have m: "m div 16 < 16" and k: "k div 64 < 4" using assms by (simp_all add: less_mult_imp_div_less)
  have n4: "n mod 4 < 4" and m16: "m mod 16 < 16" by simp_all
  have join: "(n mod 4 * 16 + m div 16) div 16 = n mod 4" "(n mod 4 * 16 + m div 16) mod 16 = m div 16"
    "(m mod 16 * 4 + k div 64) div 4 = m mod 16" "(m mod 16 * 4 + k div 64) mod 4 = k div 64"
    using m k by simp_all
  show "n div 4 < 64" using assms by (simp add: less_mult_imp_div_less)
  show "n mod 4 * 16 < 64" "n mod 4 * 16 + m div 16 < 64" using n4 m by linarith+
  show "m mod 16 * 4 < 64" "m mod 16 * 4 + k div 64 < 64" using m16 k by linarith+
  show "k mod 64 < 64" by simp
  show "n div 4 * 4 + n mod 4 * 16 div 16 = n" by simp
  show "n div 4 * 4 + (n mod 4 * 16 + m div 16) div 16 = n" unfolding join by simp
  show "(n mod 4 * 16 + m div 16) mod 16 * 16 + m mod 16 * 4 div 4 = m" unfolding join by simp
  show "(n mod 4 * 16 + m div 16) mod 16 * 16 + (m mod 16 * 4 + k div 64) div 4 = m" unfolding join by simp
  show "(m mod 16 * 4 + k div 64) mod 4 * 64 + k mod 64 = k" unfolding join by simp
qed

lemmas quantum = digits_of_bytes [OF byte_lt byte_lt byte_lt]

lemma decode_one:
  "i < 64 \<Longrightarrow> j < 64 \<Longrightarrow> decodeQuanta [encodeDigit i, encodeDigit j, CHR ''='', CHR ''=''] = Some [char_of (i * 4 + j div 16)]"
  by simp

lemma decode_two:
  "i < 64 \<Longrightarrow> j < 64 \<Longrightarrow> k < 64 \<Longrightarrow> decodeQuanta [encodeDigit i, encodeDigit j, encodeDigit k, CHR ''=''] =
     Some [char_of (i * 4 + j div 16), char_of (j mod 16 * 16 + k div 4)]"
  by simp

lemma decode_three:
  "i < 64 \<Longrightarrow> j < 64 \<Longrightarrow> k < 64 \<Longrightarrow> l < 64 \<Longrightarrow>
   decodeQuanta (encodeDigit i # encodeDigit j # encodeDigit k # encodeDigit l # rest) =
     map_option (\<lambda>bs. char_of (i * 4 + j div 16) # char_of (j mod 16 * 16 + k div 4) # char_of (k mod 4 * 64 + l) # bs)
       (decodeQuanta rest)"
  by (simp split: option.splits)

lemma decode_encode_quanta: "decodeQuanta (EncodeToString bs) = Some bs"
proof (induction bs rule: EncodeToString.induct)
  case (2 a)
  show ?case unfolding EncodeToString.simps Let_def by (subst decode_one) (simp_all only: quantum char_of_char)
next
  case (3 a b)
  show ?case unfolding EncodeToString.simps Let_def by (subst decode_two) (simp_all only: quantum char_of_char)
next
  case (4 a b c rest)
  have "decodeQuanta (EncodeToString rest) = Some rest" using 4 [OF refl refl refl] .
  then show ?case unfolding EncodeToString.simps Let_def
    by (subst decode_three) (simp_all only: quantum char_of_char option.map)
qed simp

lemma encode_no_breaks: "list_all (\<lambda>c. of_char c \<noteq> (10 :: nat) \<and> of_char c \<noteq> (13 :: nat)) (EncodeToString bs)"
  by (induction bs rule: EncodeToString.induct) (simp_all add: Let_def quantum)

lemma DecodeString_EncodeToString: "DecodeString (EncodeToString bs) = Some bs"
  using encode_no_breaks [of bs]
  by (simp add: DecodeString_def decode_encode_quanta list_all_iff cong: filter_cong)

lemma EncodeToString_empty_iff [simp]: "EncodeToString bs = [] \<longleftrightarrow> bs = []"
  by (cases bs rule: EncodeToString.cases) (simp_all add: Let_def)

section \<open>What is sealed opens\<close>

text \<open>What the code relies on: a cipher for every key of the right length, and authenticated decryption inverts encryption.\<close>

definition gcm_cipher :: "(string \<Rightarrow> sentinel + AEAD) \<Rightarrow> bool" where
  "gcm_cipher newGCM \<longleftrightarrow>
     (\<forall>key. length key = DataKeyBytes \<longrightarrow>
        (\<exists>aead. newGCM key = Inr aead \<and>
           (\<forall>nonce p. length nonce = aeadNonceSize aead \<longrightarrow> aeadOpen aead nonce (aeadSeal aead nonce p) = Some p)))"

definition fills :: "(nat \<Rightarrow> string option) \<Rightarrow> bool" where
  "fills rand \<longleftrightarrow> (\<forall>n buf. rand n = Some buf \<longrightarrow> length buf = n)"

lemma NewSealer_iff:
  "NewSealer newGCM key = Inr s \<longleftrightarrow>
     (\<exists>bytes aead. DecodeString key = Some bytes \<and> length bytes = DataKeyBytes \<and> newGCM bytes = Inr aead \<and> s = Some aead)"
  by (auto simp: NewSealer_def DecodeString_def DataKeyBytes_def split: option.splits sum.splits)

lemma generated_key_accepted:
  assumes "gcm_cipher newGCM" and "fills rand" and "GenerateDataKey rand = Inr key"
  shows "\<exists>s. NewSealer newGCM key = Inr s \<and> Enabled s"
proof -
  obtain bytes where "rand DataKeyBytes = Some bytes" "key = EncodeToString bytes"
    using assms(3) by (auto simp: GenerateDataKey_def split: option.splits)
  moreover then have "length bytes = DataKeyBytes" using assms(2) by (simp add: fills_def)
  ultimately show ?thesis using assms(1)
    by (auto simp: NewSealer_iff DecodeString_EncodeToString gcm_cipher_def Enabled_def)
qed

lemma Seal_Open:
  assumes "gcm_cipher newGCM" and "fills rand" and "NewSealer newGCM key = Inr s" and "Seal rand s p = Inr (Some sealed)"
  shows "Open s sealed = Inr p"
proof -
  obtain bytes aead where a: "length bytes = DataKeyBytes" "newGCM bytes = Inr aead" "s = Some aead"
    using assms(3) unfolding NewSealer_iff by blast
  obtain nonce where n: "rand (aeadNonceSize aead) = Some nonce" "sealed = nonce @ aeadSeal aead nonce p"
    using assms(4) a(3) by (auto simp: Seal_def split: option.splits)
  have "length nonce = aeadNonceSize aead" using assms(2) n(1) by (simp add: fills_def)
  moreover then have "aeadOpen aead nonce (aeadSeal aead nonce p) = Some p"
    using assms(1) a unfolding gcm_cipher_def by fastforce
  ultimately show ?thesis by (simp add: Open_def a(3) n(2))
qed

end
