(* ===== verification/Wiring.thy ===== *)
theory Wiring
  imports Routes Database TypeSafeClient Secrets
begin

text \<open>
  The deployment configuration (\<open>internal/pkg/config/config.go\<close>) and how it reaches the services
  (\<open>internal/pkg/services/vibecheck-server/dependencies.go\<close>), and the tools of the MCP surface over
  those services with their instruments (\<open>internal/pkg/mcp/mcp.go\<close>). Reading the environment is an argument. The lemmas
  show that the defaults are valid, what a validated configuration guarantees to the services, and
  that both surfaces drive the same pipeline.
\<close>

section \<open>Configuration\<close>

record deployConfig =
  dcHTTPListenAddress :: string
  dcMetricsListenAddress :: string
  dcAPIToken :: string
  dcPolicyDir :: string
  dcAllowInlinePolicies :: bool
  dcMaxRequestBytes :: int
  dcMaxStateBytes :: int
  dcMaxFacts :: int
  dcMaxQuestions :: int
  dcMaxPolicyBytes :: int
  dcMaxMetadataEntries :: int
  dcMaxMetadataValueLength :: int
  dcRequestsPerMinute :: int
  dcRateLimitBurst :: int
  dcTypeSafeBaseURL :: string
  dcTypeSafeAPIKey :: string
  dcTypeSafeModel :: string
  dcTypeSafeTimeout :: duration
  dcTypeSafeMaxResponseBytes :: int
  dcTypeSafeConcurrency :: int
  dcTypeSafeMaxAttempts :: int
  dcDBDriver :: string
  dcDBSQLitePath :: string
  dcDBSQLiteBusyTimeout :: duration
  dcDBHostname :: string
  dcDBPort :: int
  dcDBUsername :: string
  dcDBPassword :: string
  dcDBName :: string
  dcDBIsSSL :: bool
  dcStoreInputs :: bool
  dcDataKey :: string
  dcEvaluationRetention :: duration
  dcIdempotencyRetention :: duration
  dcRetentionCleanupEvery :: duration

definition hour :: duration where "hour = 3600 * second"

text \<open>What the environment gives when no variable is set.\<close>

definition setDefaults :: deployConfig where
  "setDefaults = \<lparr>dcHTTPListenAddress = ''127.0.0.1:8080'', dcMetricsListenAddress = ''127.0.0.1:9091'', dcAPIToken = [],
     dcPolicyDir = ''/config/policies'', dcAllowInlinePolicies = False, dcMaxRequestBytes = 1048576,
     dcMaxStateBytes = 524288, dcMaxFacts = 128, dcMaxQuestions = 64, dcMaxPolicyBytes = 262144,
     dcMaxMetadataEntries = 16, dcMaxMetadataValueLength = 256, dcRequestsPerMinute = 600, dcRateLimitBurst = 60,
     dcTypeSafeBaseURL = ''https://api.typesafe.ai'', dcTypeSafeAPIKey = [], dcTypeSafeModel = ''jev-latest'',
     dcTypeSafeTimeout = 10 * second, dcTypeSafeMaxResponseBytes = 1048576, dcTypeSafeConcurrency = 32,
     dcTypeSafeMaxAttempts = 3, dcDBDriver = ''sqlite'', dcDBSQLitePath = ''/data/vibecheck.sqlite'',
     dcDBSQLiteBusyTimeout = 5 * second, dcDBHostname = ''localhost'', dcDBPort = 5432, dcDBUsername = [], dcDBPassword = [], dcDBName = ''vibecheck'',
     dcDBIsSSL = True,
     dcStoreInputs = False, dcDataKey = [], dcEvaluationRetention = 720 * hour, dcIdempotencyRetention = 24 * hour,
     dcRetentionCleanupEvery = hour\<rparr>"

definition validateListeners :: "deployConfig \<Rightarrow> sentinel + unit" where
  "validateListeners c =
     (if dcHTTPListenAddress c = [] then Inl ErrRequiredConfigValueNotSet
      else if dcMetricsListenAddress c = [] then Inl ErrRequiredConfigValueNotSet
      else if dcHTTPListenAddress c = dcMetricsListenAddress c then Inl ErrInvalidValue else Inr ())"

definition validateLimits :: "deployConfig \<Rightarrow> sentinel + unit" where
  "validateLimits c =
     rbind (for_each (\<lambda>v. require (\<not> v \<le> 0) ErrInvalidValue)
       [dcMaxRequestBytes c, dcMaxStateBytes c, dcMaxFacts c, dcMaxQuestions c, dcMaxPolicyBytes c,
        dcMaxMetadataEntries c, dcMaxMetadataValueLength c, dcTypeSafeMaxResponseBytes c, dcTypeSafeConcurrency c,
        dcTypeSafeMaxAttempts c, dcRequestsPerMinute c, dcRateLimitBurst c]) (\<lambda>_.
     if dcMaxRequestBytes c < dcMaxStateBytes c then Inl ErrInvalidValue
     else if MaxQuestions < dcMaxQuestions c then Inl ErrInvalidValue
     else if dcTypeSafeTimeout c \<le> 0 then Inl ErrInvalidValue else Inr ())"

definition validateDatabase :: "deployConfig \<Rightarrow> sentinel + unit" where
  "validateDatabase c =
     (if dcDBDriver c \<noteq> DriverSQLite \<and> dcDBDriver c \<noteq> DriverPostgres then Inl ErrInvalidValue
      else if dcDBDriver c = DriverSQLite then
        (if dcDBSQLitePath c = [] then Inl ErrRequiredConfigValueNotSet else Inr ())
      else rbind (for_each (\<lambda>v. require (v \<noteq> []) ErrRequiredConfigValueNotSet)
          [dcDBHostname c, dcDBUsername c, dcDBPassword c, dcDBName c]) (\<lambda>_.
        if dcDBPort c \<le> 0 then Inl ErrInvalidValue else Inr ()))"

definition validateRetention :: "deployConfig \<Rightarrow> sentinel + unit" where
  "validateRetention c =
     (if dcStoreInputs c \<and> dcDataKey c = [] then Inl ErrRequiredConfigValueNotSet
      else if dcEvaluationRetention c < 0 \<or> dcIdempotencyRetention c < 0 then Inl ErrInvalidValue
      else if dcRetentionCleanupEvery c \<le> 0 then Inl ErrInvalidValue else Inr ())"

definition Config_Validate :: "deployConfig \<Rightarrow> sentinel + unit" where
  "Config_Validate c =
     rbind (validateListeners c) (\<lambda>_. rbind (validateLimits c) (\<lambda>_. rbind (validateDatabase c) (\<lambda>_.
       validateRetention c)))"

definition Config_Parse :: "(deployConfig \<Rightarrow> sentinel + deployConfig) \<Rightarrow> sentinel + deployConfig" where
  "Config_Parse environment =
     rbind (environment setDefaults) (\<lambda>c. rbind (Config_Validate c) (\<lambda>_. Inr c))"

definition DBConfig :: "deployConfig \<Rightarrow> dbConfig" where
  "DBConfig c = \<lparr>dbcDriver = dcDBDriver c, dbcSQLitePath = dcDBSQLitePath c, dbcSQLiteBusyTimeout = dcDBSQLiteBusyTimeout c,
     dbcPostgres = \<lparr>pgHostname = dcDBHostname c, pgPort = dcDBPort c, pgUsername = dcDBUsername c,
       pgPassword = dcDBPassword c, pgDatabase = dcDBName c, pgIsSSL = dcDBIsSSL c\<rparr>\<rparr>"

definition AuthEnabled :: "deployConfig \<Rightarrow> bool" where
  "AuthEnabled c \<longleftrightarrow> dcAPIToken c \<noteq> []"

section \<open>Wiring\<close>

definition buildSealer :: "(string \<Rightarrow> sentinel + AEAD) \<Rightarrow> deployConfig \<Rightarrow> sentinel + Sealer" where
  "buildSealer newGCM c = (if \<not> dcStoreInputs c then Inr None else NewSealer newGCM (dcDataKey c))"

definition buildProvider :: "(string \<Rightarrow> goerror option) \<Rightarrow> deployConfig \<Rightarrow> goerror + tsConfig" where
  "buildProvider newClient c =
     tsNew newClient \<lparr>tcBaseURL = dcTypeSafeBaseURL c, tcAPIKey = dcTypeSafeAPIKey c, tcDefaultModel = dcTypeSafeModel c,
       tcTimeout = dcTypeSafeTimeout c, tcMaxResponseBytes = dcTypeSafeMaxResponseBytes c,
       tcConcurrency = dcTypeSafeConcurrency c, tcMaxAttempts = dcTypeSafeMaxAttempts c,
       tcBackoffBase = 0, tcBackoffMax = 0, tcMaxElapsed = 0\<rparr>"

definition evaluationConfig :: "deployConfig \<Rightarrow> Config" where
  "evaluationConfig c = \<lparr>cfgAllowInlinePolicies = dcAllowInlinePolicies c, cfgMaxPolicyBytes = dcMaxPolicyBytes c,
     cfgMaxStateBytes = dcMaxStateBytes c, cfgMaxQuestions = dcMaxQuestions c, cfgMaxFacts = dcMaxFacts c,
     cfgMaxMetadataEntries = dcMaxMetadataEntries c, cfgMaxMetadataValueLength = dcMaxMetadataValueLength c,
     cfgStoreInputs = dcStoreInputs c, cfgIdempotencyRetention = dcIdempotencyRetention c\<rparr>"

definition buildRouter :: "deployConfig \<Rightarrow> routerConfig" where
  "buildRouter c = \<lparr>rcAPIToken = dcAPIToken c, rcMaxRequestBytes = dcMaxRequestBytes c\<rparr>"

definition readinessProbe :: "bool \<Rightarrow> deployConfig \<Rightarrow> bool" where
  "readinessProbe ping c \<longleftrightarrow> dcTypeSafeAPIKey c \<noteq> [] \<and> ping"

section \<open>The MCP tools\<close>

record EvaluateInput =
  eiPolicyName :: string
  eiPolicyVersion :: string
  eiInlinePolicy :: "(string, goval) gomap"
  eiState :: goval
  eiFacts :: "Facts option"
  eiMetadata :: "(string, string) gomap option"
  eiIdempotencyKey :: string

definition mcpInput :: "string \<Rightarrow> EvaluateInput \<Rightarrow> CreateInput" where
  "mcpInput requestID input =
     \<lparr>ciPolicyRef =
        (if eiPolicyName input \<noteq> [] \<or> eiPolicyVersion input \<noteq> []
         then Some \<lparr>refName = eiPolicyName input, refVersion = eiPolicyVersion input\<rparr> else None),
      ciInlinePolicy = eiInlinePolicy input, ciState = eiState input, ciFacts = eiFacts input,
      ciMetadata = eiMetadata input, ciIdempotencyKey = eiIdempotencyKey input, ciRequestID = requestID\<rparr>"

text \<open>The handlers of the tools; \<open>instrument\<close> below is what each is registered in.\<close>

definition evaluate_tool ::
  "Service \<Rightarrow> Session \<Rightarrow> World \<Rightarrow> string \<Rightarrow> EvaluateInput \<Rightarrow> World \<times> (sentinel + apiEvaluation)" where
  "evaluate_tool svc se w requestID input = Create svc se w (mcpInput requestID input)"

text \<open>The library's parser decides which identifiers are UUIDs and gives their canonical text.\<close>

definition getEvaluation_tool :: "(string \<Rightarrow> uuid option) \<Rightarrow> Session \<Rightarrow> DB \<Rightarrow> string \<Rightarrow> sentinel + apiEvaluation" where
  "getEvaluation_tool parse se db i =
     (case parse i of None \<Rightarrow> Inl (ErrOther ''uuid'') | Some u \<Rightarrow> Evaluation_Get se db u)"

definition submitFeedback_tool ::
  "(string \<Rightarrow> uuid option) \<Rightarrow> Service \<Rightarrow> Session \<Rightarrow> World \<Rightarrow> string \<Rightarrow> string \<Rightarrow> string \<Rightarrow> World \<times> (sentinel + apiFeedback)" where
  "submitFeedback_tool parse svc se w i expected note =
     (case parse i of
        None \<Rightarrow> (w, Inl (ErrOther ''uuid''))
      | Some u \<Rightarrow> SubmitFeedback svc se w \<lparr>fiEvaluationID = u, fiExpectedOutcome = expected, fiNote = note\<rparr>)"

definition listPolicies_tool :: "policiesService \<Rightarrow> apiPolicy list" where
  "listPolicies_tool s = Service_List s"

definition getPolicy_tool :: "policiesService \<Rightarrow> string \<Rightarrow> string \<Rightarrow> sentinel + apiPolicy" where
  "getPolicy_tool s name version = Service_Get s name version"

definition validatePolicy_tool ::
  "yamlDecoder \<Rightarrow> policiesService \<Rightarrow> (string, goval) gomap \<Rightarrow> sentinel + PolicyValidation" where
  "validatePolicy_tool yaml s document = Service_Validate yaml s document"

text \<open>
  Every tool is wrapped in its instruments; a tool error is a completed call. The call works on the
  instruments it is given, and a result of \<open>None\<close> is a panic, which still ends the call in flight.
\<close>

definition instrument ::
  "bool \<Rightarrow> string \<Rightarrow> float64 \<Rightarrow> (Metrics \<Rightarrow> Metrics \<times> ('e + 'a) option) \<Rightarrow> Metrics \<Rightarrow> Metrics \<times> ('e + 'a) option" where
  "instrument recorder name seconds handler m =
     (if \<not> recorder then handler m
      else case handler (m\<lparr>mcpInFlight := gauge_Inc (mcpInFlight m)\<rparr>) of
        (m1, None) \<Rightarrow> (m1\<lparr>mcpInFlight := gauge_Dec (mcpInFlight m1)\<rparr>, None)
      | (m1, Some result) \<Rightarrow>
          (case ObserveMCPTool name (outcomeClassOf (isl result)) seconds m1 of
             (m2, panics) \<Rightarrow> (m2\<lparr>mcpInFlight := gauge_Dec (mcpInFlight m2)\<rparr>, if panics then None else Some result)))"

section \<open>What a validated configuration guarantees\<close>

lemma defaults_valid: "Config_Validate setDefaults = Inr ()"
  by code_simp

lemma Config_Validate_limits:
  assumes "Config_Validate c = Inr u"
  shows "0 < dcMaxRequestBytes c \<and> 0 < dcMaxStateBytes c \<and> dcMaxStateBytes c \<le> dcMaxRequestBytes c \<and>
    0 < dcMaxFacts c \<and> 0 < dcMaxQuestions c \<and> dcMaxQuestions c \<le> MaxQuestions \<and> 0 < dcMaxPolicyBytes c \<and>
    0 < dcTypeSafeMaxAttempts c \<and> 0 \<le> dcIdempotencyRetention c \<and> 0 < dcRetentionCleanupEvery c"
  using assms by (simp add: Config_Validate_def validateLimits_def validateRetention_def result_iff split: if_splits)

lemma sealer_iff_retention:
  assumes "buildSealer newGCM c = Inr s"
  shows "Enabled s \<longleftrightarrow> dcStoreInputs c"
  using assms by (auto simp: buildSealer_def Enabled_def NewSealer_iff split: if_splits)

lemma provider_attempts:
  assumes "Config_Validate c = Inr u" and "buildProvider newClient c = Inr client"
  shows "tcMaxAttempts client = dcTypeSafeMaxAttempts c"
proof -
  have "0 < dcTypeSafeMaxAttempts c" using Config_Validate_limits [OF assms(1)] by blast
  moreover obtain config where "client = tsWithDefaults config" and "tcMaxAttempts config = dcTypeSafeMaxAttempts c"
    using tsNew_Inr [OF assms(2) [unfolded buildProvider_def]] by simp
  ultimately show ?thesis by (simp add: tsWithDefaults_def)
qed

lemma validated_database_opens:
  assumes "Config_Validate c = Inr u"
  shows "Driver_IsValid (dbcDriver (DBConfig c))"
    and "dbcDriver (DBConfig c) = DriverSQLite \<Longrightarrow> dbcSQLitePath (DBConfig c) \<noteq> []"
  using assms by (auto simp: Config_Validate_def validateDatabase_def DBConfig_def Driver_IsValid_def result_iff
      split: if_splits)

text \<open>An instrumented tool call that returns is counted once under its outcome, and leaves nothing in flight.\<close>

lemma instrumented_call:
  assumes "metrics_ok m" and "validUTF8 name"
    and "handler (m\<lparr>mcpInFlight := gauge_Inc (mcpInFlight m)\<rparr>) = (m1, Some result)"
    and "metrics_ok m1" and "mcpInFlight m1 = gauge_Inc (mcpInFlight m)" and "mcpCalls m1 = mcpCalls m"
  obtains m' where "instrument True name seconds handler m = (m', Some result)" and "mcpInFlight m' = mcpInFlight m"
    and "reading (mcpCalls m') = (reading (mcpCalls m))
      ([name, outcomeClassOf (isl result)] := reading (mcpCalls m) [name, outcomeClassOf (isl result)] + 1)"
proof -
  let ?o = "ObserveMCPTool name (outcomeClassOf (isl result)) seconds m1"
  have "\<not> snd ?o" using ObserveMCPTool_returns [OF assms(4, 2) outcomeClassOf_utf8] .
  then obtain m2 where o': "?o = (m2, False)" by (metis prod.collapse)
  have ls: "labels_ok (mcpCalls m1) [name, outcomeClassOf (isl result)]"
    using assms(2, 4) by (simp add: labels_ok_def metrics_ok_def)
  have "mcpInFlight m2 = mcpInFlight m1" "reading (mcpCalls m2) = reading (fst (IncVec [name, outcomeClassOf (isl result)] (mcpCalls m1)))"
    using arg_cong [OF o', of "\<lambda>x. mcpInFlight (fst x)"] arg_cong [OF o', of "\<lambda>x. reading (mcpCalls (fst x))"] ls
    by (simp_all add: ObserveMCPTool_def followed_simps vec_returns split: if_splits)
  moreover have run: "instrument True name seconds handler m = (m2\<lparr>mcpInFlight := gauge_Dec (mcpInFlight m2)\<rparr>, Some result)"
    by (simp add: instrument_def assms(3) o')
  ultimately show thesis using ls assms(5, 6)
    by (intro that [OF run]) (simp_all add: reading_IncVec gauge_Dec_def gauge_Inc_def)
qed

section \<open>Both surfaces drive the same pipeline\<close>

text \<open>A REST request and an MCP call that ask the same thing, field by field.\<close>

definition same_request :: "createRequest \<Rightarrow> string \<Rightarrow> EvaluateInput \<Rightarrow> bool" where
  "same_request request requestID input \<longleftrightarrow>
     (\<exists>body. crqBody request = Some body \<and>
        cbPolicyRef body =
          (if eiPolicyName input = [] \<and> eiPolicyVersion input = [] then None
           else Some \<lparr>refName = eiPolicyName input, refVersion = eiPolicyVersion input\<rparr>) \<and>
        entries (cbInlinePolicy body) = eiInlinePolicy input \<and> cbState body = eiState input \<and>
        cbFacts body = eiFacts input \<and> cbMetadata body = eiMetadata input \<and>
        case_option [] id (crqIdempotencyKey request) = eiIdempotencyKey input \<and> crqRequestID request = requestID)"

lemma same_request_input:
  "same_request request requestID input \<Longrightarrow>
     \<exists>body. crqBody request = Some body \<and> createInputFromRequest request body = mcpInput requestID input"
  by (auto simp: same_request_def createInputFromRequest_def mcpInput_def)

lemma surfaces_agree:
  assumes "same_request request requestID input"
    and "CreateEvaluation svc se w request = (w1, reply)" and "evaluate_tool svc se w requestID input = (w2, result)"
  shows "w1 = w2 \<and>
    (\<forall>ev. reply = Success 201 ev \<longleftrightarrow> result = Inr ev \<and> aeStatus ev = EvaluationStatusCompleted)"
proof -
  obtain body where body: "crqBody request = Some body" "createInputFromRequest request body = mcpInput requestID input"
    using same_request_input [OF assms(1)] by blast
  show ?thesis using body(1)
    by (cases rule: CreateEvaluation_reply [where svc = svc and se = se and w = w])
      (use assms(2, 3) body(2) in \<open>auto simp: evaluate_tool_def\<close>)
qed

end
