(* ===== verification/Lifecycle.thy ===== *)
theory Lifecycle
  imports Wiring
begin

text \<open>
  The runnable service (\<open>internal/pkg/services/vibecheck-server\<close>): how \<open>build\<close> opens what it owns, and
  \<open>Run\<close> as a step relation over its own goroutine, the two listeners, the retention loop, the
  requests in flight and the callers that cancel the context or call \<open>Stop\<close>. The lemmas show that
  a failed build leaks nothing the database layer gave it, the order in which a run takes the
  service down, that a requested stop is always brought to an end, and what a clean result means.
\<close>

section \<open>Building the dependencies\<close>

record buildEnv =
  beYaml :: yamlDecoder
  beFiles :: fileSystem
  beDrivers :: driverCalls
  beGCM :: "string \<Rightarrow> sentinel + AEAD"
  beClient :: "string \<Rightarrow> goerror option"
  beMCP :: "goerror option"
  beScope :: "(string, string) gomap"

record dependencies =
  dpDatabase :: Database
  dpRouter :: routerConfig
  dpMetrics :: Metrics
  dpPolicies :: PolicySet
  dpSealer :: Sealer
  dpProvider :: tsConfig

definition buildIdentity :: "(string, string) gomap \<Rightarrow> string \<times> string" where
  "buildIdentity scope =
     (case_option [] id (map_of scope ''version''), case_option [] id (map_of scope ''commit''))"

definition buildRouterStack :: "buildEnv \<Rightarrow> deployConfig \<Rightarrow> goerror + Sealer \<times> tsConfig \<times> routerConfig" where
  "buildRouterStack env c =
     (case buildSealer (beGCM env) c of
        Inl e \<Rightarrow> Inl [e]
      | Inr sealer \<Rightarrow>
          rbind (buildProvider (beClient env) c) (\<lambda>client.
          case beMCP env of Some e \<Rightarrow> Inl e | None \<Rightarrow> Inr (sealer, client, buildRouter c)))"

definition closeAfter :: "driverCalls \<Rightarrow> Database \<Rightarrow> goerror \<Rightarrow> dbState \<Rightarrow> dbState \<times> goerror" where
  "closeAfter dr db cause s = (fst (Close_db dr (Some db) s), cause)"

text \<open>A panic while building is \<open>None\<close>; the service manager turns it into an error.\<close>

definition build :: "buildEnv \<Rightarrow> deployConfig \<Rightarrow> dbState \<Rightarrow> dbState \<times> (goerror + dependencies) option" where
  "build env c s =
     (case New of
        None \<Rightarrow> (s, None)
      | Some m0 \<Rightarrow>
        (case SetBuildInfo (fst (buildIdentity (beScope env))) (snd (buildIdentity (beScope env))) m0 of
           (m1, True) \<Rightarrow> (s, None)
         | (m1, False) \<Rightarrow>
           (case LoadDirWithMaxQuestions (beYaml env) (beFiles env) (dcPolicyDir c) (dcMaxPolicyBytes c) (dcMaxQuestions c) of
              Inl e \<Rightarrow> (s, Some (Inl [e]))
            | Inr policySet \<Rightarrow>
              (case Open_db (beDrivers env) (DBConfig c) True s of
                 (s1, Inl e) \<Rightarrow> (s1, Some (Inl e))
               | (s1, Inr db) \<Rightarrow>
                 (case buildRouterStack env c of
                    Inl e \<Rightarrow> (case closeAfter (beDrivers env) db e s1 of (s2, e') \<Rightarrow> (s2, Some (Inl e')))
                  | Inr (sealer, client, router) \<Rightarrow>
                      (s1, Some (Inr \<lparr>dpDatabase = db, dpRouter = router, dpMetrics = m1, dpPolicies = policySet,
                        dpSealer = sealer, dpProvider = client\<rparr>)))))))"

definition close_deps :: "driverCalls \<Rightarrow> dependencies \<Rightarrow> dbState \<Rightarrow> dbState" where
  "close_deps dr deps s = fst (Close_db dr (Some (dpDatabase deps)) s)"

lemma build_succeeds:
  assumes "build env c s = (s', Some (Inr deps))"
  shows "dsPools s' = Suc (dsPools s)" and "dsPools (close_deps (beDrivers env) deps s') = dsPools s" and "dsMigrated s'"
    and "Enabled (dpSealer deps) \<longleftrightarrow> dcStoreInputs c" and "dpRouter deps = buildRouter c" and "metrics_ok (dpMetrics deps)"
proof -
  obtain m0 where New': "New = Some m0" "metrics_ok m0" using New_registers by blast
  let ?b = "SetBuildInfo (fst (buildIdentity (beScope env))) (snd (buildIdentity (beScope env))) m0"
  obtain m1 db sealer client where b: "?b = (m1, False)" and op: "Open_db (beDrivers env) (DBConfig c) True s = (s', Inr db)"
    and st: "buildRouterStack env c = Inr (sealer, client, dpRouter deps)"
    and d: "dpDatabase deps = db" "dpSealer deps = sealer" "dpMetrics deps = m1"
    using assms by (auto simp: build_def New'(1) split: prod.splits bool.splits sum.splits option.splits)
  show "dsPools s' = Suc (dsPools s)" "dsMigrated s'" using Open_succeeds [OF op] by simp_all
  show "dsPools (close_deps (beDrivers env) deps s') = dsPools s"
    using Open_then_Close [OF op]
    by (cases "Close_db (beDrivers env) (Some db) s'") (auto simp: close_deps_def d)
  have "buildSealer (beGCM env) c = Inr sealer" "dpRouter deps = buildRouter c"
    using st by (auto simp: buildRouterStack_def rbind_Inr_iff split: sum.splits option.splits)
  then show "Enabled (dpSealer deps) \<longleftrightarrow> dcStoreInputs c" "dpRouter deps = buildRouter c"
    using sealer_iff_retention by (simp_all add: d)
  show "metrics_ok (dpMetrics deps)"
    using observation_ok(6) [of _ _ m0] New'(2) b d(3) by (metis fst_conv)
qed

text \<open>A build that fails after the database opened closes it again.\<close>

lemma build_fails:
  assumes "build env c s = (s', Some (Inl e))"
  shows "dsPools s' = dsPools s \<or> Open_db (beDrivers env) (DBConfig c) True s = (s', Inl e)"
proof -
  obtain m0 where New': "New = Some m0" using New_registers by blast
  have closed: "dsPools (fst (closeAfter (beDrivers env) db e' s1)) = dsPools s"
    if "Open_db (beDrivers env) (DBConfig c) True s = (s1, Inr db)" for s1 db e'
    using Open_succeeds(1, 3) [OF that] by (simp add: closeAfter_def Close_db_def poolClosed_def)
  show ?thesis using assms closed
    by (auto simp: build_def New' split: prod.splits bool.splits sum.splits option.splits) (metis fst_conv)
qed

section \<open>The service and its listeners\<close>

definition ServiceName :: string where "ServiceName = ''vibecheck-server''"

definition New_server :: "(deployConfig \<Rightarrow> sentinel + deployConfig) \<Rightarrow> sentinel + deployConfig" where
  "New_server environment = Config_Parse environment"

definition retention :: "deployConfig \<Rightarrow> retentionSettings" where
  "retention c = \<lparr>rtEvery = dcRetentionCleanupEvery c, rtEvaluations = dcEvaluationRetention c\<rparr>"

record httpServer =
  hsAddr :: string
  hsReadHeaderTimeout :: duration
  hsReadTimeout :: duration
  hsWriteTimeout :: duration
  hsIdleTimeout :: duration
  hsMaxHeaderBytes :: int

definition newHTTPServer :: "string \<Rightarrow> httpServer" where
  "newHTTPServer address = \<lparr>hsAddr = address, hsReadHeaderTimeout = 10 * second, hsReadTimeout = 30 * second,
     hsWriteTimeout = 0, hsIdleTimeout = 120 * second, hsMaxHeaderBytes = 1048576\<rparr>"

lemma service_configured:
  assumes "New_server environment = Inr c"
  shows "hsAddr (newHTTPServer (dcHTTPListenAddress c)) \<noteq> hsAddr (newHTTPServer (dcMetricsListenAddress c))"
    and "0 < rtEvery (retention c)" and "0 \<le> rtEvaluations (retention c)"
  using assms by (auto simp: New_server_def Config_Parse_def Config_Validate_def validateListeners_def validateRetention_def
      newHTTPServer_def retention_def result_iff split: if_splits)

section \<open>One run of the service\<close>

definition errServerClosed :: sentinel where "errServerClosed = ErrOther ''http: Server closed''"

text \<open>What a listener's goroutine reports: a closed server is the expected end.\<close>

definition serve :: "goerror \<Rightarrow> goerror option" where
  "serve err = (if errServerClosed \<in> set err then None else Some err)"

definition errors_Join :: "goerror option list \<Rightarrow> goerror option" where
  "errors_Join es = (if \<forall>e \<in> set es. e = None then None else Some (concat (map (case_option [] id) es)))"

definition DefaultShutdownDrainGrace :: duration where "DefaultShutdownDrainGrace = 5 * second"

text \<open>How long the drain waits, when the context is done the given time after it began.\<close>

definition drainGrace :: "duration \<Rightarrow> duration option \<Rightarrow> duration" where
  "drainGrace grace doneAfter =
     (if grace \<le> 0 then 0 else case doneAfter of None \<Rightarrow> grace | Some t \<Rightarrow> min grace (max 0 t))"

datatype runStage =
    WaitForStop | StopRetention | AwaitRetention | Drain | Grace | ShutPublic | ShutInternal | CloseDeps | Finished

record listener =
  lsAccepting :: bool
  lsShut :: bool
  lsReported :: bool

record serverRun =
  srStage :: runStage
  srCtxDone :: bool
  srStopped :: bool
  srErrs :: "goerror option list"
  srRetentionCancelled :: bool
  srRetentionEnded :: bool
  srShuttingDown :: bool
  srDoneAtDrain :: bool
  srWaited :: "duration option"
  srPublic :: listener
  srInternal :: listener
  srInFlight :: nat
  srOpen :: bool
  srRunErr :: "goerror option"
  srDrainErrs :: "goerror option list"
  srResult :: "goerror option option"

definition freshListener :: listener where
  "freshListener = \<lparr>lsAccepting = True, lsShut = False, lsReported = False\<rparr>"

definition running :: serverRun where
  "running = \<lparr>srStage = WaitForStop, srCtxDone = False, srStopped = False, srErrs = [], srRetentionCancelled = False,
     srRetentionEnded = False, srShuttingDown = False, srDoneAtDrain = False, srWaited = None, srPublic = freshListener,
     srInternal = freshListener, srInFlight = 0, srOpen = True, srRunErr = None, srDrainErrs = [], srResult = None\<rparr>"

text \<open>\<open>Stop\<close> closes the channel once; calling it again changes nothing.\<close>

definition Stop_server :: "serverRun \<Rightarrow> serverRun" where
  "Stop_server s = (if srStopped s then s else s\<lparr>srStopped := True\<rparr>)"

definition BeginShutdown :: "serverRun \<Rightarrow> serverRun" where
  "BeginShutdown s = s\<lparr>srShuttingDown := True, srDoneAtDrain := srCtxDone s, srStage := Grace\<rparr>"

definition listenerEnds :: "goerror \<Rightarrow> listener \<Rightarrow> listener" where
  "listenerEnds e l = l\<lparr>lsAccepting := False, lsReported := True\<rparr>"

definition shut :: "listener \<Rightarrow> listener" where
  "shut l = l\<lparr>lsAccepting := False, lsShut := True\<rparr>"

text \<open>
  A listener ends by itself with any error but a closed server, or after it was shut down with that
  one. Shutting down the public listener succeeds once no request is in flight; when its deadline
  passes first it fails, and the requests go on.
\<close>

inductive server_step :: "serverRun \<Rightarrow> serverRun \<Rightarrow> bool" where
  Cancel: "server_step s (s\<lparr>srCtxDone := True\<rparr>)"
| StopCalled: "server_step s (Stop_server s)"
| Arrive: "lsAccepting (srPublic s) \<Longrightarrow> server_step s (s\<lparr>srInFlight := Suc (srInFlight s)\<rparr>)"
| Answer: "0 < srInFlight s \<Longrightarrow> server_step s (s\<lparr>srInFlight := srInFlight s - 1\<rparr>)"
| PublicEnds: "\<not> lsReported (srPublic s) \<Longrightarrow> lsShut (srPublic s) \<longleftrightarrow> errServerClosed \<in> set e \<Longrightarrow>
    server_step s (s\<lparr>srPublic := listenerEnds e (srPublic s), srErrs := srErrs s @ [serve e]\<rparr>)"
| InternalEnds: "\<not> lsReported (srInternal s) \<Longrightarrow> lsShut (srInternal s) \<longleftrightarrow> errServerClosed \<in> set e \<Longrightarrow>
    server_step s (s\<lparr>srInternal := listenerEnds e (srInternal s), srErrs := srErrs s @ [serve e]\<rparr>)"
| RetentionEnds: "srRetentionCancelled s \<or> srCtxDone s \<Longrightarrow> server_step s (s\<lparr>srRetentionEnded := True\<rparr>)"
| SeesDone: "srStage s = WaitForStop \<Longrightarrow> srCtxDone s \<or> srStopped s \<Longrightarrow>
    server_step s (s\<lparr>srRunErr := None, srStage := StopRetention\<rparr>)"
| SeesError: "srStage s = WaitForStop \<Longrightarrow> srErrs s = e # es \<Longrightarrow>
    server_step s (s\<lparr>srRunErr := e, srErrs := es, srStage := StopRetention\<rparr>)"
| CancelRetention: "srStage s = StopRetention \<Longrightarrow>
    server_step s (s\<lparr>srRetentionCancelled := True, srStage := AwaitRetention\<rparr>)"
| RetentionDone: "srStage s = AwaitRetention \<Longrightarrow> srRetentionEnded s \<Longrightarrow> server_step s (s\<lparr>srStage := Drain\<rparr>)"
| DrainBegins: "srStage s = Drain \<Longrightarrow> server_step s (BeginShutdown s)"
| GraceOver: "srStage s = Grace \<Longrightarrow> (srDoneAtDrain s \<longleftrightarrow> doneAfter = Some 0) \<Longrightarrow> (doneAfter \<noteq> None \<longrightarrow> srCtxDone s) \<Longrightarrow>
    server_step s (s\<lparr>srWaited := Some (drainGrace DefaultShutdownDrainGrace doneAfter), srStage := ShutPublic\<rparr>)"
| ShutdownPublic: "srStage s = ShutPublic \<Longrightarrow> r = None \<longrightarrow> srInFlight s = 0 \<Longrightarrow>
    server_step s (s\<lparr>srPublic := shut (srPublic s), srDrainErrs := srDrainErrs s @ [r], srStage := ShutInternal\<rparr>)"
| ShutdownInternal: "srStage s = ShutInternal \<Longrightarrow>
    server_step s (s\<lparr>srInternal := shut (srInternal s), srDrainErrs := srDrainErrs s @ [r], srStage := CloseDeps\<rparr>)"
| CloseDeps: "srStage s = CloseDeps \<Longrightarrow>
    server_step s (s\<lparr>srOpen := False, srStage := Finished,
      srResult := Some (errors_Join [srRunErr s, errors_Join (srDrainErrs s)])\<rparr>)"

inductive server_run :: "serverRun \<Rightarrow> serverRun \<Rightarrow> bool" where
  Refl: "server_run s s"
| Step: "server_run s s' \<Longrightarrow> server_step s' s'' \<Longrightarrow> server_run s s''"

section \<open>The order of a shutdown\<close>

fun stage_no :: "runStage \<Rightarrow> nat" where
  "stage_no WaitForStop = 0" | "stage_no StopRetention = 1" | "stage_no AwaitRetention = 2" | "stage_no Drain = 3"
| "stage_no Grace = 4" | "stage_no ShutPublic = 5" | "stage_no ShutInternal = 6" | "stage_no CloseDeps = 7"
| "stage_no Finished = 8"

lemma stage_no_iff [simp]:
  "stage_no g = 0 \<longleftrightarrow> g = WaitForStop" "8 \<le> stage_no g \<longleftrightarrow> g = Finished"
  by (cases g; simp)+

definition server_ok :: "serverRun \<Rightarrow> bool" where
  "server_ok s \<longleftrightarrow> (let n = stage_no (srStage s) in
     (srRetentionCancelled s \<longleftrightarrow> 2 \<le> n) \<and> (3 \<le> n \<longrightarrow> srRetentionEnded s) \<and> (srShuttingDown s \<longleftrightarrow> 4 \<le> n) \<and>
     (lsShut (srPublic s) \<longleftrightarrow> 6 \<le> n) \<and> (lsShut (srInternal s) \<longleftrightarrow> 7 \<le> n) \<and> (srOpen s \<longleftrightarrow> n < 8) \<and>
     (lsShut (srPublic s) \<longrightarrow> \<not> lsAccepting (srPublic s)) \<and> (lsShut (srInternal s) \<longrightarrow> \<not> lsAccepting (srInternal s)) \<and>
     (srDoneAtDrain s \<longrightarrow> srCtxDone s) \<and> (5 \<le> n \<and> srDoneAtDrain s \<longrightarrow> srWaited s = Some 0) \<and>
     length (srDrainErrs s) = (if 7 \<le> n then 2 else if 6 \<le> n then 1 else 0) \<and>
     (6 \<le> n \<and> hd (srDrainErrs s) = None \<longrightarrow> srInFlight s = 0) \<and>
     (srErrs s \<noteq> [] \<longrightarrow> lsReported (srPublic s) \<or> lsReported (srInternal s)) \<and>
     (0 < n \<longrightarrow> srCtxDone s \<or> srStopped s \<or> lsReported (srPublic s) \<or> lsReported (srInternal s)) \<and>
     srResult s = (if n = 8 then Some (errors_Join [srRunErr s, errors_Join (srDrainErrs s)]) else None))"

lemma server_ok_running: "server_ok running"
  by (simp add: server_ok_def running_def freshListener_def)

lemma server_ok_step: "server_step s s' \<Longrightarrow> server_ok s \<Longrightarrow> server_ok s'"
proof (induction rule: server_step.induct)
  case (GraceOver s doneAfter)
  then show ?case by (auto simp: server_ok_def Let_def drainGrace_def DefaultShutdownDrainGrace_def second_def)
next
  case (ShutdownPublic s r)
  then show ?case by (auto simp: server_ok_def Let_def shut_def hd_append)
next
  case (ShutdownInternal s r)
  then show ?case by (auto simp: server_ok_def Let_def shut_def hd_append)
qed (auto simp: server_ok_def Let_def Stop_server_def BeginShutdown_def listenerEnds_def split: if_splits)

lemma server_ok_run: "server_run s s' \<Longrightarrow> server_ok s \<Longrightarrow> server_ok s'"
  by (induction rule: server_run.induct) (auto intro: server_ok_step)

lemmas reached_server = server_ok_run [OF _ server_ok_running]

lemma server_okD:
  assumes "server_ok s"
  shows "srRetentionCancelled s \<longleftrightarrow> 2 \<le> stage_no (srStage s)" and "3 \<le> stage_no (srStage s) \<Longrightarrow> srRetentionEnded s"
    and "srShuttingDown s \<longleftrightarrow> 4 \<le> stage_no (srStage s)" and "lsShut (srPublic s) \<longleftrightarrow> 6 \<le> stage_no (srStage s)"
    and "lsShut (srInternal s) \<longleftrightarrow> 7 \<le> stage_no (srStage s)" and "srOpen s \<longleftrightarrow> stage_no (srStage s) < 8"
    and "lsShut (srPublic s) \<Longrightarrow> \<not> lsAccepting (srPublic s)"
    and "5 \<le> stage_no (srStage s) \<Longrightarrow> srDoneAtDrain s \<Longrightarrow> srWaited s = Some 0" and "srDoneAtDrain s \<Longrightarrow> srCtxDone s"
    and "7 \<le> stage_no (srStage s) \<Longrightarrow> length (srDrainErrs s) = 2"
    and "6 \<le> stage_no (srStage s) \<Longrightarrow> hd (srDrainErrs s) = None \<Longrightarrow> srInFlight s = 0"
    and "0 < stage_no (srStage s) \<Longrightarrow> srCtxDone s \<or> srStopped s \<or> lsReported (srPublic s) \<or> lsReported (srInternal s)"
    and "srResult s = (if stage_no (srStage s) = 8 then Some (errors_Join [srRunErr s, errors_Join (srDrainErrs s)]) else None)"
  using assms by (simp_all add: server_ok_def Let_def)

text \<open>
  In every reachable state: a listener is shut down only when readiness already fails and the
  retention loop is gone, and the database is closed only after both listeners are shut down.
\<close>

lemma shutdown_ordered:
  assumes "server_run running s"
  shows "lsShut (srPublic s) \<or> lsShut (srInternal s) \<Longrightarrow> srShuttingDown s \<and> srRetentionEnded s"
    and "\<not> srOpen s \<Longrightarrow> lsShut (srPublic s) \<and> lsShut (srInternal s) \<and> srStage s = Finished"
    and "srShuttingDown s \<Longrightarrow> srCtxDone s \<or> srStopped s \<or> lsReported (srPublic s) \<or> lsReported (srInternal s)"
    and "srDoneAtDrain s \<Longrightarrow> lsShut (srPublic s) \<Longrightarrow> srWaited s = Some 0"
proof -
  note f = server_okD [OF reached_server [OF assms]]
  show "srShuttingDown s \<and> srRetentionEnded s" if "lsShut (srPublic s) \<or> lsShut (srInternal s)"
    using that f(2-5) by linarith
  show "lsShut (srPublic s) \<and> lsShut (srInternal s) \<and> srStage s = Finished" if "\<not> srOpen s"
  proof -
    have "8 \<le> stage_no (srStage s)" using that f(6) by linarith
    then show ?thesis using f(4, 5) stage_no_iff(2) by fastforce
  qed
  show "srCtxDone s \<or> srStopped s \<or> lsReported (srPublic s) \<or> lsReported (srInternal s)" if "srShuttingDown s"
    using that f(3, 12) by linarith
  show "srWaited s = Some 0" if "srDoneAtDrain s" "lsShut (srPublic s)" using that f(4, 8) by linarith
qed

text \<open>A run that returns no error has answered every request; one that gave up on some says so.\<close>

lemma errors_Join_None: "errors_Join es = None \<longleftrightarrow> (\<forall>e \<in> set es. e = None)"
  by (simp add: errors_Join_def)

lemma clean_result:
  assumes "server_run running s" and "srResult s = Some None"
  shows "srInFlight s = 0" and "\<not> lsAccepting (srPublic s)" and "\<not> srOpen s" and "srRunErr s = None"
proof -
  note f = server_okD [OF reached_server [OF assms(1)]]
  have n: "stage_no (srStage s) = 8" and "errors_Join [srRunErr s, errors_Join (srDrainErrs s)] = None"
    using f(13) assms(2) by (simp_all split: if_splits)
  then have none: "srRunErr s = None" "\<forall>e \<in> set (srDrainErrs s). e = None" by (simp_all add: errors_Join_None)
  have "length (srDrainErrs s) = 2" using f(10) n by simp
  with none(2) have "hd (srDrainErrs s) = None" by (cases "srDrainErrs s") auto
  then show "srInFlight s = 0" using f(11) n by simp
  show "\<not> lsAccepting (srPublic s)" "\<not> srOpen s" "srRunErr s = None" using f(4, 6, 7) n none(1) by simp_all
qed

section \<open>A requested stop comes to an end\<close>

text \<open>From any state with a reason to stop, the run can be brought to its end, one stage at a time.\<close>

definition stop_due :: "serverRun \<Rightarrow> bool" where
  "stop_due s \<longleftrightarrow> srStage s \<noteq> WaitForStop \<or> srCtxDone s \<or> srStopped s \<or> srErrs s \<noteq> []"

lemma next_stage:
  assumes "server_ok s" and "stop_due s" and "srStage s \<noteq> Finished"
  shows "\<exists>s'. server_run s s' \<and> stage_no (srStage s') = Suc (stage_no (srStage s))"
proof -
  have one: "?thesis" if "server_step s s'" "stage_no (srStage s') = Suc (stage_no (srStage s))" for s'
    using that server_run.Step [OF server_run.Refl] by blast
  note f = server_okD [OF assms(1)]
  show ?thesis
  proof (cases "srStage s")
    case WaitForStop
    show ?thesis
    proof (cases "srErrs s")
      case Nil
      then have "srCtxDone s \<or> srStopped s" using assms(2) WaitForStop by (simp add: stop_due_def)
      from one [OF server_step.SeesDone [OF WaitForStop this]] WaitForStop show ?thesis by simp
    next
      case (Cons e es)
      from one [OF server_step.SeesError [OF WaitForStop Cons]] WaitForStop show ?thesis by simp
    qed
  next
    case StopRetention
    from one [OF server_step.CancelRetention [OF this]] this show ?thesis by simp
  next
    case AwaitRetention
    let ?s = "s\<lparr>srRetentionEnded := True\<rparr>"
    have "server_step s ?s" using f(1) AwaitRetention by (intro server_step.RetentionEnds) simp
    then have "server_run s ?s" using server_run.Step [OF server_run.Refl] by blast
    from server_run.Step [OF this server_step.RetentionDone] AwaitRetention show ?thesis by fastforce
  next
    case Drain
    from one [OF server_step.DrainBegins [OF this]] this show ?thesis by (simp add: BeginShutdown_def)
  next
    case Grace
    have "server_step s (s\<lparr>srWaited := Some (drainGrace DefaultShutdownDrainGrace (if srDoneAtDrain s then Some 0 else None)),
        srStage := ShutPublic\<rparr>)"
      using f(9) by (intro server_step.GraceOver [OF Grace]) auto
    from one [OF this] Grace show ?thesis by simp
  next
    case ShutPublic
    from one [OF server_step.ShutdownPublic [OF this, of "Some []"]] this show ?thesis by simp
  next
    case ShutInternal
    from one [OF server_step.ShutdownInternal [OF this]] this show ?thesis by simp
  next
    case CloseDeps
    from one [OF server_step.CloseDeps [OF this]] this show ?thesis by simp
  qed (use assms in simp)
qed

lemma server_run_trans: "server_run s1 s2 \<Longrightarrow> server_run s2 s3 \<Longrightarrow> server_run s1 s3"
  by (rotate_tac 1, induction rule: server_run.induct) (auto intro: server_run.Step)

lemma stop_completes:
  assumes "server_ok s" and "stop_due s"
  shows "\<exists>s'. server_run s s' \<and> srStage s' = Finished \<and> srResult s' \<noteq> None \<and> \<not> srOpen s'"
  using assms
proof (induction "8 - stage_no (srStage s)" arbitrary: s rule: less_induct)
  case less
  show ?case
  proof (cases "srStage s = Finished")
    case True
    then show ?thesis using server_run.Refl [of s] server_okD(6, 13) [OF less.prems(1)] by auto
  next
    case False
    obtain s1 where s1: "server_run s s1" "stage_no (srStage s1) = Suc (stage_no (srStage s))"
      using next_stage [OF less.prems False] by blast
    have "stage_no (srStage s) < 8" using False stage_no_iff(2) by (metis not_less)
    moreover have "srStage s1 \<noteq> WaitForStop" using s1(2) by auto
    moreover have "8 - stage_no (srStage s1) < 8 - stage_no (srStage s)" using s1(2) calculation(1) by simp
    ultimately obtain s' where "server_run s1 s'" "srStage s' = Finished \<and> srResult s' \<noteq> None \<and> \<not> srOpen s'"
      using less.hyps [of s1] server_ok_run [OF s1(1) less.prems(1)] by (auto simp: stop_due_def)
    then show ?thesis using server_run_trans [OF s1(1)] by blast
  qed
qed

text \<open>
  The end of a run whose public listener did not drain in time: the database is closed while a
  request is still in flight.
\<close>

lemma deadline_closes_under_requests:
  "\<exists>s. server_run running s \<and> srStage s = Finished \<and> \<not> srOpen s \<and> srInFlight s = 1 \<and> srResult s = Some (Some e)"
proof -
  define s1 where "s1 = running\<lparr>srInFlight := Suc 0\<rparr>"
  define s2 where "s2 = s1\<lparr>srCtxDone := True\<rparr>"
  define s3 where "s3 = s2\<lparr>srRunErr := None, srStage := StopRetention\<rparr>"
  define s4 where "s4 = s3\<lparr>srRetentionCancelled := True, srStage := AwaitRetention\<rparr>"
  define s5 where "s5 = s4\<lparr>srRetentionEnded := True\<rparr>"
  define s6 where "s6 = s5\<lparr>srStage := Drain\<rparr>"
  define s7 where "s7 = BeginShutdown s6"
  define s8 where "s8 = s7\<lparr>srWaited := Some (drainGrace DefaultShutdownDrainGrace (Some 0)), srStage := ShutPublic\<rparr>"
  define s9 where "s9 = s8\<lparr>srPublic := shut (srPublic s8), srDrainErrs := srDrainErrs s8 @ [Some e], srStage := ShutInternal\<rparr>"
  define s10 where "s10 = s9\<lparr>srInternal := shut (srInternal s9), srDrainErrs := srDrainErrs s9 @ [None], srStage := CloseDeps\<rparr>"
  define s11 where "s11 = s10\<lparr>srOpen := False, srStage := Finished,
    srResult := Some (errors_Join [srRunErr s10, errors_Join (srDrainErrs s10)])\<rparr>"
  note defs = s1_def s2_def s3_def s4_def s5_def s6_def s7_def s8_def s9_def s10_def s11_def running_def freshListener_def
    BeginShutdown_def
  have t1: "server_step running s1" unfolding s1_def
    using server_step.Arrive [of running] by (simp add: running_def freshListener_def)
  have t2: "server_step s1 s2" unfolding s2_def by (rule server_step.Cancel)
  have t3: "server_step s2 s3" unfolding s3_def by (rule server_step.SeesDone) (simp_all add: defs)
  have t4: "server_step s3 s4" unfolding s4_def by (rule server_step.CancelRetention) (simp add: defs)
  have t5: "server_step s4 s5" unfolding s5_def by (rule server_step.RetentionEnds) (simp add: defs)
  have t6: "server_step s5 s6" unfolding s6_def by (rule server_step.RetentionDone) (simp_all add: defs)
  have t7: "server_step s6 s7" unfolding s7_def by (rule server_step.DrainBegins) (simp add: s6_def)
  have t8: "server_step s7 s8" unfolding s8_def by (rule server_step.GraceOver) (simp_all add: defs)
  have t9: "server_step s8 s9" unfolding s9_def by (rule server_step.ShutdownPublic) (simp_all add: s8_def)
  have t10: "server_step s9 s10" unfolding s10_def by (rule server_step.ShutdownInternal) (simp add: s9_def)
  have t11: "server_step s10 s11" unfolding s11_def by (rule server_step.CloseDeps) (simp add: s10_def)
  have "server_run running s11"
    by (intro server_run.Step [OF _ t11] server_run.Step [OF _ t10] server_run.Step [OF _ t9] server_run.Step [OF _ t8]
        server_run.Step [OF _ t7] server_run.Step [OF _ t6] server_run.Step [OF _ t5] server_run.Step [OF _ t4]
        server_run.Step [OF _ t3] server_run.Step [OF _ t2] server_run.Step [OF _ t1] server_run.Refl)
  moreover have "srInFlight s11 = 1" "srResult s11 = Some (Some e)" "srStage s11 = Finished" "\<not> srOpen s11"
    by (simp_all add: defs errors_Join_def)
  ultimately show ?thesis by blast
qed

end
