(* ===== verification/ServiceManager.thy ===== *)
theory ServiceManager
  imports Store
begin

text \<open>
  The registry of the service manager (\<open>internal/pkg/service-manager/service_manager.go\<close>):
  factories, services and the resolution of the start order from declared dependencies. The
  optional interfaces of a service are options. The lemmas show that the order puts every
  service after what it depends on and that it exists exactly when the dependencies are acyclic.
\<close>

section \<open>Services and the registry\<close>

datatype smError =
    ErrServiceNotFound | ErrNoEnabledServices | ErrCyclicDependency | ErrServicePanic | ErrNoCommands
  | ErrServicesConfig | ErrService string

record managedService =
  msName :: string
  msDependencies :: "string list option"
  msMaxRetries :: "int option"
  msRetryDelay :: duration
  msAllowedFailure :: "bool option"
  msNotifiesReady :: bool

type_synonym serviceMap = "(string, managedService) gomap"

record manager =
  mgFactories :: "(string, smError + managedService) gomap"
  mgServices :: serviceMap

definition Register :: "manager \<Rightarrow> string \<Rightarrow> smError + managedService \<Rightarrow> manager" where
  "Register m name factory = m\<lparr>mgFactories := AList.update name factory (mgFactories m)\<rparr>"

definition RegisteredNames :: "manager \<Rightarrow> string list" where
  "RegisteredNames m = map fst (mgFactories m)"

definition Instantiate :: "manager \<Rightarrow> string \<Rightarrow> smError + managedService" where
  "Instantiate m name = (case map_of (mgFactories m) name of None \<Rightarrow> Inl ErrServiceNotFound | Some factory \<Rightarrow> factory)"

definition ClearServices :: "manager \<Rightarrow> manager" where
  "ClearServices m = m\<lparr>mgServices := []\<rparr>"

definition Add :: "manager \<Rightarrow> managedService list \<Rightarrow> manager" where
  "Add m services = m\<lparr>mgServices := fold (\<lambda>s. AList.update (msName s) s) services (mgServices m)\<rparr>"

text \<open>The configuration is \<open>None\<close> when the environment cannot be parsed.\<close>

definition parseEnabledServicesContext :: "string list option \<Rightarrow> smError + string list \<times> bool" where
  "parseEnabledServicesContext cfg =
     (case cfg of
        None \<Rightarrow> Inl ErrServicesConfig
      | Some enabled \<Rightarrow> if length enabled = 0 then Inr ([], True) else Inr (enabled, False))"

definition parseEnabledServices :: "string list option \<Rightarrow> string list \<times> bool" where
  "parseEnabledServices cfg = (case parseEnabledServicesContext cfg of Inl _ \<Rightarrow> ([], True) | Inr r \<Rightarrow> r)"

fun instantiateLoop ::
  "string list \<Rightarrow> bool \<Rightarrow> (string \<times> (smError + managedService)) list \<Rightarrow> manager \<Rightarrow> manager \<times> smError option" where
  "instantiateLoop enabled everything [] m = (m, None)"
| "instantiateLoop enabled everything ((name, factory) # rest) m =
     (if \<not> everything \<and> name \<notin> set enabled then instantiateLoop enabled everything rest m
      else case factory of
        Inl e \<Rightarrow> (m, Some e)
      | Inr s \<Rightarrow> instantiateLoop enabled everything rest (Add m [s]))"

definition instantiateAllContext :: "string list option \<Rightarrow> manager \<Rightarrow> manager \<times> smError option" where
  "instantiateAllContext cfg m =
     (case parseEnabledServicesContext cfg of
        Inl e \<Rightarrow> (m, Some e)
      | Inr (enabled, everything) \<Rightarrow> instantiateLoop enabled everything (mgFactories m) m)"

section \<open>The start order\<close>

text \<open>A missing key of a counter reads as zero, and of a list map as the empty list.\<close>

definition degree :: "(string, int) gomap \<Rightarrow> string \<Rightarrow> int" where
  "degree m k = (case map_of m k of None \<Rightarrow> 0 | Some d \<Rightarrow> d)"

definition names_at :: "(string, string list) gomap \<Rightarrow> string \<Rightarrow> string list" where
  "names_at m k = (case map_of m k of None \<Rightarrow> [] | Some xs \<Rightarrow> xs)"

type_synonym depGraph = "(string, int) gomap \<times> (string, string list) gomap"

fun addDependencies :: "serviceMap \<Rightarrow> string \<Rightarrow> string list \<Rightarrow> depGraph \<Rightarrow> depGraph" where
  "addDependencies services name [] g = g"
| "addDependencies services name (d # ds) (inDegree, dependents) =
     addDependencies services name ds
       (if \<not> has_key services d then (inDegree, dependents)
        else (AList.update name (degree inDegree name + 1) inDegree,
              AList.update d (names_at dependents d @ [name]) dependents))"

definition buildDepGraphContext :: "serviceMap \<Rightarrow> depGraph" where
  "buildDepGraphContext services =
     fold (\<lambda>(name, s) g. case msDependencies s of None \<Rightarrow> g | Some ds \<Rightarrow> addDependencies services name ds g)
       services (map (\<lambda>(name, s). (name, 0)) services, [])"

text \<open>One pass over the dependents of a group: decrement, and enqueue at zero.\<close>

fun relax :: "string list \<Rightarrow> (string, int) gomap \<Rightarrow> string list \<Rightarrow> (string, int) gomap \<times> string list" where
  "relax [] inDegree next = (inDegree, next)"
| "relax (d # ds) inDegree next =
     (let inDegree' = AList.update d (degree inDegree d - 1) inDegree in
      relax ds inDegree' (if degree inDegree' d \<noteq> 0 then next else next @ [d]))"

definition positive :: "(string, int) gomap \<Rightarrow> string set" where
  "positive m = {k. 0 < degree m k}"

lemma degree_update [simp]: "degree (AList.update k v m) x = (if x = k then v else degree m x)"
  by (simp add: degree_def map_of_update)

lemma finite_positive: "finite (positive m)"
proof (rule finite_subset)
  show "positive m \<subseteq> fst ` set m"
  proof
    fix k assume "k \<in> positive m"
    then obtain d where "map_of m k = Some d" by (auto simp: positive_def degree_def split: option.splits)
    then show "k \<in> fst ` set m" by (metis image_eqI fst_conv map_of_SomeD)
  qed
qed simp

lemma relax_degree: "degree (fst (relax ds m q)) x = degree m x - int (count_list ds x)"
  by (induction ds m q rule: relax.induct) (auto simp: Let_def)

lemma relax_set:
  "set (snd (relax ds m q)) = set q \<union> {x. 0 < degree m x \<and> degree m x \<le> int (count_list ds x)}"
proof (induction ds m q rule: relax.induct)
  case (2 d ds m q)
  let ?m = "AList.update d (degree m d - 1) m"
  have IH: "set (snd (relax (d # ds) m q)) =
      set (if degree ?m d \<noteq> 0 then q else q @ [d]) \<union> {x. 0 < degree ?m x \<and> degree ?m x \<le> int (count_list ds x)}"
    using 2 [OF refl] by (simp add: Let_def)
  have "x \<in> set (snd (relax (d # ds) m q)) \<longleftrightarrow>
      x \<in> set q \<union> {x. 0 < degree m x \<and> degree m x \<le> int (count_list (d # ds) x)}" for x
    unfolding IH by (cases "x = d"; cases "degree m d = 1"; simp; arith)
  then show ?case by blast
qed auto

lemma relax_distinct:
  "distinct q \<Longrightarrow> \<forall>x \<in> set q. degree m x \<le> 0 \<Longrightarrow> distinct (snd (relax ds m q))"
proof (induction ds m q rule: relax.induct)
  case (2 d ds m q)
  let ?m = "AList.update d (degree m d - 1) m"
  have "distinct (if degree ?m d \<noteq> 0 then q else q @ [d])" using "2.prems" by auto
  moreover have "\<forall>x \<in> set (if degree ?m d \<noteq> 0 then q else q @ [d]). degree ?m x \<le> 0" using "2.prems" by auto
  ultimately show ?case using "2.IH" [OF refl] by (simp add: Let_def)
qed auto

lemma positive_relax: "positive (fst (relax ds m q)) \<subseteq> positive m"
  by (auto simp: positive_def relax_degree)

lemma relax_positive:
  assumes "snd (relax ds m []) \<noteq> []"
  shows "card (positive (fst (relax ds m []))) < card (positive m)"
proof (rule psubset_card_mono [OF finite_positive])
  from assms obtain x where "x \<in> set (snd (relax ds m []))" by fastforce
  then have "0 < degree m x" "degree m x \<le> int (count_list ds x)" by (auto simp: relax_set)
  then have "x \<in> positive m" "x \<notin> positive (fst (relax ds m []))" by (auto simp: positive_def relax_degree)
  then show "positive (fst (relax ds m [])) \<subset> positive m" using positive_relax by blast
qed

function topoLoop ::
  "(string, string list) gomap \<Rightarrow> string list \<Rightarrow> (string, int) gomap \<Rightarrow> string list list \<Rightarrow> string list list" where
  "topoLoop dependents queue inDegree groups =
     (if length queue = 0 then groups
      else case relax (concat (map (names_at dependents) queue)) inDegree [] of
        (inDegree', nextQueue) \<Rightarrow> topoLoop dependents nextQueue inDegree' (groups @ [queue]))"
  by pat_completeness auto
termination
proof (relation "measure (\<lambda>(_, queue, inDegree, _). card (positive inDegree) + (if queue = [] then 0 else 1))", goal_cases)
  case (2 dependents queue inDegree groups inDegree' nextQueue)
  let ?r = "relax (concat (map (names_at dependents) queue)) inDegree []"
  have r: "inDegree' = fst ?r" "nextQueue = snd ?r" using 2(2) by (metis fst_conv snd_conv)+
  have "card (positive inDegree') \<le> card (positive inDegree)"
    unfolding r by (intro card_mono finite_positive positive_relax)
  moreover have "nextQueue \<noteq> [] \<Longrightarrow> card (positive inDegree') < card (positive inDegree)"
    unfolding r by (rule relax_positive)
  ultimately show ?case using 2(1) by (cases "nextQueue = []") auto
qed simp

declare topoLoop.simps [simp del]

definition topoSort ::
  "serviceMap \<Rightarrow> (string, int) gomap \<Rightarrow> (string, string list) gomap \<Rightarrow> smError + managedService list list" where
  "topoSort services inDegree dependents =
     (let groups = topoLoop dependents (map fst (filter (\<lambda>(_, deg). deg = 0) inDegree)) inDegree [];
          processed = sum_list (map length groups) in
      if processed \<noteq> length services then Inl ErrCyclicDependency
      else Inr (map (map (\<lambda>name. the (map_of services name))) groups))"

definition resolveOrderContext :: "serviceMap \<Rightarrow> smError + managedService list list" where
  "resolveOrderContext services =
     (case buildDepGraphContext services of (inDegree, dependents) \<Rightarrow> topoSort services inDegree dependents)"

definition resolveOrder :: "serviceMap \<Rightarrow> smError + managedService list list" where
  "resolveOrder services = resolveOrderContext services"

section \<open>What the graph holds and what the sort makes of it\<close>

text \<open>The dependencies of a service that are in the process.\<close>

definition present :: "serviceMap \<Rightarrow> managedService \<Rightarrow> string list" where
  "present services s = filter (has_key services) (case msDependencies s of None \<Rightarrow> [] | Some ds \<Rightarrow> ds)"

definition needs :: "serviceMap \<Rightarrow> string \<Rightarrow> string list" where
  "needs services x = (case map_of services x of None \<Rightarrow> [] | Some s \<Rightarrow> present services s)"

lemma needs_keys: "d \<in> set (needs services x) \<Longrightarrow> d \<in> fst ` set services \<and> x \<in> fst ` set services"
  by (cases "map_of services x") (auto simp: needs_def present_def has_key_iff dest: map_of_SomeD intro: rev_image_eqI)

lemma names_at_update [simp]: "names_at (AList.update k v m) x = (if x = k then v else names_at m x)"
  by (simp add: names_at_def map_of_update)

lemma keys_update_present: "k \<in> set (map fst m) \<Longrightarrow> map fst (AList.update k v m) = map fst m"
  by (induction m) auto

lemma addDependencies_degree:
  "degree (fst (addDependencies services name ds g)) x =
     degree (fst g) x + (if x = name then int (length (filter (has_key services) ds)) else 0)"
  by (induction services name ds g rule: addDependencies.induct) auto

lemma addDependencies_count:
  "count_list (names_at (snd (addDependencies services name ds g)) d) x =
     count_list (names_at (snd g) d) x + (if x = name then count_list (filter (has_key services) ds) d else 0)"
  by (induction services name ds g rule: addDependencies.induct) auto

lemma addDependencies_keys:
  "name \<in> set (map fst (fst g)) \<Longrightarrow> map fst (fst (addDependencies services name ds g)) = map fst (fst g)"
proof (induction services name ds g rule: addDependencies.induct)
  case (2 services name d ds inDegree dependents)
  then show ?case by (cases "has_key services d") (simp_all add: keys_update_present keys_update)
qed simp

definition addService :: "serviceMap \<Rightarrow> string \<times> managedService \<Rightarrow> depGraph \<Rightarrow> depGraph" where
  "addService services = (\<lambda>(name, s) g.
     case msDependencies s of None \<Rightarrow> g | Some ds \<Rightarrow> addDependencies services name ds g)"

lemma addService_adds:
  "degree (fst (addService services (name, s) g)) x =
     degree (fst g) x + (if x = name then int (length (present services s)) else 0)"
  "count_list (names_at (snd (addService services (name, s) g)) d) x =
     count_list (names_at (snd g) d) x + (if x = name then count_list (present services s) d else 0)"
  "name \<in> set (map fst (fst g)) \<Longrightarrow> map fst (fst (addService services (name, s) g)) = map fst (fst g)"
  by (auto simp: addService_def present_def addDependencies_degree addDependencies_count addDependencies_keys
      split: option.splits)

lemma addService_fold:
  "gomap_ok xs \<Longrightarrow> set (map fst xs) \<subseteq> set (map fst (fst g)) \<Longrightarrow>
   degree (fst (fold (addService services) xs g)) x =
     degree (fst g) x + (case map_of xs x of None \<Rightarrow> 0 | Some s \<Rightarrow> int (length (present services s))) \<and>
   count_list (names_at (snd (fold (addService services) xs g)) d) x =
     count_list (names_at (snd g) d) x + (case map_of xs x of None \<Rightarrow> 0 | Some s \<Rightarrow> count_list (present services s) d) \<and>
   map fst (fst (fold (addService services) xs g)) = map fst (fst g)"
proof (induction xs arbitrary: g)
  case (Cons y xs)
  obtain name s where y: "y = (name, s)" by fastforce
  let ?g = "addService services (name, s) g"
  have new: "map_of xs name = None" and ok: "gomap_ok xs"
    using Cons.prems(1) by (auto simp: y gomap_ok_def map_of_eq_None_iff)
  have same: "map fst (fst ?g) = map fst (fst g)"
    by (rule addService_adds(3)) (use Cons.prems(2) in \<open>auto simp: y\<close>)
  have "set (map fst xs) \<subseteq> set (map fst (fst ?g))" unfolding same using Cons.prems(2) by auto
  from Cons.IH [OF ok this] show ?case
    using new by (simp add: y same addService_adds)
qed simp

text \<open>
  The loop of the sort, over any counters and reverse edges that count the dependencies: the
  groups so far hold every service after what it depends on, a counter is the number of
  dependencies not placed yet, and the queue is what can be placed next.
\<close>

definition ordered :: "(string \<Rightarrow> string list) \<Rightarrow> string list list \<Rightarrow> bool" where
  "ordered dep groups \<longleftrightarrow> (\<forall>i < length groups. \<forall>x \<in> set (groups ! i). set (dep x) \<subseteq> set (concat (take i groups)))"

definition sort_ok ::
  "string set \<Rightarrow> (string \<Rightarrow> string list) \<Rightarrow> string list \<Rightarrow> (string, int) gomap \<Rightarrow> string list list \<Rightarrow> bool" where
  "sort_ok keys dep queue inDegree groups \<longleftrightarrow>
     distinct (concat groups @ queue) \<and> set (concat groups) \<subseteq> keys \<and> ordered dep groups \<and>
     (\<forall>x. degree inDegree x = int (length (filter (\<lambda>d. d \<notin> set (concat groups)) (dep x)))) \<and>
     set queue = {x \<in> keys. x \<notin> set (concat groups) \<and> degree inDegree x = 0}"

lemma in_concat_nth: "x \<in> set (concat xs) \<longleftrightarrow> (\<exists>i < length xs. x \<in> set (xs ! i))"
  by (simp add: Bex_def) (metis in_set_conv_nth)

lemma in_concat_take: "x \<in> set (concat (take n xs)) \<longleftrightarrow> (\<exists>i < length xs. i < n \<and> x \<in> set (xs ! i))"
  by (auto simp: in_concat_nth simp del: set_concat)

lemma ordered_concat: "ordered dep groups \<Longrightarrow> x \<in> set (concat groups) \<Longrightarrow> set (dep x) \<subseteq> set (concat groups)"
proof -
  assume ord: "ordered dep groups" and "x \<in> set (concat groups)"
  then obtain i where i: "i < length groups" "x \<in> set (groups ! i)" unfolding in_concat_nth by blast
  then have "set (dep x) \<subseteq> set (concat (take i groups))" using ord by (simp add: ordered_def)
  moreover have "set (concat (take i groups)) \<subseteq> set (concat groups)" using set_take_subset by fastforce
  ultimately show ?thesis by blast
qed

lemma ordered_snoc:
  "ordered dep groups \<Longrightarrow> \<forall>x \<in> set queue. set (dep x) \<subseteq> set (concat groups) \<Longrightarrow> ordered dep (groups @ [queue])"
  by (auto simp: ordered_def nth_append less_Suc_eq)

lemma count_concat_distinct:
  "distinct queue \<Longrightarrow> (\<And>d x. count_list (edges d) x = count_list (dep x) d) \<Longrightarrow>
   count_list (concat (map edges queue)) x = length (filter (\<lambda>d. d \<in> set queue) (dep x))"
proof (induction queue)
  case (Cons q queue)
  have "length (filter (\<lambda>d. d \<in> set (q # queue)) ds) = count_list ds q + length (filter (\<lambda>d. d \<in> set queue) ds)"
    for ds using Cons.prems(1) by (induction ds) auto
  with Cons show ?case by simp
qed simp

lemma sort_ok_step:
  assumes ok: "sort_ok keys dep queue inDegree groups"
    and edges: "\<And>d x. count_list (edges d) x = count_list (dep x) d"
    and inside: "\<And>x. dep x \<noteq> [] \<Longrightarrow> x \<in> keys"
    and r: "r = relax (concat (map edges queue)) inDegree []"
  shows "sort_ok keys dep (snd r) (fst r) (groups @ [queue])"
proof -
  let ?P = "set (concat groups)" and ?Q = "set (concat (groups @ [queue]))"
  have deg: "degree inDegree x = int (length (filter (\<lambda>d. d \<notin> ?P) (dep x)))"
    and q: "x \<in> set queue \<longleftrightarrow> x \<in> keys \<and> x \<notin> ?P \<and> degree inDegree x = 0"
    and dq: "distinct queue" and ord: "ordered dep groups" for x
    using ok by (auto simp: sort_ok_def)
  have count: "count_list (concat (map edges queue)) x = length (filter (\<lambda>d. d \<in> set queue) (dep x))" for x
    by (rule count_concat_distinct [OF dq edges])
  have split: "length (filter (\<lambda>d. d \<notin> ?P) ds) =
      length (filter (\<lambda>d. d \<in> set queue) ds) + length (filter (\<lambda>d. d \<notin> ?Q) ds)" for ds
    using q by (induction ds) auto
  have deg': "degree (fst r) x = int (length (filter (\<lambda>d. d \<notin> ?Q) (dep x)))" for x
    unfolding r relax_degree count deg split by simp
  have done_zero: "degree inDegree x = 0" if "x \<in> ?P" for x
    unfolding deg using ordered_concat [OF ord that] by (auto simp: filter_empty_conv)
  have nq: "set (snd r) = {x \<in> keys. x \<notin> ?Q \<and> degree (fst r) x = 0}"
  proof -
    have "x \<in> set (snd r) \<longleftrightarrow> x \<in> keys \<and> x \<notin> ?Q \<and> degree (fst r) x = 0" for x
    proof -
      have "0 \<le> degree inDegree x" "0 \<le> degree (fst r) x" unfolding deg deg' by simp_all
      then have "x \<in> set (snd r) \<longleftrightarrow> degree inDegree x \<noteq> 0 \<and> degree (fst r) x = 0"
        unfolding r relax_set relax_degree by auto
      moreover have "degree inDegree x \<noteq> 0 \<Longrightarrow> x \<in> keys" using inside [of x] deg [of x] by fastforce
      ultimately show ?thesis using q [of x] done_zero [of x] by (cases "x \<in> ?P") auto
    qed
    then show ?thesis by blast
  qed
  have "distinct (snd r)" unfolding r by (rule relax_distinct) auto
  moreover have "ordered dep (groups @ [queue])"
    by (rule ordered_snoc [OF ord]) (use q in \<open>auto simp: deg filter_empty_conv\<close>)
  ultimately show ?thesis using ok nq deg' by (auto simp: sort_ok_def)
qed

lemma topoLoop_ok:
  assumes "sort_ok keys dep queue inDegree groups"
    and "\<And>d x. count_list (names_at dependents d) x = count_list (dep x) d"
    and "\<And>x. dep x \<noteq> [] \<Longrightarrow> x \<in> keys"
  shows "\<exists>inDegree'. sort_ok keys dep [] inDegree' (topoLoop dependents queue inDegree groups)"
  using assms
proof (induction dependents queue inDegree groups rule: topoLoop.induct)
  case (1 dependents queue inDegree groups)
  show ?case
  proof (cases "queue = []")
    case True then show ?thesis using "1.prems"(1) by (auto simp: topoLoop.simps)
  next
    case False
    obtain m q where r: "relax (concat (map (names_at dependents) queue)) inDegree [] = (m, q)" by fastforce
    have "sort_ok keys dep q m (groups @ [queue])"
      using sort_ok_step [OF "1.prems"(1, 2, 3) r [symmetric]] by simp
    from "1.IH" [OF _ r [symmetric] this "1.prems"(2, 3)] False show ?thesis
      by (simp add: topoLoop.simps [of dependents queue] r)
  qed
qed

text \<open>What the sort relies on: the counters and the reverse edges are those of the dependencies.\<close>

locale graph_builder =
  fixes build :: "serviceMap \<Rightarrow> depGraph"
  assumes build_degree: "gomap_ok services \<Longrightarrow>
      degree (fst (build services)) x = int (length (needs services x))"
    and build_count: "gomap_ok services \<Longrightarrow>
      count_list (names_at (snd (build services)) d) x = count_list (needs services x) d"
    and build_keys: "gomap_ok services \<Longrightarrow> map fst (fst (build services)) = map fst services"
begin

lemma build_start:
  assumes "gomap_ok services"
  shows "sort_ok (fst ` set services) (needs services)
    (map fst (filter (\<lambda>(_, deg). deg = 0) (fst (build services)))) (fst (build services)) []"
proof -
  let ?m = "fst (build services)"
  have keys: "map fst ?m = map fst services" using build_keys assms by blast
  then have dist: "distinct (map fst ?m)" using assms by (simp add: gomap_ok_def)
  have "distinct (map fst (filter (\<lambda>(_, deg). deg = 0) ?m))"
    using dist by (rule distinct_map_filter)
  moreover have "set (map fst (filter (\<lambda>(_, deg). deg = 0) ?m)) = {x \<in> fst ` set services. degree ?m x = 0}"
  proof -
    have "(x, d) \<in> set ?m \<Longrightarrow> degree ?m x = d" for x d
      using dist by (simp add: degree_def)
    moreover have "fst ` set services = fst ` set ?m" using keys by (metis list.set_map)
    ultimately show ?thesis by force
  qed
  ultimately show ?thesis using build_degree [OF assms] by (simp add: sort_ok_def ordered_def)
qed

lemma sort_ends:
  assumes "gomap_ok services"
  obtains m names where "sort_ok (fst ` set services) (needs services) [] m names"
    and "topoSort services (fst (build services)) (snd (build services)) =
      (if length (concat names) \<noteq> length services then Inl ErrCyclicDependency
       else Inr (map (map (\<lambda>name. the (map_of services name))) names))"
proof -
  let ?names = "topoLoop (snd (build services))
    (map fst (filter (\<lambda>(_, deg). deg = 0) (fst (build services)))) (fst (build services)) []"
  have "\<exists>m. sort_ok (fst ` set services) (needs services) [] m ?names"
  proof (rule topoLoop_ok [OF build_start [OF assms] build_count [OF assms]])
    show "needs services x \<noteq> [] \<Longrightarrow> x \<in> fst ` set services" for x
      using needs_keys [of _ services x] by (metis list.set_intros(1) neq_Nil_conv)
  qed
  then show ?thesis using that by (auto simp: topoSort_def Let_def length_concat)
qed

lemma sort_covers:
  assumes "gomap_ok services" and "sort_ok (fst ` set services) (needs services) [] m names"
  shows "length (concat names) = length services \<longleftrightarrow> set (concat names) = fst ` set services"
proof -
  have "card (set (concat names)) = length (concat names)" "set (concat names) \<subseteq> fst ` set services"
    using assms(2) distinct_card [of "concat names"] unfolding sort_ok_def by simp_all
  moreover have "card (fst ` set services) = length services" using assms(1) by (rule gomap_keys_card)
  ultimately show ?thesis by (metis card_subset_eq finite_imageI List.finite_set)
qed

lemma sort_sound:
  assumes "gomap_ok services" and "topoSort services (fst (build services)) (snd (build services)) = Inr groups"
  obtains names where "groups = map (map (\<lambda>name. the (map_of services name))) names"
    and "distinct (concat names)" and "set (concat names) = fst ` set services" and "ordered (needs services) names"
proof -
  obtain m names where ok: "sort_ok (fst ` set services) (needs services) [] m names"
    and r: "topoSort services (fst (build services)) (snd (build services)) =
      (if length (concat names) \<noteq> length services then Inl ErrCyclicDependency
       else Inr (map (map (\<lambda>name. the (map_of services name))) names))"
    using sort_ends [OF assms(1)] by blast
  have "length (concat names) = length services" using assms(2) r by (auto split: if_splits)
  then have "set (concat names) = fst ` set services" using sort_covers [OF assms(1) ok] by simp
  with ok r assms(2) show ?thesis using that by (auto simp: sort_ok_def split: if_splits)
qed

text \<open>The sort fails exactly when some services depend on one another in a circle.\<close>

lemma sort_fails_iff:
  assumes ok: "gomap_ok services"
  shows "topoSort services (fst (build services)) (snd (build services)) = Inl e \<longleftrightarrow>
    e = ErrCyclicDependency \<and>
    (\<exists>C. C \<noteq> {} \<and> C \<subseteq> fst ` set services \<and> (\<forall>x \<in> C. \<exists>d \<in> set (needs services x). d \<in> C))"
proof -
  obtain m names where so: "sort_ok (fst ` set services) (needs services) [] m names"
    and r: "topoSort services (fst (build services)) (snd (build services)) =
      (if length (concat names) \<noteq> length services then Inl ErrCyclicDependency
       else Inr (map (map (\<lambda>name. the (map_of services name))) names))"
    using sort_ends [OF ok] by blast
  let ?R = "fst ` set services - set (concat names)"
  have stuck: "\<exists>d \<in> set (needs services x). d \<in> ?R" if "x \<in> ?R" for x
  proof -
    have "degree m x \<noteq> 0" using so that by (auto simp: sort_ok_def)
    then have "filter (\<lambda>d. d \<notin> set (concat names)) (needs services x) \<noteq> []" using so by (auto simp: sort_ok_def)
    then show ?thesis using needs_keys [of _ services x] by (auto simp: filter_empty_conv)
  qed
  have free: "C \<inter> set (concat names) = {}" if C: "\<forall>x \<in> C. \<exists>d \<in> set (needs services x). d \<in> C" for C
  proof -
    have "C \<inter> set (names ! i) = {}" if "i < length names" for i
      using that
    proof (induction i rule: less_induct)
      case (less i)
      show ?case
      proof (rule ccontr)
        assume "C \<inter> set (names ! i) \<noteq> {}"
        then obtain x where x: "x \<in> C" "x \<in> set (names ! i)" by blast
        obtain d where d: "d \<in> C" "d \<in> set (needs services x)" using C x by blast
        moreover have "ordered (needs services) names" using so by (simp add: sort_ok_def)
        ultimately have "d \<in> set (concat (take i names))" using less.prems x unfolding ordered_def by blast
        then obtain j where "j < i" "j < length names" "d \<in> set (names ! j)" unfolding in_concat_take by blast
        then show False using less d by fastforce
      qed
    qed
    then show ?thesis unfolding disjoint_iff in_concat_nth by blast
  qed
  have "length (concat names) \<noteq> length services \<longleftrightarrow> ?R \<noteq> {}"
    using sort_covers [OF ok so] so by (auto simp: sort_ok_def)
  moreover have "?R \<noteq> {} \<longleftrightarrow>
      (\<exists>C. C \<noteq> {} \<and> C \<subseteq> fst ` set services \<and> (\<forall>x \<in> C. \<exists>d \<in> set (needs services x). d \<in> C))"
  proof
    assume "?R \<noteq> {}"
    then show "\<exists>C. C \<noteq> {} \<and> C \<subseteq> fst ` set services \<and> (\<forall>x \<in> C. \<exists>d \<in> set (needs services x). d \<in> C)"
      using stuck by (intro exI [of _ ?R]) simp
  next
    assume "\<exists>C. C \<noteq> {} \<and> C \<subseteq> fst ` set services \<and> (\<forall>x \<in> C. \<exists>d \<in> set (needs services x). d \<in> C)"
    then obtain C where "C \<noteq> {}" "C \<subseteq> fst ` set services" "C \<inter> set (concat names) = {}" using free by metis
    then show "?R \<noteq> {}" by blast
  qed
  ultimately show ?thesis unfolding r by auto
qed

end

interpretation built: graph_builder buildDepGraphContext
proof
  fix services :: serviceMap and x d
  assume ok: "gomap_ok services"
  let ?g = "(map (\<lambda>(name, s). (name, 0)) services, [])"
  have b: "buildDepGraphContext services = fold (addService services) services ?g"
    by (simp add: buildDepGraphContext_def addService_def)
  have keys: "map fst (fst ?g) = map fst services" by auto
  have zero: "degree (fst ?g) x = 0" for x
    by (auto simp: degree_def split: option.splits dest!: map_of_SomeD)
  have "set (map fst services) \<subseteq> set (map fst (fst ?g))" unfolding keys by simp
  note fold = addService_fold [OF ok this, of services, folded b]
  show "degree (fst (buildDepGraphContext services)) x = int (length (needs services x))"
    using fold zero by (simp add: needs_def split: option.splits)
  show "count_list (names_at (snd (buildDepGraphContext services)) d) x = count_list (needs services x) d"
    using fold by (simp add: needs_def names_at_def split: option.splits)
  show "map fst (fst (buildDepGraphContext services)) = map fst services"
    using fold keys by simp
qed

section \<open>The registry's invariant and the order of its services\<close>

definition registered :: "serviceMap \<Rightarrow> bool" where
  "registered services \<longleftrightarrow> gomap_ok services \<and> (\<forall>(k, s) \<in> set services. msName s = k)"

lemma registered_iff:
  "registered services \<longleftrightarrow> gomap_ok services \<and> (\<forall>k s. map_of services k = Some s \<longrightarrow> msName s = k)"
  by (auto simp: registered_def gomap_ok_def)

lemma registered_Nil [simp]: "registered []"
  by (simp add: registered_def gomap_ok_def)

lemma registered_Add: "registered (mgServices m) \<Longrightarrow> registered (mgServices (Add m ss))"
proof -
  have "registered services \<Longrightarrow> registered (fold (\<lambda>s. AList.update (msName s) s) ss services)" for services
  proof (induction ss arbitrary: services)
    case (Cons s ss)
    have "registered (AList.update (msName s) s services)"
      using Cons.prems by (simp add: registered_iff gomap_simps)
    from Cons.IH [OF this] show ?case by simp
  qed simp
  then show "registered (mgServices m) \<Longrightarrow> registered (mgServices (Add m ss))" by (simp add: Add_def)
qed

lemma registered_instantiate:
  "registered (mgServices m) \<Longrightarrow> registered (mgServices (fst (instantiateLoop enabled everything fs m)))"
proof (induction enabled everything fs m rule: instantiateLoop.induct)
  case (2 enabled everything name factory rest m)
  show ?case
  proof (cases "\<not> everything \<and> name \<notin> set enabled")
    case True with 2 show ?thesis by simp
  next
    case False
    then show ?thesis using "2.IH"(2) [OF False] registered_Add [OF "2.prems"] "2.prems"
      by (cases factory) auto
  qed
qed simp

lemma registered_instantiateAll:
  "registered (mgServices m) \<Longrightarrow> registered (mgServices (fst (instantiateAllContext cfg m)))"
  by (auto simp: instantiateAllContext_def registered_instantiate split: sum.splits)

definition cyclic :: "serviceMap \<Rightarrow> bool" where
  "cyclic services \<longleftrightarrow>
     (\<exists>C. C \<noteq> {} \<and> C \<subseteq> snd ` set services \<and> (\<forall>s \<in> C. \<exists>d \<in> C. msName d \<in> set (present services s)))"

lemma needs_registered: "registered services \<Longrightarrow> s \<in> snd ` set services \<Longrightarrow> needs services (msName s) = present services s"
proof -
  assume reg: "registered services" and "s \<in> snd ` set services"
  then obtain k where k: "(k, s) \<in> set services" by force
  then have "map_of services (msName s) = Some s" using reg by (auto simp: registered_def gomap_ok_def)
  then show ?thesis by (simp add: needs_def)
qed

lemma resolveOrder_fails_iff:
  assumes reg: "registered services"
  shows "resolveOrder services = Inl e \<longleftrightarrow> e = ErrCyclicDependency \<and> cyclic services"
proof -
  have name: "fst kv = msName (snd kv)" if "kv \<in> set services" for kv
    using reg that by (auto simp: registered_def)
  have "(\<exists>C. C \<noteq> {} \<and> C \<subseteq> fst ` set services \<and> (\<forall>x \<in> C. \<exists>d \<in> set (needs services x). d \<in> C)) \<longleftrightarrow> cyclic services"
    (is "?L \<longleftrightarrow> _")
  proof
    assume ?L
    then obtain C where C: "C \<noteq> {}" "C \<subseteq> fst ` set services" "\<forall>x \<in> C. \<exists>d \<in> set (needs services x). d \<in> C" by blast
    let ?D = "{s \<in> snd ` set services. msName s \<in> C}"
    have named: "x \<in> C \<Longrightarrow> \<exists>s. s \<in> ?D \<and> msName s = x" for x
      using C(2) name by fastforce
    have "\<exists>d. d \<in> ?D \<and> msName d \<in> set (present services s)" if "s \<in> ?D" for s
    proof -
      have "msName s \<in> C" "needs services (msName s) = present services s" using that needs_registered [OF reg] by auto
      then obtain x where x: "x \<in> set (present services s)" "x \<in> C" using C(3) by metis
      from named [OF this(2)] x(1) show ?thesis by metis
    qed
    moreover have "?D \<noteq> {}" using C(1) named by blast
    ultimately show "cyclic services" unfolding cyclic_def by (intro exI [of _ ?D]) blast
  next
    assume "cyclic services"
    then obtain D where D: "D \<noteq> {}" "D \<subseteq> snd ` set services"
      "\<forall>s \<in> D. \<exists>d \<in> D. msName d \<in> set (present services s)" unfolding cyclic_def by blast
    have "\<forall>x \<in> msName ` D. \<exists>d \<in> set (needs services x). d \<in> msName ` D"
      using D(2, 3) needs_registered [OF reg] by (simp add: subset_iff) blast
    moreover have "msName s \<in> fst ` set services" if "s \<in> D" for s
    proof -
      obtain kv where "kv \<in> set services" "snd kv = s" using D(2) \<open>s \<in> D\<close> by auto
      then show ?thesis using name [of kv] by force
    qed
    ultimately show ?L using D(1) by (intro exI [of _ "msName ` D"]) blast
  qed
  then show ?thesis
    using built.sort_fails_iff [of services e] reg
    by (cases "buildDepGraphContext services") (simp add: resolveOrder_def resolveOrderContext_def registered_def)
qed

text \<open>A start order: every service once, after the dependencies that are in the process.\<close>

definition start_order :: "serviceMap \<Rightarrow> managedService list list \<Rightarrow> bool" where
  "start_order services groups \<longleftrightarrow>
     distinct (map msName (concat groups)) \<and> set (concat groups) = snd ` set services \<and>
     (\<forall>i < length groups. \<forall>s \<in> set (groups ! i). \<forall>d \<in> set (present services s).
        \<exists>j < i. d \<in> msName ` set (groups ! j))"

lemma resolveOrder_start_order:
  assumes reg: "registered services" and r: "resolveOrder services = Inr groups"
  shows "start_order services groups"
proof -
  have ok: "gomap_ok services" using reg by (simp add: registered_def)
  have "topoSort services (fst (buildDepGraphContext services)) (snd (buildDepGraphContext services)) = Inr groups"
    using r by (simp add: resolveOrder_def resolveOrderContext_def split: prod.splits)
  then obtain names where names: "groups = map (map (\<lambda>name. the (map_of services name))) names"
    and dist: "distinct (concat names)" and cover: "set (concat names) = fst ` set services"
    and ord: "ordered (needs services) names"
    using built.sort_sound [OF ok] by blast
  have name: "msName (the (map_of services x)) = x" if x: "x \<in> set (concat names)" for x
  proof -
    obtain s where "map_of services x = Some s" using x cover map_of_key_ex [of x services] by auto
    then show ?thesis using reg by (simp add: registered_iff)
  qed
  then have as_names: "map (map msName) groups = names"
    unfolding names by (auto simp: map_idI comp_def intro!: map_idI)
  have all: "set (concat groups) = snd ` set services"
  proof -
    have "set (concat groups) = (\<lambda>x. the (map_of services x)) ` fst ` set services"
      unfolding names cover [symmetric] by auto
    also have "\<dots> = snd ` set services" using ok by (force simp: gomap_ok_def image_image)
    finally show ?thesis .
  qed
  moreover have "map msName (concat groups) = concat names" unfolding map_concat as_names ..
  moreover have "\<exists>j < i. d \<in> msName ` set (groups ! j)"
    if i: "i < length groups" and s: "s \<in> set (groups ! i)" and d: "d \<in> set (present services s)" for i s d
  proof -
    have nth: "names ! j = map msName (groups ! j)" if "j < length groups" for j
      using that by (simp flip: as_names)
    have len: "length groups = length names" by (simp add: names)
    have "s \<in> set (concat groups)" using i s unfolding in_concat_nth by blast
    then have "d \<in> set (needs services (msName s))" using d needs_registered [OF reg, of s] unfolding all by simp
    moreover have "msName s \<in> set (names ! i)" using nth i s by simp
    ultimately have "d \<in> set (concat (take i names))" using ord i unfolding ordered_def len by blast
    then obtain j where "j < length names" "j < i" "d \<in> set (names ! j)" unfolding in_concat_take by blast
    then show ?thesis using nth len by auto
  qed
  ultimately show ?thesis using dist by (simp add: start_order_def)
qed

end
