(* ===== verification/ServiceRun.thy ===== *)
theory ServiceRun
  imports ServiceManager
begin

text \<open>
  Running and stopping services (\<open>internal/pkg/service-manager/service_manager.go\<close>): the retry
  loop of one service, the report of a failure, the start-up of the groups interleaved with the
  services' own goroutines as a step relation, and the stop sequence. What a service does when
  it runs is not the manager's code: the outcome of each attempt is an argument. The lemmas
  bound the attempts, show which error is kept, and that start-up follows the order.
\<close>

section \<open>One service\<close>

datatype runOutcome = Returned "smError option" | Panicked string

definition safeRun :: "runOutcome \<Rightarrow> smError option" where
  "safeRun r = (case r of Returned e \<Rightarrow> e | Panicked _ \<Rightarrow> Some ErrServicePanic)"

text \<open>
  What the environment does to a service: the outcome of each attempt, whether the context is
  done when that attempt returns, and whether the retry timer fires before the context is done.
\<close>

record serviceWorld =
  swRun :: "nat \<Rightarrow> runOutcome"
  swCancelled :: "nat \<Rightarrow> bool"
  swTimer :: "nat \<Rightarrow> bool"

datatype runEnd = ExitedCleanly | ContextCancelled | Failed "smError option"

definition waitRetryDelay :: "managedService \<Rightarrow> serviceWorld \<Rightarrow> nat \<Rightarrow> bool" where
  "waitRetryDelay s w attempt = (if msRetryDelay s \<le> 0 then True else swTimer w attempt)"

definition maxRetries :: "managedService \<Rightarrow> int" where
  "maxRetries s = (case msMaxRetries s of None \<Rightarrow> 0 | Some n \<Rightarrow> n)"

fun runAttempts :: "managedService \<Rightarrow> serviceWorld \<Rightarrow> nat \<Rightarrow> nat \<Rightarrow> smError option \<Rightarrow> nat \<times> runEnd" where
  "runAttempts s w 0 attempt lastErr = (attempt, Failed lastErr)"
| "runAttempts s w (Suc remaining) attempt lastErr =
     (case safeRun (swRun w attempt) of
        None \<Rightarrow> (Suc attempt, ExitedCleanly)
      | Some e \<Rightarrow>
          if swCancelled w attempt then (Suc attempt, ContextCancelled)
          else if maxRetries s \<le> int attempt then (Suc attempt, Failed (Some e))
          else if \<not> waitRetryDelay s w attempt then (Suc attempt, ContextCancelled)
          else runAttempts s w remaining (Suc attempt) (Some e))"

text \<open>The number of attempts made and how the service ended; \<open>Failed\<close> is what is reported.\<close>

definition runService :: "managedService \<Rightarrow> serviceWorld \<Rightarrow> nat \<times> runEnd" where
  "runService s w = runAttempts s w (nat (wrap64 (maxRetries s + 1))) 0 None"

text \<open>
  The error channel has room for one value and a send that finds it full is dropped. The report
  of a failure sends first and then closes the failure signal; other goroutines may run between.
\<close>

definition allowedFailure :: "managedService \<Rightarrow> bool" where
  "allowedFailure s \<longleftrightarrow> msAllowedFailure s = Some True"

definition sendError :: "smError option \<Rightarrow> smError option option \<Rightarrow> smError option option" where
  "sendError err errCh = (case errCh of None \<Rightarrow> Some err | Some e \<Rightarrow> Some e)"

definition handleServiceError ::
  "managedService \<Rightarrow> smError option \<Rightarrow> smError option option \<times> bool \<Rightarrow> smError option option \<times> bool" where
  "handleServiceError s err = (\<lambda>(errCh, failed).
     if allowedFailure s then (errCh, failed) else (sendError err errCh, True))"

definition persistent :: "serviceWorld \<Rightarrow> nat \<Rightarrow> bool" where
  "persistent w i \<longleftrightarrow> safeRun (swRun w i) \<noteq> None \<and> \<not> swCancelled w i"

lemma runAttempts_ends:
  assumes "runAttempts s w k a l = (n, r)" and "int (a + k) = maxRetries s + 1" and "0 < k"
  shows "n \<le> a + k \<and> a < n \<and> (\<forall>i \<in> {a..<n - 1}. persistent w i \<and> waitRetryDelay s w i) \<and>
    (case r of
       ExitedCleanly \<Rightarrow> safeRun (swRun w (n - 1)) = None
     | ContextCancelled \<Rightarrow> safeRun (swRun w (n - 1)) \<noteq> None \<and> (swCancelled w (n - 1) \<or> \<not> waitRetryDelay s w (n - 1))
     | Failed e \<Rightarrow> n = a + k \<and> persistent w (n - 1) \<and> e = safeRun (swRun w (n - 1)))"
  using assms
proof (induction s w k a l rule: runAttempts.induct)
  case (2 s w k a l)
  consider (clean) "safeRun (swRun w a) = None"
    | (gone) e where "safeRun (swRun w a) = Some e" "swCancelled w a"
    | (last) e where "safeRun (swRun w a) = Some e" "\<not> swCancelled w a" "maxRetries s \<le> int a"
    | (late) e where "safeRun (swRun w a) = Some e" "\<not> swCancelled w a" "\<not> maxRetries s \<le> int a" "\<not> waitRetryDelay s w a"
    | (again) e where "safeRun (swRun w a) = Some e" "\<not> swCancelled w a" "\<not> maxRetries s \<le> int a" "waitRetryDelay s w a"
    by fastforce
  then show ?case
  proof cases
    case again
    have "\<not> \<not> waitRetryDelay s w a" "runAttempts s w k (Suc a) (Some e) = (n, r)" "int (Suc a + k) = maxRetries s + 1" "0 < k"
      using again "2.prems" by auto
    note IH = "2.IH" [OF again(1-3) this]
    have "{a..<n - 1} \<subseteq> insert a {Suc a..<n - 1}" by auto
    with IH again show ?thesis by (cases r) (auto simp: persistent_def)
  qed (use "2.prems" in \<open>auto simp: persistent_def\<close>)
qed simp

section \<open>Start-up\<close>

text \<open>
  The part of \<open>Run\<close> before the groups start: the services of the process, or the error that
  ends the run at once.
\<close>

definition Run :: "string list option \<Rightarrow> manager \<Rightarrow> manager \<times> (smError + managedService list list)" where
  "Run cfg m =
     (case instantiateAllContext cfg m of
        (m', Some e) \<Rightarrow> (m', Inl e)
      | (m', None) \<Rightarrow>
          if length (mgServices m') = 0 then (m', Inl ErrNoEnabledServices)
          else (m', resolveOrderContext (mgServices m')))"

text \<open>
  The state of one \<open>Run\<close>: the loop variable of \<open>runServiceGroups\<close>, the position in the loop that
  launches the group's goroutines once the failure signal was found unset, the position in
  \<open>waitGroupReady\<close> while it waits, the goroutines launched, which services have signalled ready
  and which goroutines have ended, the failures sent but not yet signalled, the error channel,
  the failure signal, the context, what the final select of \<open>Run\<close> received, the recorded start
  groups and the groups stopped so far.
\<close>

datatype runPhase = Idle | Starting | Started

datatype runReturn = RunDone | RunFailed "smError option"

record startup =
  suPhase :: runPhase
  suNext :: nat
  suSpawn :: "nat option"
  suWait :: "nat option"
  suLaunched :: "managedService list"
  suReady :: "string list"
  suExited :: "string list"
  suSent :: "string list"
  suErrCh :: "smError option option"
  suFailed :: bool
  suCancelled :: bool
  suReturned :: "runReturn option"
  suStarted :: "managedService list list"
  suStopped :: "managedService list list option"

definition idle :: startup where
  "idle = \<lparr>suPhase = Idle, suNext = 0, suSpawn = None, suWait = None, suLaunched = [], suReady = [], suExited = [], suSent = [],
     suErrCh = None, suFailed = False, suCancelled = False, suReturned = None, suStarted = [], suStopped = None\<rparr>"

text \<open>The wait for one service of the group is over: it does not notify, or it is ready or gone.\<close>

definition settled :: "startup \<Rightarrow> managedService \<Rightarrow> bool" where
  "settled s svc \<longleftrightarrow> msNotifiesReady svc \<longrightarrow> msName svc \<in> set (suReady s) \<or> msName svc \<in> set (suExited s)"

definition recordGroup :: "managedService list list \<Rightarrow> startup \<Rightarrow> startup" where
  "recordGroup groups s = s\<lparr>suWait := None, suNext := Suc (suNext s), suStarted := suStarted s @ [groups ! suNext s]\<rparr>"

definition Stop :: "startup \<Rightarrow> startup" where
  "Stop s = (case suStopped s of
       None \<Rightarrow> s\<lparr>suCancelled := True, suStopped := Some (rev (suStarted s))\<rparr>
     | Some _ \<Rightarrow> s\<lparr>suCancelled := True\<rparr>)"

text \<open>
  The steps of the start-up loop, of the services' goroutines and of the callers. The failure signal
  is looked at once per group; the goroutines of the group are then launched one by one, with the
  other goroutines running in between. The lock on the start groups is held while the loop runs, so a
  stop takes effect before it starts or after it returned; its cancellation of the context comes
  first and is the separate step \<open>Cancel\<close>. The select at the end of \<open>Run\<close> takes a done context or the
  error out of the channel, whichever it finds; when both are there it may take either.
\<close>

inductive start_step :: "managedService list list \<Rightarrow> startup \<Rightarrow> startup \<Rightarrow> bool" for groups where
  Begin: "suPhase s = Idle \<Longrightarrow> start_step groups s (s\<lparr>suPhase := Starting\<rparr>)"
| NextGroup: "suPhase s = Starting \<Longrightarrow> suSpawn s = None \<Longrightarrow> suWait s = None \<Longrightarrow> suNext s < length groups \<Longrightarrow>
    \<not> suFailed s \<Longrightarrow> start_step groups s (s\<lparr>suSpawn := Some 0\<rparr>)"
| Abandon: "suPhase s = Starting \<Longrightarrow> suSpawn s = None \<Longrightarrow> suWait s = None \<Longrightarrow> suNext s < length groups \<Longrightarrow>
    suFailed s \<Longrightarrow> start_step groups s (s\<lparr>suPhase := Started\<rparr>)"
| AllStarted: "suPhase s = Starting \<Longrightarrow> suSpawn s = None \<Longrightarrow> suWait s = None \<Longrightarrow> length groups \<le> suNext s \<Longrightarrow>
    start_step groups s (s\<lparr>suPhase := Started\<rparr>)"
| Launch: "suPhase s = Starting \<Longrightarrow> suSpawn s = Some k \<Longrightarrow> k < length (groups ! suNext s) \<Longrightarrow>
    start_step groups s (s\<lparr>suLaunched := suLaunched s @ [groups ! suNext s ! k], suSpawn := Some (Suc k)\<rparr>)"
| GroupLaunched: "suPhase s = Starting \<Longrightarrow> suSpawn s = Some k \<Longrightarrow> length (groups ! suNext s) \<le> k \<Longrightarrow>
    start_step groups s (s\<lparr>suSpawn := None, suWait := Some 0\<rparr>)"
| Settled: "suPhase s = Starting \<Longrightarrow> suWait s = Some k \<Longrightarrow> k < length (groups ! suNext s) \<Longrightarrow>
    settled s (groups ! suNext s ! k) \<Longrightarrow> start_step groups s (s\<lparr>suWait := Some (Suc k)\<rparr>)"
| StopWaiting: "suPhase s = Starting \<Longrightarrow> suWait s = Some k \<Longrightarrow> k < length (groups ! suNext s) \<Longrightarrow>
    msNotifiesReady (groups ! suNext s ! k) \<Longrightarrow> suFailed s \<or> suCancelled s \<Longrightarrow>
    start_step groups s (recordGroup groups s)"
| GroupReady: "suPhase s = Starting \<Longrightarrow> suWait s = Some k \<Longrightarrow> length (groups ! suNext s) \<le> k \<Longrightarrow>
    start_step groups s (recordGroup groups s)"
| SignalReady: "svc \<in> set (suLaunched s) \<Longrightarrow> msNotifiesReady svc \<Longrightarrow>
    start_step groups s (s\<lparr>suReady := msName svc # suReady s\<rparr>)"
| Exit: "svc \<in> set (suLaunched s) \<Longrightarrow> msName svc \<notin> set (suExited s) \<Longrightarrow> msName svc \<notin> set (suSent s) \<Longrightarrow>
    runService svc w = (n, r) \<Longrightarrow> r = ContextCancelled \<longrightarrow> suCancelled s \<Longrightarrow>
    (\<And>e. r = Failed e \<Longrightarrow> allowedFailure svc) \<Longrightarrow>
    start_step groups s (s\<lparr>suExited := msName svc # suExited s\<rparr>)"
| Report: "svc \<in> set (suLaunched s) \<Longrightarrow> msName svc \<notin> set (suExited s) \<Longrightarrow> msName svc \<notin> set (suSent s) \<Longrightarrow>
    runService svc w = (n, Failed e) \<Longrightarrow> \<not> allowedFailure svc \<Longrightarrow>
    start_step groups s (s\<lparr>suErrCh := sendError e (suErrCh s), suSent := msName svc # suSent s\<rparr>)"
| Trigger: "name \<in> set (suSent s) \<Longrightarrow> name \<notin> set (suExited s) \<Longrightarrow>
    start_step groups s (s\<lparr>suFailed := True, suExited := name # suExited s\<rparr>)"
| Cancel: "start_step groups s (s\<lparr>suCancelled := True\<rparr>)"
| ContextDone: "suPhase s = Started \<Longrightarrow> suReturned s = None \<Longrightarrow> suCancelled s \<Longrightarrow>
    start_step groups s (s\<lparr>suReturned := Some RunDone\<rparr>)"
| ReceiveError: "suPhase s = Started \<Longrightarrow> suReturned s = None \<Longrightarrow> suErrCh s = Some e \<Longrightarrow>
    start_step groups s (s\<lparr>suErrCh := None, suReturned := Some (RunFailed e)\<rparr>)"
| StopServices: "suPhase s \<noteq> Starting \<Longrightarrow> start_step groups s (Stop s)"

inductive start_run :: "managedService list list \<Rightarrow> startup \<Rightarrow> startup \<Rightarrow> bool" for groups where
  Refl: "start_run groups s s"
| Step: "start_run groups s s' \<Longrightarrow> start_step groups s' s'' \<Longrightarrow> start_run groups s s''"

section \<open>What every start-up keeps\<close>

text \<open>How many groups the loop has decided to start, and how much of the last one has been launched.\<close>

definition launchedGroups :: "startup \<Rightarrow> nat" where
  "launchedGroups s = (if suSpawn s = None \<and> suWait s = None then suNext s else Suc (suNext s))"

definition launchedNow :: "managedService list list \<Rightarrow> startup \<Rightarrow> managedService list" where
  "launchedNow groups s = (case suSpawn s of
       Some k \<Rightarrow> take k (groups ! suNext s)
     | None \<Rightarrow> (case suWait s of None \<Rightarrow> [] | Some _ \<Rightarrow> groups ! suNext s))"

definition start_ok :: "managedService list list \<Rightarrow> startup \<Rightarrow> bool" where
  "start_ok groups s \<longleftrightarrow>
     launchedGroups s \<le> length groups \<and>
     suLaunched s = concat (take (suNext s) groups) @ launchedNow groups s \<and>
     suStarted s = take (suNext s) groups \<and>
     (suPhase s = Idle \<longrightarrow> suNext s = 0) \<and> (suPhase s \<noteq> Starting \<longrightarrow> suSpawn s = None \<and> suWait s = None) \<and>
     (suSpawn s \<noteq> None \<longrightarrow> suWait s = None) \<and>
     (suPhase s \<noteq> Started \<longrightarrow> suReturned s = None) \<and>
     (suFailed s \<or> suSent s \<noteq> [] \<longrightarrow> suReturned s = None \<longrightarrow> suErrCh s \<noteq> None) \<and>
     (\<forall>i < suNext s. \<forall>svc \<in> set (groups ! i). settled s svc \<or> suCancelled s \<or> suFailed s) \<and>
     (\<forall>i. Suc i < launchedGroups s \<longrightarrow> (\<forall>svc \<in> set (groups ! i). settled s svc \<or> suCancelled s)) \<and>
     (\<forall>k. suSpawn s = Some k \<longrightarrow> k \<le> length (groups ! suNext s)) \<and>
     (\<forall>k. suWait s = Some k \<longrightarrow> k \<le> length (groups ! suNext s) \<and> (\<forall>j < k. settled s (groups ! suNext s ! j)))"

lemma start_ok_idle: "start_ok groups idle"
  by (simp add: start_ok_def idle_def launchedGroups_def launchedNow_def)

text \<open>A step of a goroutine or a caller leaves the loop alone and only adds to what has happened.\<close>

definition only_adds :: "startup \<Rightarrow> startup \<Rightarrow> bool" where
  "only_adds s s' \<longleftrightarrow>
     suNext s' = suNext s \<and> suSpawn s' = suSpawn s \<and> suWait s' = suWait s \<and> suLaunched s' = suLaunched s \<and> suStarted s' = suStarted s \<and>
     set (suReady s) \<subseteq> set (suReady s') \<and> set (suExited s) \<subseteq> set (suExited s') \<and>
     (suFailed s \<longrightarrow> suFailed s') \<and> (suCancelled s \<longrightarrow> suCancelled s')"

lemma settled_mono: "only_adds s s' \<Longrightarrow> settled s svc \<Longrightarrow> settled s' svc"
  by (auto simp: only_adds_def settled_def)

lemma start_ok_adds:
  assumes ok: "start_ok groups s" and adds: "only_adds s s'"
    and phase: "suPhase s' = Idle \<longrightarrow> suPhase s = Idle"
      "suPhase s' \<noteq> Starting \<longrightarrow> suSpawn s = None \<and> suWait s = None" "suPhase s' \<noteq> Started \<longrightarrow> suReturned s' = None"
    and err: "suFailed s' \<or> suSent s' \<noteq> [] \<longrightarrow> suReturned s' = None \<longrightarrow> suErrCh s' \<noteq> None"
  shows "start_ok groups s'"
proof -
  have same: "launchedGroups s' = launchedGroups s" "launchedNow groups s' = launchedNow groups s"
    "suNext s' = suNext s" "suSpawn s' = suSpawn s" "suWait s' = suWait s"
    "suLaunched s' = suLaunched s" "suStarted s' = suStarted s"
    using adds by (simp_all add: only_adds_def launchedGroups_def launchedNow_def split: option.split)
  have more: "suFailed s \<Longrightarrow> suFailed s'" "suCancelled s \<Longrightarrow> suCancelled s'" using adds by (auto simp: only_adds_def)
  have kept: "\<forall>i < suNext s. \<forall>svc \<in> set (groups ! i). settled s' svc \<or> suCancelled s' \<or> suFailed s'"
    "\<forall>i. Suc i < launchedGroups s \<longrightarrow> (\<forall>svc \<in> set (groups ! i). settled s' svc \<or> suCancelled s')"
    "\<forall>k. suWait s = Some k \<longrightarrow> k \<le> length (groups ! suNext s) \<and> (\<forall>j < k. settled s' (groups ! suNext s ! j))"
    using ok settled_mono [OF adds] more unfolding start_ok_def by blast+
  have "suPhase s' = Idle \<longrightarrow> suNext s = 0" using ok phase(1) by (simp add: start_ok_def)
  with ok phase(2, 3) err kept show ?thesis unfolding start_ok_def same by (elim conjE, intro conjI)
qed

lemma start_ok_record:
  assumes ok: "start_ok groups s" and w: "suWait s = Some k"
    and over: "length (groups ! suNext s) \<le> k \<or> suFailed s \<or> suCancelled s" and phase: "suPhase s = Starting"
  shows "start_ok groups (recordGroup groups s)"
proof -
  let ?s = "recordGroup groups s"
  have spawn: "suSpawn s = None" using ok w by (auto simp: start_ok_def)
  have same: "suPhase ?s = Starting" "suNext ?s = Suc (suNext s)" "suSpawn ?s = None" "suWait ?s = None"
    "suFailed ?s = suFailed s" "suCancelled ?s = suCancelled s" "suErrCh ?s = suErrCh s" "suSent ?s = suSent s"
    "suReturned ?s = suReturned s" "suLaunched ?s = suLaunched s" "suStarted ?s = suStarted s @ [groups ! suNext s]"
    "launchedGroups ?s = launchedGroups s" "launchedNow groups ?s = []" "settled ?s = settled s"
    by (auto simp: recordGroup_def phase launchedGroups_def launchedNow_def w spawn settled_def)
  have n: "suNext s < length groups" using ok w by (simp add: start_ok_def launchedGroups_def)
  have now: "launchedNow groups s = groups ! suNext s" by (simp add: launchedNow_def spawn w)
  have "settled s svc \<or> suCancelled s \<or> suFailed s" if "i < Suc (suNext s)" "svc \<in> set (groups ! i)" for i svc
  proof (cases "i = suNext s")
    case True
    then show ?thesis using ok w over that by (auto simp: start_ok_def in_set_conv_nth)
  next
    case False
    then show ?thesis using ok that unfolding start_ok_def by (metis less_antisym)
  qed
  then show ?thesis using ok n phase unfolding start_ok_def same now by (auto simp: take_Suc_conv_app_nth)
qed

lemma start_ok_step:
  assumes "start_step groups s s'" and ok: "start_ok groups s"
  shows "start_ok groups s'"
proof -
  have facts: "suFailed s \<or> suSent s \<noteq> [] \<longrightarrow> suReturned s = None \<longrightarrow> suErrCh s \<noteq> None"
    "suPhase s \<noteq> Starting \<longrightarrow> suSpawn s = None \<and> suWait s = None" "suPhase s \<noteq> Started \<longrightarrow> suReturned s = None"
    using ok by (simp_all add: start_ok_def)
  show ?thesis
    using assms(1)
  proof cases
    case NextGroup
    have "Suc i < Suc (suNext s) \<Longrightarrow> svc \<in> set (groups ! i) \<Longrightarrow> settled s svc \<or> suCancelled s" for i svc
      using ok NextGroup by (auto simp: start_ok_def)
    then show ?thesis using ok NextGroup by (auto simp: start_ok_def launchedGroups_def launchedNow_def settled_def)
  next
    case (Launch k)
    then show ?thesis using ok
      by (auto simp: start_ok_def launchedGroups_def launchedNow_def settled_def take_Suc_conv_app_nth)
  next
    case (GroupLaunched k)
    then show ?thesis using ok by (auto simp: start_ok_def launchedGroups_def launchedNow_def settled_def)
  next
    case (Settled k)
    moreover from this ok have "suSpawn s = None" by (auto simp: start_ok_def)
    ultimately show ?thesis using ok
      by (auto simp: start_ok_def launchedGroups_def launchedNow_def settled_def less_Suc_eq)
  next
    case (StopWaiting k)
    then show ?thesis using start_ok_record [OF ok] by blast
  next
    case (GroupReady k)
    then show ?thesis using start_ok_record [OF ok] by blast
  next
    case StopServices
    have "only_adds s (Stop s)" "suPhase (Stop s) = suPhase s" "suFailed (Stop s) = suFailed s"
      "suSent (Stop s) = suSent s" "suErrCh (Stop s) = suErrCh s" "suReturned (Stop s) = suReturned s"
      by (auto simp: only_adds_def Stop_def split: option.splits)
    then show ?thesis unfolding StopServices(1) by (intro start_ok_adds [OF ok]) (simp_all add: facts StopServices)
  qed (simp; rule start_ok_adds [OF ok]; use facts in \<open>auto simp: only_adds_def sendError_def split: option.splits\<close>)+
qed

lemma start_ok_run: "start_run groups s s' \<Longrightarrow> start_ok groups s \<Longrightarrow> start_ok groups s'"
  by (induction rule: start_run.induct) (auto intro: start_ok_step)

lemmas reached_ok = start_ok_run [OF _ start_ok_idle]

section \<open>What start-up and stopping guarantee\<close>

lemma Run_order:
  assumes "registered (mgServices m)" and "Run cfg m = (m', Inr groups)"
  shows "registered (mgServices m') \<and> start_order (mgServices m') groups"
proof -
  obtain m1 e where i: "instantiateAllContext cfg m = (m1, e)" by fastforce
  have reg: "registered (mgServices m1)" using registered_instantiateAll [OF assms(1), of cfg] i by simp
  have "m' = m1" "resolveOrder (mgServices m1) = Inr groups"
    using assms(2) i by (auto simp: Run_def resolveOrder_def split: option.splits if_splits)
  then show ?thesis using reg resolveOrder_start_order by simp
qed

lemma Run_fails:
  assumes "registered (mgServices m)" and "instantiateAllContext cfg m = (m1, None)"
  shows "Run cfg m = (m1, Inl e) \<longleftrightarrow>
    (if mgServices m1 = [] then e = ErrNoEnabledServices else e = ErrCyclicDependency \<and> cyclic (mgServices m1))"
proof -
  have "registered (mgServices m1)" using registered_instantiateAll [OF assms(1), of cfg] assms(2) by simp
  then show ?thesis using resolveOrder_fails_iff [of "mgServices m1" e] assms(2)
    by (auto simp: Run_def resolveOrder_def)
qed

lemma launched_in_groups:
  assumes ok: "start_ok groups s" and x: "x \<in> set (suLaunched s)"
  obtains i where "i < length groups" "i < launchedGroups s" "x \<in> set (groups ! i)"
proof (cases "x \<in> set (launchedNow groups s)")
  case True
  moreover from this have "launchedGroups s = Suc (suNext s)"
    by (cases "suSpawn s"; cases "suWait s") (simp_all add: launchedNow_def launchedGroups_def)
  ultimately show ?thesis using ok
    by (intro that [of "suNext s"]) (auto simp: launchedNow_def start_ok_def split: option.splits dest: in_set_takeD)
next
  case False
  with x ok have "x \<in> set (concat (take (suNext s) groups))" by (auto simp: start_ok_def)
  then show ?thesis using that unfolding in_concat_take by (auto simp: launchedGroups_def split: if_splits intro: less_SucI)
qed

lemma launched_before:
  assumes "start_ok groups s" and "j < suNext s" and "j < length groups"
  shows "set (groups ! j) \<subseteq> set (suLaunched s)"
  using assms in_concat_take [of _ "suNext s" groups] by (auto simp: start_ok_def)

lemma launched_after_dependencies:
  assumes run: "start_run groups idle s" and ord: "start_order services groups"
    and x: "x \<in> set (suLaunched s)" and d: "d \<in> set (present services x)"
  shows "\<exists>y \<in> set (suLaunched s). msName y = d \<and> (settled s y \<or> suCancelled s)"
proof -
  note ok = reached_ok [OF run]
  obtain i where i: "i < length groups" "i < launchedGroups s" "x \<in> set (groups ! i)"
    using launched_in_groups [OF ok x] .
  obtain j where j: "j < i" "d \<in> msName ` set (groups ! j)" using ord i(1, 3) d unfolding start_order_def by blast
  then obtain y where y: "y \<in> set (groups ! j)" "msName y = d" by blast
  have "j < suNext s" using i(2) j(1) by (simp add: launchedGroups_def split: if_splits)
  then have "y \<in> set (suLaunched s)" using y i j launched_before [OF ok, of j] by (meson less_trans subsetD)
  moreover have "settled s y \<or> suCancelled s" using ok y i j unfolding start_ok_def by (meson Suc_leI le_less_trans)
  ultimately show ?thesis using y by blast
qed

text \<open>
  After a failure is signalled the loop decides to start no further group: what is still launched
  belongs to the group whose launch had begun.
\<close>

lemma failed_step:
  assumes "start_step groups s s'" and "suFailed s" and ok: "start_ok groups s"
  shows "suFailed s' \<and> (\<exists>more. suLaunched s' = suLaunched s @ more) \<and> launchedGroups s' = launchedGroups s \<and>
    (suSpawn s = None \<longrightarrow> suSpawn s' = None \<and> suLaunched s' = suLaunched s)"
  using assms
  by (cases rule: start_step.cases)
    (auto simp: recordGroup_def Stop_def launchedGroups_def start_ok_def split: option.splits)

lemma failed_run:
  assumes "start_run groups s s'" and "suFailed s" and "start_ok groups s"
  shows "suFailed s' \<and> (\<exists>more. suLaunched s' = suLaunched s @ more) \<and> launchedGroups s' = launchedGroups s \<and>
    (suSpawn s = None \<longrightarrow> suSpawn s' = None \<and> suLaunched s' = suLaunched s)"
  using assms
proof (induction rule: start_run.induct)
  case (Step s s' s'')
  from failed_step [OF Step.hyps(2)] start_ok_run [OF Step.hyps(1)] Step show ?case by fastforce
qed simp

lemma launched_prefix:
  assumes "start_ok groups s"
  shows "\<exists>rest. suLaunched s @ rest = concat (take (launchedGroups s) groups)"
proof -
  obtain rest where rest: "launchedNow groups s @ rest = (if launchedGroups s = suNext s then [] else groups ! suNext s)"
  proof (cases "suSpawn s")
    case None
    then show ?thesis using that [of "[]"] by (auto simp: launchedNow_def launchedGroups_def split: option.split)
  next
    case (Some k)
    then show ?thesis using that [of "drop k (groups ! suNext s)"] by (simp add: launchedNow_def launchedGroups_def)
  qed
  have "concat (take (launchedGroups s) groups) =
      concat (take (suNext s) groups) @ (if launchedGroups s = suNext s then [] else groups ! suNext s)"
    using assms by (auto simp: start_ok_def launchedGroups_def take_Suc_conv_app_nth split: if_splits)
  then show ?thesis using assms rest by (intro exI [of _ rest]) (simp add: start_ok_def)
qed

text \<open>The error in the channel stays there until \<open>Run\<close> takes it; later failures do not replace it.\<close>

lemma first_error_kept:
  assumes "start_run groups s s'" and "suErrCh s = Some e" and "suReturned s = None"
  shows "suReturned s' = None \<and> suErrCh s' = Some e \<or> suReturned s' \<in> {Some RunDone, Some (RunFailed e)}"
  using assms
proof (induction rule: start_run.induct)
  case (Step s s' s'')
  then show ?case
    by (auto elim!: start_step.cases simp: recordGroup_def Stop_def sendError_def split: option.splits)
qed simp

lemma done_when_cancelled:
  assumes "start_run groups s s'" and "suReturned s = Some RunDone \<longrightarrow> suCancelled s"
  shows "suReturned s' = Some RunDone \<longrightarrow> suCancelled s'"
  using assms
proof (induction rule: start_run.induct)
  case (Step s s' s'')
  then show ?case by (auto elim!: start_step.cases simp: recordGroup_def Stop_def split: option.splits)
qed simp

lemma start_run_trans: "start_run groups s' s'' \<Longrightarrow> start_run groups s s' \<Longrightarrow> start_run groups s s''"
  by (induction rule: start_run.induct) (auto intro: start_run.Step)

lemma idle_quiet: "start_run groups idle s \<Longrightarrow> suPhase s = Idle \<longrightarrow> \<not> suFailed s \<and> suSent s = [] \<and> suLaunched s = []"
proof (induction idle s rule: start_run.induct)
  case Refl
  show ?case by (simp add: idle_def)
next
  case (Step s' s'')
  then show ?case
    by (auto elim!: start_step.cases simp: recordGroup_def Stop_def split: option.splits)
qed

text \<open>Once a failure is signalled or the context is done, the start-up loop can always move on.\<close>

definition work_left :: "managedService list list \<Rightarrow> startup \<Rightarrow> nat \<times> nat" where
  "work_left groups s = (let n = length (groups ! suNext s) in (length groups - suNext s,
     case suWait s of
       Some k \<Rightarrow> n - k
     | None \<Rightarrow> (case suSpawn s of Some k \<Rightarrow> Suc (n + (n - k)) | None \<Rightarrow> Suc (Suc (n + n)))))"

lemma start_advances:
  assumes ok: "start_ok groups s" and phase: "suPhase s = Starting" and awake: "suFailed s \<or> suCancelled s"
  shows "\<exists>s'. start_step groups s s' \<and> (suFailed s' \<or> suCancelled s') \<and>
    (suPhase s' = Started \<or> suPhase s' = Starting \<and> (work_left groups s', work_left groups s) \<in> less_than <*lex*> less_than)"
proof (cases "suWait s")
  case None
  consider "suSpawn s = None" "length groups \<le> suNext s" | "suSpawn s = None" "suNext s < length groups" "suFailed s"
    | "suSpawn s = None" "suNext s < length groups" "\<not> suFailed s"
    | k where "suSpawn s = Some k" "k < length (groups ! suNext s)"
    | k where "suSpawn s = Some k" "length (groups ! suNext s) \<le> k"
    by (cases "suSpawn s") force+
  then show ?thesis
  proof cases
    case 1
    show ?thesis by (rule exI, rule conjI, rule AllStarted [OF phase 1(1) None 1(2)]) (use awake in \<open>auto\<close>)
  next
    case 2
    show ?thesis by (rule exI, rule conjI, rule Abandon [OF phase 2(1) None 2(2, 3)]) (use 2 in \<open>auto\<close>)
  next
    case 3
    show ?thesis by (rule exI, rule conjI, rule NextGroup [OF phase 3(1) None 3(2, 3)])
        (use awake phase None 3(1) in \<open>auto simp: work_left_def Let_def\<close>)
  next
    case (4 k)
    show ?thesis by (rule exI, rule conjI, rule Launch [OF phase 4])
        (use awake phase None 4 in \<open>auto simp: work_left_def Let_def\<close>)
  next
    case (5 k)
    show ?thesis by (rule exI, rule conjI, rule GroupLaunched [OF phase 5])
        (use awake phase None 5 in \<open>auto simp: work_left_def Let_def\<close>)
  qed
next
  case (Some k)
  have n: "suNext s < length groups" using ok Some by (simp add: start_ok_def launchedGroups_def)
  have after: "(work_left groups (recordGroup groups s), work_left groups s) \<in> less_than <*lex*> less_than"
    "suPhase (recordGroup groups s) = Starting" "suFailed (recordGroup groups s) = suFailed s"
    "suCancelled (recordGroup groups s) = suCancelled s"
    using n phase by (auto simp: work_left_def recordGroup_def Let_def)
  consider "length (groups ! suNext s) \<le> k" | "k < length (groups ! suNext s)" "msNotifiesReady (groups ! suNext s ! k)"
    | "k < length (groups ! suNext s)" "\<not> msNotifiesReady (groups ! suNext s ! k)" by linarith
  then show ?thesis
  proof cases
    case 1
    show ?thesis by (rule exI, rule conjI, rule GroupReady [OF phase Some 1]) (use after awake in \<open>auto\<close>)
  next
    case 2
    show ?thesis by (rule exI, rule conjI, rule StopWaiting [OF phase Some 2 awake]) (use after awake in \<open>auto\<close>)
  next
    case 3
    then have free: "settled s (groups ! suNext s ! k)" by (simp add: settled_def)
    show ?thesis by (rule exI, rule conjI, rule Settled [OF phase Some 3(1) free]) (use awake phase Some 3 in \<open>auto simp: work_left_def Let_def\<close>)
  qed
qed

lemma start_returns:
  assumes "start_ok groups s" and "suPhase s = Starting" and "suFailed s \<or> suCancelled s"
  shows "\<exists>s'. start_run groups s s' \<and> suPhase s' = Started"
proof -
  have "wf (less_than <*lex*> less_than)" by (intro wf_lex_prod wf_less_than)
  then show ?thesis using assms
  proof (induction "work_left groups s" arbitrary: s rule: wf_induct_rule)
    case less
    obtain s' where s': "start_step groups s s'" "suFailed s' \<or> suCancelled s'"
      "suPhase s' = Started \<or> suPhase s' = Starting \<and> (work_left groups s', work_left groups s) \<in> less_than <*lex*> less_than"
      using start_advances [OF less.prems] by blast
    have one: "start_run groups s s'" by (rule start_run.Step [OF Refl s'(1)])
    show ?case
    proof (cases "suPhase s' = Started")
      case True with one show ?thesis by blast
    next
      case False
      then have "\<exists>s''. start_run groups s' s'' \<and> suPhase s'' = Started"
        using less.hyps [of s'] s' start_ok_step [OF s'(1) less.prems(1)] by blast
      then show ?thesis using start_run_trans [OF _ one] by blast
    qed
  qed
qed

text \<open>Once start-up has returned with a failure signalled, the final select finds something to return.\<close>

lemma run_returns:
  assumes run: "start_run groups idle s" and failed: "suFailed s" and open': "suReturned s = None"
  shows "\<exists>s'. start_run groups s s' \<and> suReturned s' \<noteq> None"
proof -
  have ok: "start_ok groups s" by (rule reached_ok [OF run])
  have "suPhase s \<noteq> Idle"
    using idle_quiet [OF run] failed by blast
  then consider "suPhase s = Starting" | "suPhase s = Started" by (cases "suPhase s") auto
  then obtain s1 where s1: "start_run groups s s1" "suPhase s1 = Started"
    using start_returns [OF ok] failed by cases (blast, blast intro: Refl)
  show ?thesis
  proof (cases "suReturned s1")
    case None
    have "suFailed s1" using failed_run [OF s1(1) failed ok] by blast
    then obtain e where "suErrCh s1 = Some e" using start_ok_run [OF s1(1) ok] None by (auto simp: start_ok_def)
    from ReceiveError [OF s1(2) None this, of groups] s1(1) show ?thesis
      by (intro exI conjI) (erule start_run.Step, assumption, simp)
  qed (use s1 in blast)
qed

text \<open>Stopping takes the recorded groups last to first, so a service goes before what it needs.\<close>

lemma stop_reverses:
  assumes run: "start_run groups idle s" and ord: "start_order services groups"
    and phase: "suPhase s = Started" and new: "suStopped s = None"
  shows "\<exists>gs. suStopped (Stop s) = Some gs \<and> set (concat gs) = set (suLaunched s) \<and>
    (\<forall>i < length gs. \<forall>x \<in> set (gs ! i). \<forall>d \<in> set (present services x).
       \<exists>j < length gs. i < j \<and> d \<in> msName ` set (gs ! j))"
proof -
  have ok: "start_ok groups s" by (rule reached_ok [OF run])
  define n where "n = suNext s"
  have "suWait s = None" "suSpawn s = None" using ok phase by (simp_all add: start_ok_def)
  then have n: "n \<le> length groups" "suStarted s = take n groups" "suLaunched s = concat (take n groups)"
    using ok by (auto simp: start_ok_def launchedGroups_def launchedNow_def n_def)
  let ?gs = "rev (take n groups)"
  have len: "length ?gs = n" using n(1) by simp
  have nth: "?gs ! i = groups ! (n - Suc i)" if "i < n" for i using that n(1) by (simp add: rev_nth)
  have "\<exists>j < length ?gs. i < j \<and> d \<in> msName ` set (?gs ! j)"
    if i: "i < n" and x: "x \<in> set (?gs ! i)" and d: "d \<in> set (present services x)" for i x d
  proof -
    have "n - Suc i < length groups" using i n(1) by simp
    then obtain j where j: "j < n - Suc i" "d \<in> msName ` set (groups ! j)"
      using ord x d unfolding nth [OF i] start_order_def by blast
    have "n - Suc j < n" "i < n - Suc j" "n - Suc (n - Suc j) = j" using j(1) i by auto
    then show ?thesis using j(2) nth [of "n - Suc j"] len by (intro exI [of _ "n - Suc j"]) auto
  qed
  then show ?thesis using new n len by (intro exI [of _ ?gs]) (auto simp: Stop_def)
qed

end
