(* ===== verification/Process.thy ===== *)
theory Process
  imports Lifecycle ServiceRun
begin

text \<open>
  The process around the services: the entry point (\<open>cmd/main.go\<close>), the runner that turns signals
  into a bounded shutdown (\<open>pkg/runner/runner.go\<close>), the application with its hooks
  (\<open>internal/app/app.go\<close>), and the remaining operations of the service manager: the time one stop
  may take and the per-service commands (\<open>internal/pkg/service-manager/service_manager.go\<close>). What the
  operating system and the services do, and when, are arguments. The lemmas show what the result of
  the process says, when the hooks run, and how long a stop may take.
\<close>

section \<open>The process scope\<close>

definition SetGlobal :: "(string \<times> string) list \<Rightarrow> (string, string) gomap \<Rightarrow> (string, string) gomap" where
  "SetGlobal attrs scope = fold (\<lambda>(k, v). AList.update k v) attrs scope"

definition setProcessScope :: "string \<Rightarrow> string \<Rightarrow> string \<Rightarrow> (string, string) gomap \<Rightarrow> (string, string) gomap" where
  "setProcessScope binary commit version scope =
     (let attrs = [(''binary'', binary)];
          (scope1, attrs1) = (if commit = [] then (AList.delete ''commit'' scope, attrs) else (scope, attrs @ [(''commit'', commit)]));
          (scope2, attrs2) = (if version = [] then (AList.delete ''version'' scope1, attrs1)
                              else (scope1, attrs1 @ [(''version'', version)])) in
      SetGlobal attrs2 scope2)"

text \<open>The build metric names the binary that runs, whatever the scope held before.\<close>

lemma buildIdentity_is_stamped: "buildIdentity (setProcessScope binary commit version scope) = (version, commit)"
  by (simp add: buildIdentity_def setProcessScope_def SetGlobal_def Let_def map_of_update AList.delete_conv' AList.update_conv')

section \<open>The application\<close>

datatype appAction = PreRun string | ManagerRun | ManagerStop | Waited | PostStop string

record app =
  apHasCancel :: bool
  apCancelled :: bool
  apStopOnce :: bool
  apPreRun :: "string list"
  apPostStop :: "string list"
  apTrace :: "appAction list"

definition newApp :: app where
  "newApp = \<lparr>apHasCancel = False, apCancelled = False, apStopOnce = False, apPreRun = [], apPostStop = [], apTrace = []\<rparr>"

definition OnPreRun :: "string \<Rightarrow> app \<Rightarrow> app" where
  "OnPreRun fn a = a\<lparr>apPreRun := apPreRun a @ [fn]\<rparr>"

definition OnPostStop :: "string \<Rightarrow> app \<Rightarrow> app" where
  "OnPostStop fn a = a\<lparr>apPostStop := apPostStop a @ [fn]\<rparr>"

definition App_Stop :: "app \<Rightarrow> app" where
  "App_Stop a =
     (let a1 = (if apHasCancel a then a\<lparr>apCancelled := True\<rparr> else a) in
      if apStopOnce a1 then a1
      else a1\<lparr>apStopOnce := True, apTrace := apTrace a1 @ [ManagerStop, Waited] @ map PostStop (apPostStop a1)\<rparr>)"

text \<open>\<open>Run\<close> up to its wait, and from the event that wakes it; calls of \<open>Stop\<close> come in between.\<close>

definition App_Run_begin :: "app \<Rightarrow> app" where
  "App_Run_begin a =
     a\<lparr>apHasCancel := True, apCancelled := False, apTrace := apTrace a @ map PreRun (apPreRun a) @ [ManagerRun]\<rparr>"

datatype appWake = AppContextDone | ManagerFailed smError

definition App_Run_end :: "appWake \<Rightarrow> app \<Rightarrow> app \<times> smError option" where
  "App_Run_end wake a = (App_Stop a, case wake of AppContextDone \<Rightarrow> None | ManagerFailed e \<Rightarrow> Some e)"

text \<open>What wakes it: its context is done only when cancelled by its parent or by a \<open>Stop\<close> that found the function.\<close>

definition wakes :: "bool \<Rightarrow> appWake \<Rightarrow> app \<Rightarrow> bool" where
  "wakes parentDone wake a = (case wake of AppContextDone \<Rightarrow> parentDone \<or> apCancelled a | ManagerFailed e \<Rightarrow> True)"

definition App_Run :: "nat \<Rightarrow> appWake \<Rightarrow> app \<Rightarrow> app \<times> smError option" where
  "App_Run stops wake a = App_Run_end wake ((App_Stop ^^ stops) (App_Run_begin a))"

lemma App_Stop_twice: "apStopOnce a \<Longrightarrow> (App_Stop ^^ n) a = (if n = 0 \<or> \<not> apHasCancel a then a else a\<lparr>apCancelled := True\<rparr>)"
  by (induction n) (auto simp: App_Stop_def Let_def)

text \<open>
  However often \<open>Stop\<close> is called, the manager is stopped once and the hooks run once: those before
  the services in order before them, those after in order once everything has stopped.
\<close>

lemma hooks_run_once:
  assumes "\<not> apStopOnce a" and "App_Run stops wake a = (a', result)"
  shows "apTrace a' = apTrace a @ map PreRun (apPreRun a) @ [ManagerRun, ManagerStop, Waited] @ map PostStop (apPostStop a)"
    and "apStopOnce a'" and "apCancelled a'"
proof -
  let ?b = "App_Run_begin a" and ?s = "App_Stop (App_Run_begin a)"
  have s: "apStopOnce ?s" "apHasCancel ?s" "apCancelled ?s" "apTrace ?s = apTrace a @ map PreRun (apPreRun a) @
      [ManagerRun, ManagerStop, Waited] @ map PostStop (apPostStop a)"
    using assms(1) by (simp_all add: App_Stop_def App_Run_begin_def Let_def)
  have "a' = (App_Stop ^^ stops) ?s" using assms(2) by (auto simp: App_Run_def App_Run_end_def funpow_swap1)
  then show "apTrace a' = apTrace a @ map PreRun (apPreRun a) @ [ManagerRun, ManagerStop, Waited] @ map PostStop (apPostStop a)"
    and "apStopOnce a'" and "apCancelled a'"
    using s by (simp_all add: App_Stop_twice)
qed

text \<open>A stop that comes before \<open>Run\<close> has set its cancel function is lost: nothing wakes the run but its parent.\<close>

lemma early_stop_is_lost:
  assumes "\<not> apHasCancel a" and "\<not> apStopOnce a"
  shows "\<not> wakes False AppContextDone (App_Run_begin (App_Stop a))" and "apStopOnce (App_Run_begin (App_Stop a))"
  using assms by (simp_all add: wakes_def App_Run_begin_def App_Stop_def Let_def)

section \<open>The runner\<close>

definition errShutdownTimeout :: sentinel where "errShutdownTimeout = ErrOther ''shutdown timeout''"

definition defaultShutdownTimeout :: duration where "defaultShutdownTimeout = 10 * second"

datatype runnerWake = ParentDone | Signalled string | AppReturned "goerror option"

definition waitForShutdown :: "runnerWake \<Rightarrow> goerror option" where
  "waitForShutdown wake = (case wake of ParentDone \<Rightarrow> None | Signalled _ \<Rightarrow> None | AppReturned err \<Rightarrow> err)"

datatype contextError = NotDone | DeadlineExceeded | Cancelled goerror

definition handleShutdownTimeout :: "contextError \<Rightarrow> goerror option \<Rightarrow> goerror option" where
  "handleShutdownTimeout err shutdownErr =
     (case err of
        NotDone \<Rightarrow> shutdownErr
      | DeadlineExceeded \<Rightarrow> Some [errShutdownTimeout]
      | Cancelled e \<Rightarrow> (case shutdownErr of Some x \<Rightarrow> Some x | None \<Rightarrow> Some e))"

datatype shutdownEnd = StopFailed goerror | ContextEnded contextError | AllDone

definition gracefulShutdown :: "shutdownEnd \<Rightarrow> goerror option \<Rightarrow> goerror option" where
  "gracefulShutdown ending shutdownErr =
     (case ending of
        StopFailed e \<Rightarrow> errors_Join [shutdownErr, Some e]
      | ContextEnded err \<Rightarrow> handleShutdownTimeout err shutdownErr
      | AllDone \<Rightarrow> shutdownErr)"

text \<open>
  What a shutdown takes: when the application's \<open>Run\<close> and its \<open>Stop\<close> return after it began, if ever, and
  what \<open>Stop\<close> returns. The select takes the channel that is ready first.
\<close>

record shutdownWorld =
  shRunEnds :: "duration option"
  shStopEnds :: "duration option"
  shStopErr :: "goerror option"

definition before :: "duration \<Rightarrow> duration option \<Rightarrow> bool" where
  "before t x \<longleftrightarrow> (case x of None \<Rightarrow> False | Some d \<Rightarrow> d < t)"

definition shutdownEnds :: "duration \<Rightarrow> shutdownWorld \<Rightarrow> shutdownEnd" where
  "shutdownEnds timeout w =
     (case shStopErr w of
        Some e \<Rightarrow> if before timeout (shStopEnds w) then StopFailed e else ContextEnded DeadlineExceeded
      | None \<Rightarrow> if before timeout (shStopEnds w) \<and> before timeout (shRunEnds w) then AllDone
                else ContextEnded DeadlineExceeded)"

definition runner_run :: "duration \<Rightarrow> runnerWake \<Rightarrow> shutdownWorld \<Rightarrow> goerror option" where
  "runner_run timeout wake w = gracefulShutdown (shutdownEnds timeout w) (waitForShutdown wake)"

definition RunContext :: "goerror + duration \<Rightarrow> runnerWake \<Rightarrow> shutdownWorld \<Rightarrow> goerror option" where
  "RunContext config wake w = (case config of Inl e \<Rightarrow> Some e | Inr timeout \<Rightarrow> runner_run timeout wake w)"

text \<open>The process exits with an error exactly when the command returns one.\<close>

definition main_exit :: "goerror option \<Rightarrow> int" where
  "main_exit err = (if err = None then 0 else 1)"

lemma runner_result:
  assumes "shStopErr w = None"
  shows "runner_run timeout wake w = None \<longleftrightarrow>
    before timeout (shStopEnds w) \<and> before timeout (shRunEnds w) \<and> waitForShutdown wake = None"
    and "\<not> (before timeout (shStopEnds w) \<and> before timeout (shRunEnds w)) \<Longrightarrow>
      runner_run timeout wake w = Some [errShutdownTimeout]"
  using assms by (auto simp: runner_run_def shutdownEnds_def gracefulShutdown_def handleShutdownTimeout_def)

text \<open>After a signal the error \<open>Run\<close> returns is not looked at any more: the result does not depend on it.\<close>

lemma error_after_signal_dropped:
  "before timeout (shStopEnds w) \<Longrightarrow> before timeout (shRunEnds w) \<Longrightarrow> shStopErr w = None \<Longrightarrow>
     main_exit (RunContext (Inr timeout) (Signalled sig) w) = 0"
  by (simp add: main_exit_def RunContext_def runner_run_def shutdownEnds_def gracefulShutdown_def waitForShutdown_def)

section \<open>How long a stop may take\<close>

definition defaultStopTimeout :: duration where "defaultStopTimeout = 30 * second"

text \<open>The wait for one service ends when its \<open>Stop\<close> returns or at the timeout, whichever is first.\<close>

definition stopServiceWithTimeout :: "duration \<Rightarrow> duration option \<Rightarrow> duration" where
  "stopServiceWithTimeout timeout ends = (case ends of None \<Rightarrow> timeout | Some t \<Rightarrow> min t timeout)"

text \<open>The services of a group stop together, the groups one after the other.\<close>

definition stopGroup :: "duration \<Rightarrow> (managedService \<Rightarrow> duration option) \<Rightarrow> managedService list \<Rightarrow> duration" where
  "stopGroup timeout ends grp = fold (\<lambda>svc. max (stopServiceWithTimeout timeout (ends svc))) grp 0"

definition stopTime :: "duration \<Rightarrow> (managedService \<Rightarrow> duration option) \<Rightarrow> managedService list list \<Rightarrow> duration" where
  "stopTime timeout ends groups = sum_list (map (stopGroup timeout ends) (rev groups))"

lemma stopGroup_bound: "0 \<le> timeout \<Longrightarrow> 0 \<le> stopGroup timeout ends grp \<and> stopGroup timeout ends grp \<le> timeout"
proof -
  assume t: "0 \<le> timeout"
  have "a \<le> fold (\<lambda>svc. max (stopServiceWithTimeout timeout (ends svc))) grp a \<and>
      fold (\<lambda>svc. max (stopServiceWithTimeout timeout (ends svc))) grp a \<le> max a timeout" for a
  proof (induction grp arbitrary: a)
    case (Cons svc grp)
    have "stopServiceWithTimeout timeout (ends svc) \<le> timeout" by (simp add: stopServiceWithTimeout_def split: option.split)
    with Cons.IH [of "max (stopServiceWithTimeout timeout (ends svc)) a"] show ?case by auto
  qed simp
  from this [of 0] t show ?thesis by (simp add: stopGroup_def)
qed

text \<open>Whatever its services do, stopping the started groups takes at most one timeout per group.\<close>

lemma stop_time_bounded:
  assumes "start_run groups idle s" and "0 \<le> timeout"
  shows "stopTime timeout ends (suStarted s) \<le> int (length groups) * timeout"
proof -
  have "length (suStarted s) \<le> length groups" using reached_ok [OF assms(1)] by (simp add: start_ok_def)
  moreover have "sum_list (map (stopGroup timeout ends) xs) \<le> int (length xs) * timeout" for xs
    using stopGroup_bound [OF assms(2), of ends] by (induction xs) (auto simp: algebra_simps add_mono)
  from this [of "rev (suStarted s)"] have "stopTime timeout ends (suStarted s) \<le> int (length (suStarted s)) * timeout"
    by (simp add: stopTime_def)
  ultimately show ?thesis using mult_right_mono [of "int (length (suStarted s))" "int (length groups)" timeout] assms(2)
    by simp
qed

section \<open>Service commands\<close>

text \<open>One command per registered service; running it makes that service only, which may have no commands.\<close>

definition Commands :: "manager \<Rightarrow> string list" where
  "Commands m = map fst (mgFactories m)"

definition buildServiceCommand ::
  "manager \<Rightarrow> (managedService \<Rightarrow> ('args \<Rightarrow> smError option) option) \<Rightarrow> string \<Rightarrow> 'args \<Rightarrow> smError option" where
  "buildServiceCommand m commander name args =
     (case Instantiate m name of
        Inl e \<Rightarrow> Some e
      | Inr svc \<Rightarrow> (case commander svc of None \<Rightarrow> Some ErrNoCommands | Some execute \<Rightarrow> execute args))"

lemma command_errors:
  "name \<notin> set (Commands m) \<Longrightarrow> buildServiceCommand m commander name args = Some ErrServiceNotFound"
  by (simp add: Commands_def buildServiceCommand_def Instantiate_def map_of_eq_None_iff [symmetric])

end
