(* ===== verification/GoURL.thy ===== *)
theory GoURL
  imports GoValue
begin

text \<open>
  What the HTTP client and server use of Go's \<open>net/url\<close>, \<open>strings\<close> and \<open>net/http\<close>: percent escapes
  of path segments and query values, splitting and joining, the resolution of a relative
  reference, query strings, and the matching of a request path against the patterns of a
  \<open>ServeMux\<close>. The lemmas are the round trips the client relies on: what is escaped is unescaped to
  itself, what is joined is split again, a query that is built is parsed to its values.
\<close>

section \<open>Escapes\<close>

definition unreserved :: "char \<Rightarrow> bool" where
  "unreserved c \<longleftrightarrow> in_range 48 57 c \<or> in_range 65 90 c \<or> in_range 97 122 c \<or> c \<in> set ''-_.~''"

definition keepPath :: "char \<Rightarrow> bool" where
  "keepPath c \<longleftrightarrow> unreserved c \<or> c \<in> set ''$&+:=@''"

definition hexDigit :: "nat \<Rightarrow> char" where
  "hexDigit n = ''0123456789ABCDEF'' ! n"

definition unhex :: "char \<Rightarrow> nat option" where
  "unhex c =
     (if in_range 48 57 c then Some (byte c - 48)
      else if in_range 97 102 c then Some (byte c - 87)
      else if in_range 65 70 c then Some (byte c - 55) else None)"

definition escapeByte :: "char \<Rightarrow> string" where
  "escapeByte c = [CHR ''%'', hexDigit (byte c div 16), hexDigit (byte c mod 16)]"

definition PathEscape :: "string \<Rightarrow> string" where
  "PathEscape s = concat (map (\<lambda>c. if keepPath c then [c] else escapeByte c) s)"

definition QueryEscape :: "string \<Rightarrow> string" where
  "QueryEscape s =
     concat (map (\<lambda>c. if c = CHR '' '' then ''+'' else if unreserved c then [c] else escapeByte c) s)"

text \<open>The flag selects the query form, in which a plus sign is a space.\<close>

fun unescape :: "bool \<Rightarrow> string \<Rightarrow> string option" where
  "unescape q [] = Some []"
| "unescape q (c # cs) =
     (if c = CHR ''%'' then
        (case cs of
           a # b # rest \<Rightarrow>
             (case (unhex a, unhex b) of
                (Some x, Some y) \<Rightarrow> map_option (Cons (char_of (16 * x + y))) (unescape q rest)
              | _ \<Rightarrow> None)
         | _ \<Rightarrow> None)
      else map_option (Cons (if q \<and> c = CHR ''+'' then CHR '' '' else c)) (unescape q cs))"

lemma byte_bound: "byte c < 256"
  by (simp add: byte_def)

lemma hexDigit_cases: "n < 16 \<Longrightarrow> unhex (hexDigit n) = Some n \<and> unreserved (hexDigit n)"
proof -
  have "list_all (\<lambda>n. unhex (hexDigit n) = Some n \<and> unreserved (hexDigit n)) [0..<16]" by code_simp
  then show "n < 16 \<Longrightarrow> unhex (hexDigit n) = Some n \<and> unreserved (hexDigit n)" by (simp add: list_all_iff)
qed

lemma unescape_byte: "unescape q (escapeByte c @ s) = map_option (Cons c) (unescape q s)"
proof -
  have "byte c div 16 < 16" "byte c mod 16 < 16" using byte_bound [of c] by simp_all
  moreover have "char_of (16 * (byte c div 16) + byte c mod 16) = c" by (simp add: byte_def)
  ultimately show ?thesis by (simp add: escapeByte_def hexDigit_cases)
qed

lemma kept_not_special:
  "keepPath c \<Longrightarrow> c \<noteq> CHR ''%'' \<and> c \<noteq> CHR ''/'' \<and> c \<noteq> CHR ''?'' \<and> c \<noteq> CHR ''#'' \<and> 32 < byte c \<and> byte c < 127"
  "unreserved c \<Longrightarrow> c \<noteq> CHR ''%'' \<and> c \<noteq> CHR ''+'' \<and> c \<noteq> CHR ''&'' \<and> c \<noteq> CHR '';'' \<and> c \<noteq> CHR ''=''"
  by (auto simp: keepPath_def unreserved_def in_range_def byte_def)

lemma unescape_PathEscape [simp]: "unescape False (PathEscape s) = Some s"
  by (induction s) (auto simp: PathEscape_def unescape_byte dest: kept_not_special(1))

lemma unescape_QueryEscape [simp]: "unescape True (QueryEscape s) = Some s"
  by (induction s) (auto simp: QueryEscape_def unescape_byte dest: kept_not_special(2))

lemma unescape_plain: "list_all unreserved s \<Longrightarrow> unescape q s = Some s"
  by (induction s) (auto dest: kept_not_special(2))

lemma QueryEscape_plain: "list_all unreserved s \<Longrightarrow> QueryEscape s = s"
proof (induction s)
  case (Cons c s)
  have "\<not> unreserved (CHR '' '')" by code_simp
  with Cons show ?case by (auto simp: QueryEscape_def)
qed (simp add: QueryEscape_def)

lemma escapeByte_chars: "x \<in> set (escapeByte c) \<Longrightarrow> x = CHR ''%'' \<or> unreserved x"
proof -
  have "byte c div 16 < 16" "byte c mod 16 < 16" using byte_bound [of c] by simp_all
  then show "x \<in> set (escapeByte c) \<Longrightarrow> ?thesis" using hexDigit_cases by (auto simp: escapeByte_def)
qed

lemma PathEscape_chars: "x \<in> set (PathEscape s) \<Longrightarrow> x = CHR ''%'' \<or> keepPath x"
  by (auto simp: PathEscape_def keepPath_def dest: escapeByte_chars split: if_splits)

lemma QueryEscape_chars: "x \<in> set (QueryEscape s) \<Longrightarrow> x \<noteq> CHR ''&'' \<and> x \<noteq> CHR '';'' \<and> x \<noteq> CHR ''=''"
  by (auto simp: QueryEscape_def dest!: escapeByte_chars dest: kept_not_special(2) split: if_splits)

lemma PathEscape_clean: "x \<in> set (PathEscape s) \<Longrightarrow> x \<noteq> CHR ''/'' \<and> x \<noteq> CHR ''?'' \<and> x \<noteq> CHR ''#'' \<and> 32 < byte x \<and> byte x < 127"
proof -
  have "32 < byte (CHR ''%'') \<and> byte (CHR ''%'') < 127" by code_simp
  then show "x \<in> set (PathEscape s) \<Longrightarrow> ?thesis" using PathEscape_chars kept_not_special(1) by fastforce
qed

lemma PathEscape_Nil [simp]: "PathEscape s = [] \<longleftrightarrow> s = []"
  by (cases s) (simp_all add: PathEscape_def escapeByte_def)

text \<open>Escaping turns no other value into a dot segment.\<close>

lemma PathEscape_dots: "PathEscape s = ''.'' \<longleftrightarrow> s = ''.''" "PathEscape s = ''..'' \<longleftrightarrow> s = ''..''"
proof -
  have "s = ''.''" if "PathEscape s = ''.''"
    using arg_cong [OF that, of "unescape False"] by (simp add: unescape_plain unreserved_def)
  moreover have "s = ''..''" if "PathEscape s = ''..''"
    using arg_cong [OF that, of "unescape False"] by (simp add: unescape_plain unreserved_def)
  moreover have "PathEscape ''.'' = ''.''" "PathEscape ''..'' = ''..''" by (code_simp, code_simp)
  ultimately show "PathEscape s = ''.'' \<longleftrightarrow> s = ''.''" "PathEscape s = ''..'' \<longleftrightarrow> s = ''..''" by metis+
qed

section \<open>Splitting and joining\<close>

fun Split :: "char \<Rightarrow> string \<Rightarrow> string list" where
  "Split c [] = [[]]"
| "Split c (x # xs) =
     (if x = c then [] # Split c xs else (case Split c xs of [] \<Rightarrow> [[x]] | y # ys \<Rightarrow> (x # y) # ys))"

fun Join :: "char \<Rightarrow> string list \<Rightarrow> string" where
  "Join c [] = []"
| "Join c [x] = x"
| "Join c (x # y # ys) = x @ c # Join c (y # ys)"

definition Cut :: "char \<Rightarrow> string \<Rightarrow> string \<times> string" where
  "Cut c s = (takeWhile (\<lambda>x. x \<noteq> c) s, drop 1 (dropWhile (\<lambda>x. x \<noteq> c) s))"

lemma Split_plain: "c \<notin> set x \<Longrightarrow> Split c x = [x]"
  by (induction x) auto

lemma Split_append: "c \<notin> set x \<Longrightarrow> Split c (x @ c # s) = x # Split c s"
  by (induction x) auto

lemma Split_Join: "xs \<noteq> [] \<Longrightarrow> \<forall>x \<in> set xs. c \<notin> set x \<Longrightarrow> Split c (Join c xs) = xs"
  by (induction c xs rule: Join.induct) (simp_all add: Split_plain Split_append)

lemma Cut_append: "c \<notin> set x \<Longrightarrow> Cut c (x @ c # s) = (x, s)"
  by (simp add: Cut_def takeWhile_append dropWhile_append)

lemma Cut_plain: "c \<notin> set x \<Longrightarrow> Cut c x = (x, [])"
  by (induction x) (auto simp: Cut_def)

section \<open>Relative references\<close>

text \<open>
  A parsed URL, its path in escaped form. Resolving a path reference works on the elements of the
  joined path; the state is the list of elements written so far, which is empty only while the
  next one comes first.
\<close>

record URL =
  urScheme :: string
  urHost :: string
  urPath :: string
  urQuery :: string

definition resolveStep :: "string list \<Rightarrow> string \<Rightarrow> string list" where
  "resolveStep segs elem =
     (if elem = ''.'' then (if segs = [] then [[]] else segs)
      else if elem = ''..'' then butlast segs else segs @ [elem])"

definition resolvePath :: "string \<Rightarrow> string \<Rightarrow> string" where
  "resolvePath base ref =
     (let full = (if ref = [] then base
                  else if hd ref \<noteq> CHR ''/'' then rev (dropWhile (\<lambda>c. c \<noteq> CHR ''/'') (rev base)) @ ref else ref) in
      if full = [] then []
      else let elems = Split (CHR ''/'') full;
               r = CHR ''/'' # Join (CHR ''/'') (foldl resolveStep [] elems) @
                 (if last elems \<in> {''.'', ''..''} then ''/'' else []) in
        if 1 < length r \<and> r ! 1 = CHR ''/'' then tl r else r)"

text \<open>
  A reference that starts with a dot has no scheme and no authority, and its first segment has no
  colon: parsing it fails only on a control character or a malformed escape.
\<close>

definition parseReference :: "string \<Rightarrow> (string \<times> string) option" where
  "parseReference s =
     (case Cut (CHR ''#'') s of (u, fragment) \<Rightarrow>
      case Cut (CHR ''?'') u of (path, query) \<Rightarrow>
        if list_ex (\<lambda>c. byte c < 32 \<or> byte c = 127) s \<or> unescape False path = None \<or> unescape False fragment = None
        then None else Some (path, query))"

definition ResolveReference :: "URL \<Rightarrow> string \<times> string \<Rightarrow> URL" where
  "ResolveReference base = (\<lambda>(path, query). base\<lparr>urPath := resolvePath (urPath base) path, urQuery := query\<rparr>)"

text \<open>A list of elements none of which is a dot segment is kept as it is.\<close>

definition plain_elem :: "string \<Rightarrow> bool" where
  "plain_elem e \<longleftrightarrow> CHR ''/'' \<notin> set e \<and> e \<noteq> [] \<and> e \<noteq> ''.'' \<and> e \<noteq> ''..''"

lemma resolve_plain: "list_all plain_elem es \<Longrightarrow> foldl resolveStep segs es = segs @ es"
  by (induction es arbitrary: segs) (simp_all add: resolveStep_def plain_elem_def)

lemma Join_Cons: "xs \<noteq> [] \<Longrightarrow> Join c (x # xs) = x @ c # Join c xs"
  by (cases xs) simp_all

lemma resolve_relative:
  assumes "list_all plain_elem es" and "es \<noteq> []" and "list_all plain_elem bs"
  shows "resolvePath (CHR ''/'' # Join (CHR ''/'') (bs @ [[]])) (''./'' @ Join (CHR ''/'') es) =
    CHR ''/'' # Join (CHR ''/'') (bs @ es)"
proof -
  let ?j = "Join (CHR ''/'')"
  have shape: "?j (bs @ [[]]) = concat (map (\<lambda>b. b @ ''/'') bs)" for bs
    by (induction bs) (auto simp: Join_Cons)
  obtain x where x: "CHR ''/'' # ?j (bs @ [[]]) = x @ ''/''"
    unfolding shape by (cases bs rule: rev_cases) auto
  have "dropWhile (\<lambda>c. c \<noteq> CHR ''/'') (rev (CHR ''/'' # ?j (bs @ [[]]))) = rev (CHR ''/'' # ?j (bs @ [[]]))"
    unfolding x by simp
  moreover have "(CHR ''/'' # ?j (bs @ [[]])) @ ''./'' @ ?j es = ?j ([[]] @ bs @ [''.''] @ es)"
    using assms(2) by (induction bs) (auto simp: Join_Cons)
  moreover have "Split (CHR ''/'') (?j ([[]] @ bs @ [''.''] @ es)) = [[]] @ bs @ [''.''] @ es"
    using assms by (intro Split_Join) (auto simp: list_all_iff plain_elem_def)
  moreover have "foldl resolveStep [] ([[]] @ bs @ [''.''] @ es) = [] # bs @ es"
    using assms(1, 3) by (simp add: resolve_plain resolveStep_def [of _ "''.''"] resolveStep_def [of _ "[]"])
  moreover have "last ([[]] @ bs @ [''.''] @ es) \<notin> {''.'', ''..''}"
    using assms(1, 2) by (auto simp: list_all_iff plain_elem_def)
  ultimately show ?thesis using assms(2) by (simp add: resolvePath_def Let_def Join_Cons)
qed

section \<open>Queries\<close>

definition queryPart :: "(string, string list) gomap \<Rightarrow> string \<Rightarrow> (string, string list) gomap" where
  "queryPart m part =
     (if CHR '';'' \<in> set part \<or> part = [] then m
      else case Cut (CHR ''='') part of (k, v) \<Rightarrow>
        (case (unescape True k, unescape True v) of
           (Some key, Some val) \<Rightarrow> AList.update key ((case map_of m key of None \<Rightarrow> [] | Some vs \<Rightarrow> vs) @ [val]) m
         | _ \<Rightarrow> m))"

definition ParseQuery :: "string \<Rightarrow> (string, string list) gomap" where
  "ParseQuery query = foldl queryPart [] (Split (CHR ''&'') query)"

definition Values_Encode :: "(string, string list) gomap \<Rightarrow> string" where
  "Values_Encode m =
     Join (CHR ''&'') (concat (map (\<lambda>(k, vs). map (\<lambda>v. QueryEscape k @ ''='' @ QueryEscape v) vs) (sort_key fst m)))"

lemma update_new: "k \<notin> fst ` set m \<Longrightarrow> AList.update k v m = m @ [(k, v)]"
  by (induction m) auto

lemma ParseQuery_built:
  assumes "distinct (map fst kvs)" and "\<forall>(k, v) \<in> set kvs. list_all unreserved k"
  shows "ParseQuery (Join (CHR ''&'') (map (\<lambda>(k, v). k @ ''='' @ QueryEscape v) kvs)) = map (\<lambda>(k, v). (k, [v])) kvs"
proof (cases "kvs = []")
  case True
  then show ?thesis by (simp add: ParseQuery_def queryPart_def)
next
  case False
  let ?part = "\<lambda>(k, v). k @ ''='' @ QueryEscape v"
  have plain: "CHR ''&'' \<notin> set k \<and> CHR '';'' \<notin> set k \<and> CHR ''='' \<notin> set k" if "list_all unreserved k" for k
    using that kept_not_special(2) by (auto simp: list_all_iff)
  have part: "CHR ''&'' \<notin> set (?part (k, v)) \<and> CHR '';'' \<notin> set (?part (k, v))" if "list_all unreserved k" for k v
    using plain [OF that] QueryEscape_chars by auto
  have split: "Split (CHR ''&'') (Join (CHR ''&'') (map ?part kvs)) = map ?part kvs"
    using False assms(2) part by (intro Split_Join) auto
  have one: "queryPart m (?part (k, v)) = m @ [(k, [v])]" if "list_all unreserved k" "k \<notin> fst ` set m" for m k v
  proof -
    have "Cut (CHR ''='') (?part (k, v)) = (k, QueryEscape v)" using plain [OF that(1)] Cut_append by simp
    moreover have "map_of m k = None" using that(2) by (simp add: map_of_eq_None_iff)
    ultimately show ?thesis using part [OF that(1)] by (simp add: queryPart_def unescape_plain [OF that(1)] update_new [OF that(2)])
  qed
  have "foldl queryPart m (map ?part kvs) = m @ map (\<lambda>(k, v). (k, [v])) kvs"
    if "distinct (map fst kvs)" "\<forall>(k, v) \<in> set kvs. list_all unreserved k" "fst ` set m \<inter> fst ` set kvs = {}" for m kvs
    using that
  proof (induction kvs arbitrary: m)
    case (Cons kv kvs)
    obtain k v where kv: "kv = (k, v)" by fastforce
    have step: "queryPart m (?part (k, v)) = m @ [(k, [v])]" using Cons.prems by (intro one) (auto simp: kv)
    have "foldl queryPart (m @ [(k, [v])]) (map ?part kvs) = (m @ [(k, [v])]) @ map (\<lambda>(k, v). (k, [v])) kvs"
      using Cons.prems by (intro Cons.IH) (auto simp: kv)
    then show ?case using step by (simp add: kv del: append_assoc)
  qed simp
  from this [of kvs "[]"] assms show ?thesis unfolding ParseQuery_def split by simp
qed

section \<open>Patterns\<close>

text \<open>
  The patterns of a \<open>ServeMux\<close> that have a method and no trailing wildcard. A path that is not in
  its clean form is redirected instead of matched. Segments are compared unescaped; a wildcard
  takes any segment but an empty one and a lone slash, which stands for a trailing slash.
\<close>

datatype segment = Literal string | Wildcard string

definition parsePattern :: "string \<Rightarrow> string \<times> segment list" where
  "parsePattern pattern =
     (case Cut (CHR '' '') pattern of (verb, path) \<Rightarrow>
      (verb, map (\<lambda>s. if s \<noteq> [] \<and> hd s = CHR ''{'' then Wildcard (butlast (tl s)) else Literal s) (tl (Split (CHR ''/'') path))))"

fun matchSegments :: "segment list \<Rightarrow> string list \<Rightarrow> (string, string) gomap option" where
  "matchSegments [] [] = Some []"
| "matchSegments (Literal l # ps) (s # ss) = (if l = s then matchSegments ps ss else None)"
| "matchSegments (Wildcard w # ps) (s # ss) =
     (if s = [] \<or> s = ''/'' then None else map_option (Cons (w, s)) (matchSegments ps ss))"
| "matchSegments _ _ = None"

definition cleanStep :: "string list \<Rightarrow> string \<Rightarrow> string list" where
  "cleanStep segs elem = (if elem = [] \<or> elem = ''.'' then segs else if elem = ''..'' then butlast segs else segs @ [elem])"

definition cleanPath :: "string \<Rightarrow> string" where
  "cleanPath p =
     (if p = [] then ''/''
      else let q = (if hd p \<noteq> CHR ''/'' then CHR ''/'' # p else p);
               np = CHR ''/'' # Join (CHR ''/'') (foldl cleanStep [] (Split (CHR ''/'') q)) in
        if last q = CHR ''/'' \<and> np \<noteq> ''/'' then np @ ''/'' else np)"

definition pathUnescape :: "string \<Rightarrow> string" where
  "pathUnescape s = (case unescape False s of None \<Rightarrow> s | Some t \<Rightarrow> t)"

fun firstMatch :: "string list \<Rightarrow> string \<Rightarrow> string list \<Rightarrow> (string \<times> (string, string) gomap) option" where
  "firstMatch [] verb segs = None"
| "firstMatch (p # ps) verb segs =
     (case parsePattern p of (v, pattern) \<Rightarrow>
      case (if v = verb \<or> v = ''GET'' \<and> verb = ''HEAD'' then matchSegments pattern segs else None) of
        Some values \<Rightarrow> Some (p, values)
      | None \<Rightarrow> firstMatch ps verb segs)"

definition muxMatch :: "string list \<Rightarrow> string \<Rightarrow> string \<Rightarrow> (string \<times> (string, string) gomap) option" where
  "muxMatch patterns verb path =
     (if cleanPath path \<noteq> path then None else firstMatch patterns verb (map pathUnescape (tl (Split (CHR ''/'') path))))"

lemma clean_plain: "list_all plain_elem es \<Longrightarrow> foldl cleanStep segs es = segs @ es"
  by (induction es arbitrary: segs) (simp_all add: cleanStep_def plain_elem_def)

lemma plain_path:
  assumes "list_all plain_elem es" and "es \<noteq> []"
  shows "Split (CHR ''/'') (CHR ''/'' # Join (CHR ''/'') es) = [] # es"
    and "cleanPath (CHR ''/'' # Join (CHR ''/'') es) = CHR ''/'' # Join (CHR ''/'') es"
proof -
  have sp: "Split (CHR ''/'') (Join (CHR ''/'') es) = es"
    using assms by (intro Split_Join) (auto simp: list_all_iff plain_elem_def)
  then show split: "Split (CHR ''/'') (CHR ''/'' # Join (CHR ''/'') es) = [] # es" by simp
  have "last (CHR ''/'' # Join (CHR ''/'') es) \<noteq> CHR ''/''"
  proof -
    have "x \<noteq> [] \<and> last x \<noteq> c \<Longrightarrow> Join c (xs @ [x]) \<noteq> [] \<and> last (Join c (xs @ [x])) \<noteq> c" for xs x c
      by (induction xs) (auto simp: Join_Cons)
    moreover have "last es \<noteq> [] \<and> last (last es) \<noteq> CHR ''/''"
      using assms by (metis last_in_set list.pred_set plain_elem_def)
    ultimately show ?thesis using assms(2) by (metis append_butlast_last_id last_ConsR)
  qed
  then show "cleanPath (CHR ''/'' # Join (CHR ''/'') es) = CHR ''/'' # Join (CHR ''/'') es"
    using split by (simp add: cleanPath_def Let_def clean_plain [OF assms(1)] cleanStep_def [of _ "[]"])
qed

lemma muxMatch_plain:
  assumes "list_all plain_elem es" and "es \<noteq> []"
  shows "muxMatch patterns verb (CHR ''/'' # Join (CHR ''/'') es) = firstMatch patterns verb (map pathUnescape es)"
  by (simp only: muxMatch_def plain_path [OF assms] list.sel) simp

lemma pathUnescape_PathEscape [simp]: "pathUnescape (PathEscape s) = s"
  by (simp add: pathUnescape_def)

lemma plain_PathEscape: "s \<noteq> [] \<Longrightarrow> s \<noteq> ''.'' \<Longrightarrow> s \<noteq> ''..'' \<Longrightarrow> plain_elem (PathEscape s)"
  using PathEscape_clean [of "CHR ''/''" s] by (auto simp: plain_elem_def PathEscape_dots)

end
