(* ===== verification/ApiClient.thy ===== *)
theory ApiClient
  imports Routes GoURL
begin

text \<open>
  The generated HTTP client (\<open>pkg/http/api/client/client.gen.go\<close>): building the request of every
  operation, sending it through the editors and the configured doer, and reading the reply into
  the field of its status. Its types are those of the server. The parameter styles of the runtime
  library, JSON, parsing the server's URL and the doer are arguments. The lemmas show that what
  the client sends is what the server's operation gets, and what it can read of the replies.
\<close>

section \<open>Requests on the wire\<close>

record wireRequest =
  wqMethod :: string
  wqURL :: URL
  wqHeader :: "(string, string list) gomap"
  wqBody :: string

record clientReply =
  wpStatus :: string
  wpStatusCode :: int
  wpHeader :: "(string, string list) gomap"
  wpBody :: "goerror + string"

record clientRuntime =
  crURLParse :: "string \<Rightarrow> goerror + URL"
  crNewRequest :: "URL \<Rightarrow> goerror + URL"
  crPath :: "string \<Rightarrow> string \<Rightarrow> goerror + string"
  crQueryInt :: "string \<Rightarrow> int \<Rightarrow> goerror + string"
  crQueryString :: "string \<Rightarrow> string \<Rightarrow> goerror + string"
  crHeader :: "string \<Rightarrow> string \<Rightarrow> goerror + string"
  crCreate :: "createBody \<Rightarrow> goerror + string"
  crFeedback :: "string \<times> string option \<Rightarrow> goerror + string"
  crValidate :: "(string, goval) gomap \<Rightarrow> goerror + string"

definition Header_Get :: "(string, string list) gomap \<Rightarrow> string \<Rightarrow> string" where
  "Header_Get h k = (case map_of h k of Some (v # vs) \<Rightarrow> v | _ \<Rightarrow> [])"

definition Header_Add :: "string \<Rightarrow> string \<Rightarrow> (string, string list) gomap \<Rightarrow> (string, string list) gomap" where
  "Header_Add k v h = AList.update k ((case map_of h k of None \<Rightarrow> [] | Some vs \<Rightarrow> vs) @ [v]) h"

text \<open>
  The part every builder shares: parse the server, make the operation's path relative, resolve it,
  and make a request for the result.
\<close>

definition operationURL :: "clientRuntime \<Rightarrow> string \<Rightarrow> string \<Rightarrow> goerror + URL" where
  "operationURL rt server operationPath =
     rbind (crURLParse rt server) (\<lambda>serverURL.
       let path = (if hd operationPath = CHR ''/'' then CHR ''.'' # operationPath else operationPath) in
       case parseReference path of
         None \<Rightarrow> Inl [ErrOther ''invalid URL escape'']
       | Some ref \<Rightarrow> Inr (ResolveReference serverURL ref))"

definition newRequest :: "clientRuntime \<Rightarrow> string \<Rightarrow> URL \<Rightarrow> string \<Rightarrow> goerror + wireRequest" where
  "newRequest rt verb u body =
     rbind (crNewRequest rt u) (\<lambda>u'. Inr \<lparr>wqMethod = verb, wqURL = u', wqHeader = [], wqBody = body\<rparr>)"

definition withContentType :: "string \<Rightarrow> wireRequest \<Rightarrow> wireRequest" where
  "withContentType contentType q = q\<lparr>wqHeader := Header_Add ''Content-Type'' contentType (wqHeader q)\<rparr>"

section \<open>Building requests\<close>

definition styled :: "('v \<Rightarrow> goerror + string) \<Rightarrow> 'v option \<Rightarrow> string list \<Rightarrow> goerror + string list" where
  "styled style param fragments =
     (case param of None \<Rightarrow> Inr fragments | Some v \<Rightarrow> rbind (style v) (\<lambda>frag. Inr (fragments @ Split (CHR ''&'') frag)))"

definition listQuery :: "clientRuntime \<Rightarrow> listParams \<Rightarrow> string \<Rightarrow> goerror + string" where
  "listQuery rt params rawQuery =
     rbind (styled (crQueryInt rt ''limit'') (lpLimit params) []) (\<lambda>fs.
     rbind (styled (crQueryInt rt ''offset'') (lpOffset params) fs) (\<lambda>fs.
     rbind (styled (crQueryString rt ''policyName'') (lpPolicyName params) fs) (\<lambda>fs.
     rbind (styled (crQueryString rt ''policyVersion'') (lpPolicyVersion params) fs) (\<lambda>fs.
     rbind (styled (crQueryString rt ''outcome'') (lpOutcome params) fs) (\<lambda>fs.
     rbind (styled (crQueryString rt ''status'') (lpStatus params) fs) (\<lambda>fs.
       let encoded = Values_Encode (ParseQuery rawQuery) in
       Inr (Join (CHR ''&'') (if encoded = [] then fs else fs @ [encoded]))))))))"

definition NewListEvaluationsRequest :: "clientRuntime \<Rightarrow> string \<Rightarrow> listParams option \<Rightarrow> goerror + wireRequest" where
  "NewListEvaluationsRequest rt server params =
     rbind (operationURL rt server ''/evaluations'') (\<lambda>queryURL.
       case params of
         None \<Rightarrow> newRequest rt ''GET'' queryURL []
       | Some p \<Rightarrow> rbind (listQuery rt p (urQuery queryURL)) (\<lambda>query. newRequest rt ''GET'' (queryURL\<lparr>urQuery := query\<rparr>) []))"

definition NewCreateEvaluationRequestWithBody ::
  "clientRuntime \<Rightarrow> string \<Rightarrow> uuid option option \<Rightarrow> string \<Rightarrow> string \<Rightarrow> goerror + wireRequest" where
  "NewCreateEvaluationRequestWithBody rt server params contentType body =
     rbind (operationURL rt server ''/evaluations'') (\<lambda>queryURL.
     rbind (newRequest rt ''POST'' queryURL body) (\<lambda>req.
       let req = withContentType contentType req in
       case params of
         None \<Rightarrow> Inr req
       | Some None \<Rightarrow> Inr req
       | Some (Some key) \<Rightarrow>
           rbind (crHeader rt ''Idempotency-Key'' key) (\<lambda>v.
             Inr (req\<lparr>wqHeader := AList.update ''Idempotency-Key'' [v] (wqHeader req)\<rparr>))))"

definition NewCreateEvaluationRequest ::
  "clientRuntime \<Rightarrow> string \<Rightarrow> uuid option option \<Rightarrow> createBody \<Rightarrow> goerror + wireRequest" where
  "NewCreateEvaluationRequest rt server params body =
     rbind (crCreate rt body) (NewCreateEvaluationRequestWithBody rt server params ''application/json'')"

definition NewGetEvaluationRequest :: "clientRuntime \<Rightarrow> string \<Rightarrow> uuid \<Rightarrow> goerror + wireRequest" where
  "NewGetEvaluationRequest rt server evaluationId =
     rbind (crPath rt ''evaluationId'' evaluationId) (\<lambda>p.
     rbind (operationURL rt server (''/evaluations/'' @ p)) (\<lambda>queryURL. newRequest rt ''GET'' queryURL []))"

definition NewSubmitFeedbackRequestWithBody ::
  "clientRuntime \<Rightarrow> string \<Rightarrow> uuid \<Rightarrow> string \<Rightarrow> string \<Rightarrow> goerror + wireRequest" where
  "NewSubmitFeedbackRequestWithBody rt server evaluationId contentType body =
     rbind (crPath rt ''evaluationId'' evaluationId) (\<lambda>p.
     rbind (operationURL rt server (''/evaluations/'' @ p @ ''/feedback'')) (\<lambda>queryURL.
     rbind (newRequest rt ''POST'' queryURL body) (\<lambda>req. Inr (withContentType contentType req))))"

definition NewSubmitFeedbackRequest ::
  "clientRuntime \<Rightarrow> string \<Rightarrow> uuid \<Rightarrow> string \<times> string option \<Rightarrow> goerror + wireRequest" where
  "NewSubmitFeedbackRequest rt server evaluationId body =
     rbind (crFeedback rt body) (NewSubmitFeedbackRequestWithBody rt server evaluationId ''application/json'')"

definition NewListPoliciesRequest :: "clientRuntime \<Rightarrow> string \<Rightarrow> goerror + wireRequest" where
  "NewListPoliciesRequest rt server =
     rbind (operationURL rt server ''/policies'') (\<lambda>queryURL. newRequest rt ''GET'' queryURL [])"

definition NewValidatePolicyRequestWithBody :: "clientRuntime \<Rightarrow> string \<Rightarrow> string \<Rightarrow> string \<Rightarrow> goerror + wireRequest" where
  "NewValidatePolicyRequestWithBody rt server contentType body =
     rbind (operationURL rt server ''/policies/validate'') (\<lambda>queryURL.
     rbind (newRequest rt ''POST'' queryURL body) (\<lambda>req. Inr (withContentType contentType req)))"

definition NewValidatePolicyRequest :: "clientRuntime \<Rightarrow> string \<Rightarrow> (string, goval) gomap \<Rightarrow> goerror + wireRequest" where
  "NewValidatePolicyRequest rt server body =
     rbind (crValidate rt body) (NewValidatePolicyRequestWithBody rt server ''application/json'')"

definition NewGetPolicyRequest :: "clientRuntime \<Rightarrow> string \<Rightarrow> string \<Rightarrow> string \<Rightarrow> goerror + wireRequest" where
  "NewGetPolicyRequest rt server policyName policyVersion =
     rbind (crPath rt ''policyName'' policyName) (\<lambda>p0.
     rbind (crPath rt ''policyVersion'' policyVersion) (\<lambda>p1.
     rbind (operationURL rt server (''/policies/'' @ p0 @ ''/versions/'' @ p1)) (\<lambda>queryURL. newRequest rt ''GET'' queryURL [])))"

section \<open>The client\<close>

type_synonym doer = "wireRequest \<Rightarrow> goerror + clientReply"
type_synonym requestEditor = "wireRequest \<Rightarrow> goerror + wireRequest"

record apiClient =
  acServer :: string
  acClient :: "doer option"
  acRequestEditors :: "requestEditor list"

fun applyOptions :: "(apiClient \<Rightarrow> goerror + apiClient) list \<Rightarrow> apiClient \<Rightarrow> goerror + apiClient" where
  "applyOptions [] c = Inr c"
| "applyOptions (opt # opts) c = rbind (opt c) (applyOptions opts)"

definition NewClient :: "doer \<Rightarrow> string \<Rightarrow> (apiClient \<Rightarrow> goerror + apiClient) list \<Rightarrow> goerror + apiClient" where
  "NewClient httpClient server opts =
     rbind (applyOptions opts \<lparr>acServer = server, acClient = None, acRequestEditors = []\<rparr>) (\<lambda>c.
       let c1 = (if acServer c \<noteq> [] \<and> last (acServer c) = CHR ''/'' then c else c\<lparr>acServer := acServer c @ ''/''\<rparr>) in
       Inr (if acClient c1 = None then c1\<lparr>acClient := Some httpClient\<rparr> else c1))"

definition WithHTTPClient :: "doer \<Rightarrow> apiClient \<Rightarrow> goerror + apiClient" where
  "WithHTTPClient d c = Inr (c\<lparr>acClient := Some d\<rparr>)"

definition WithRequestEditorFn :: "requestEditor \<Rightarrow> apiClient \<Rightarrow> goerror + apiClient" where
  "WithRequestEditorFn fn c = Inr (c\<lparr>acRequestEditors := acRequestEditors c @ [fn]\<rparr>)"

definition WithBaseURL :: "(string \<Rightarrow> goerror + string) \<Rightarrow> string \<Rightarrow> apiClient \<Rightarrow> goerror + apiClient" where
  "WithBaseURL reprint baseURL c = rbind (reprint baseURL) (\<lambda>s. Inr (c\<lparr>acServer := s\<rparr>))"

fun editRequest :: "requestEditor list \<Rightarrow> wireRequest \<Rightarrow> goerror + wireRequest" where
  "editRequest [] q = Inr q"
| "editRequest (ed # eds) q = rbind (ed q) (editRequest eds)"

definition applyEditors :: "apiClient \<Rightarrow> wireRequest \<Rightarrow> requestEditor list \<Rightarrow> goerror + wireRequest" where
  "applyEditors c req additional = rbind (editRequest (acRequestEditors c) req) (editRequest additional)"

definition sendRequest :: "apiClient \<Rightarrow> requestEditor list \<Rightarrow> goerror + wireRequest \<Rightarrow> goerror + clientReply" where
  "sendRequest c eds built =
     rbind built (\<lambda>req. rbind (applyEditors c req eds) (\<lambda>req.
       case acClient c of None \<Rightarrow> Inl [panicked] | Some d \<Rightarrow> d req))"

definition client_ListEvaluations :: "clientRuntime \<Rightarrow> apiClient \<Rightarrow> listParams option \<Rightarrow> requestEditor list \<Rightarrow> goerror + clientReply" where
  "client_ListEvaluations rt c params eds = sendRequest c eds (NewListEvaluationsRequest rt (acServer c) params)"

definition client_CreateEvaluationWithBody ::
  "clientRuntime \<Rightarrow> apiClient \<Rightarrow> uuid option option \<Rightarrow> string \<Rightarrow> string \<Rightarrow> requestEditor list \<Rightarrow> goerror + clientReply" where
  "client_CreateEvaluationWithBody rt c params contentType body eds =
     sendRequest c eds (NewCreateEvaluationRequestWithBody rt (acServer c) params contentType body)"

definition client_CreateEvaluation ::
  "clientRuntime \<Rightarrow> apiClient \<Rightarrow> uuid option option \<Rightarrow> createBody \<Rightarrow> requestEditor list \<Rightarrow> goerror + clientReply" where
  "client_CreateEvaluation rt c params body eds = sendRequest c eds (NewCreateEvaluationRequest rt (acServer c) params body)"

definition client_GetEvaluation :: "clientRuntime \<Rightarrow> apiClient \<Rightarrow> uuid \<Rightarrow> requestEditor list \<Rightarrow> goerror + clientReply" where
  "client_GetEvaluation rt c evaluationId eds = sendRequest c eds (NewGetEvaluationRequest rt (acServer c) evaluationId)"

definition client_SubmitFeedbackWithBody ::
  "clientRuntime \<Rightarrow> apiClient \<Rightarrow> uuid \<Rightarrow> string \<Rightarrow> string \<Rightarrow> requestEditor list \<Rightarrow> goerror + clientReply" where
  "client_SubmitFeedbackWithBody rt c evaluationId contentType body eds =
     sendRequest c eds (NewSubmitFeedbackRequestWithBody rt (acServer c) evaluationId contentType body)"

definition client_SubmitFeedback ::
  "clientRuntime \<Rightarrow> apiClient \<Rightarrow> uuid \<Rightarrow> string \<times> string option \<Rightarrow> requestEditor list \<Rightarrow> goerror + clientReply" where
  "client_SubmitFeedback rt c evaluationId body eds = sendRequest c eds (NewSubmitFeedbackRequest rt (acServer c) evaluationId body)"

definition client_ListPolicies :: "clientRuntime \<Rightarrow> apiClient \<Rightarrow> requestEditor list \<Rightarrow> goerror + clientReply" where
  "client_ListPolicies rt c eds = sendRequest c eds (NewListPoliciesRequest rt (acServer c))"

definition client_ValidatePolicyWithBody ::
  "clientRuntime \<Rightarrow> apiClient \<Rightarrow> string \<Rightarrow> string \<Rightarrow> requestEditor list \<Rightarrow> goerror + clientReply" where
  "client_ValidatePolicyWithBody rt c contentType body eds =
     sendRequest c eds (NewValidatePolicyRequestWithBody rt (acServer c) contentType body)"

definition client_ValidatePolicy ::
  "clientRuntime \<Rightarrow> apiClient \<Rightarrow> (string, goval) gomap \<Rightarrow> requestEditor list \<Rightarrow> goerror + clientReply" where
  "client_ValidatePolicy rt c body eds = sendRequest c eds (NewValidatePolicyRequest rt (acServer c) body)"

definition client_GetPolicy :: "clientRuntime \<Rightarrow> apiClient \<Rightarrow> string \<Rightarrow> string \<Rightarrow> requestEditor list \<Rightarrow> goerror + clientReply" where
  "client_GetPolicy rt c policyName policyVersion eds =
     sendRequest c eds (NewGetPolicyRequest rt (acServer c) policyName policyVersion)"

section \<open>Reading replies\<close>

text \<open>A parsed reply: the raw one and, for a known status of a JSON reply, the value of its field \<open>JSON<status>\<close>.\<close>

datatype 'a payload = Payload 'a | ErrorPayload apiError

record 'a clientResponse =
  crBody :: string
  crHTTPResponse :: "clientReply option"
  crJSON :: "int \<rightharpoonup> 'a payload"

record replyDecoder =
  rdEvaluationList :: "string \<Rightarrow> goerror + EvaluationList"
  rdEvaluation :: "string \<Rightarrow> goerror + apiEvaluation"
  rdFeedback :: "string \<Rightarrow> goerror + apiFeedback"
  rdPolicyList :: "string \<Rightarrow> goerror + apiPolicy list"
  rdPolicyValidation :: "string \<Rightarrow> goerror + PolicyValidation"
  rdPolicy :: "string \<Rightarrow> goerror + apiPolicy"
  rdError :: "string \<Rightarrow> goerror + apiError"

definition response_Status :: "'a clientResponse \<Rightarrow> string" where
  "response_Status r = (case crHTTPResponse r of Some h \<Rightarrow> wpStatus h | None \<Rightarrow> [])"

definition response_StatusCode :: "'a clientResponse \<Rightarrow> int" where
  "response_StatusCode r = (case crHTTPResponse r of Some h \<Rightarrow> wpStatusCode h | None \<Rightarrow> 0)"

definition response_ContentType :: "'a clientResponse \<Rightarrow> string" where
  "response_ContentType r = (case crHTTPResponse r of Some h \<Rightarrow> Header_Get (wpHeader h) ''Content-Type'' | None \<Rightarrow> [])"

text \<open>A reply is JSON when its content type has the word in it.\<close>

definition isJSON :: "clientReply \<Rightarrow> bool" where
  "isJSON rsp = (\<exists>k \<le> length (Header_Get (wpHeader rsp) ''Content-Type'').
     take 4 (drop k (Header_Get (wpHeader rsp) ''Content-Type'')) = ''json'')"

definition parseReply :: "(int \<times> (string \<Rightarrow> goerror + 'a payload)) list \<Rightarrow> clientReply \<Rightarrow> goerror + 'a clientResponse" where
  "parseReply cases rsp =
     rbind (wpBody rsp) (\<lambda>bodyBytes.
       let response = \<lparr>crBody = bodyBytes, crHTTPResponse = Some rsp, crJSON = (\<lambda>_. None)\<rparr> in
       if \<not> isJSON rsp then Inr response
       else case map_of cases (wpStatusCode rsp) of
         None \<Rightarrow> Inr response
       | Some decode \<Rightarrow>
           rbind (decode bodyBytes) (\<lambda>dest. Inr (response\<lparr>crJSON := [wpStatusCode rsp \<mapsto> dest]\<rparr>)))"

definition decoded :: "(string \<Rightarrow> goerror + 'a) \<Rightarrow> string \<Rightarrow> goerror + 'a payload" where
  "decoded decode bytes = rbind (decode bytes) (\<lambda>v. Inr (Payload v))"

definition failed_with :: "replyDecoder \<Rightarrow> int list \<Rightarrow> (int \<times> (string \<Rightarrow> goerror + 'a payload)) list" where
  "failed_with d statuses = map (\<lambda>s. (s, \<lambda>bytes. rbind (rdError d bytes) (\<lambda>e. Inr (ErrorPayload e)))) statuses"

definition ParseListEvaluationsResponse :: "replyDecoder \<Rightarrow> clientReply \<Rightarrow> goerror + EvaluationList clientResponse" where
  "ParseListEvaluationsResponse d = parseReply ((200, decoded (rdEvaluationList d)) # failed_with d [400, 401, 500])"

definition ParseCreateEvaluationResponse :: "replyDecoder \<Rightarrow> clientReply \<Rightarrow> goerror + apiEvaluation clientResponse" where
  "ParseCreateEvaluationResponse d =
     parseReply ((201, decoded (rdEvaluation d)) # failed_with d [400, 401, 404, 409, 413, 422, 429, 500, 502, 503, 504])"

definition ParseGetEvaluationResponse :: "replyDecoder \<Rightarrow> clientReply \<Rightarrow> goerror + apiEvaluation clientResponse" where
  "ParseGetEvaluationResponse d = parseReply ((200, decoded (rdEvaluation d)) # failed_with d [400, 401, 404, 500])"

definition ParseSubmitFeedbackResponse :: "replyDecoder \<Rightarrow> clientReply \<Rightarrow> goerror + apiFeedback clientResponse" where
  "ParseSubmitFeedbackResponse d = parseReply ((201, decoded (rdFeedback d)) # failed_with d [400, 401, 404, 422, 500])"

definition ParseListPoliciesResponse :: "replyDecoder \<Rightarrow> clientReply \<Rightarrow> goerror + apiPolicy list clientResponse" where
  "ParseListPoliciesResponse d = parseReply ((200, decoded (rdPolicyList d)) # failed_with d [401, 500])"

definition ParseValidatePolicyResponse :: "replyDecoder \<Rightarrow> clientReply \<Rightarrow> goerror + PolicyValidation clientResponse" where
  "ParseValidatePolicyResponse d = parseReply ((200, decoded (rdPolicyValidation d)) # failed_with d [400, 401, 413, 500])"

definition ParseGetPolicyResponse :: "replyDecoder \<Rightarrow> clientReply \<Rightarrow> goerror + apiPolicy clientResponse" where
  "ParseGetPolicyResponse d = parseReply ((200, decoded (rdPolicy d)) # failed_with d [400, 401, 404, 500])"

definition ListEvaluationsWithResponse ::
  "clientRuntime \<Rightarrow> replyDecoder \<Rightarrow> apiClient \<Rightarrow> listParams option \<Rightarrow> requestEditor list \<Rightarrow> goerror + EvaluationList clientResponse" where
  "ListEvaluationsWithResponse rt d c params eds =
     rbind (client_ListEvaluations rt c params eds) (ParseListEvaluationsResponse d)"

definition CreateEvaluationWithBodyWithResponse ::
  "clientRuntime \<Rightarrow> replyDecoder \<Rightarrow> apiClient \<Rightarrow> uuid option option \<Rightarrow> string \<Rightarrow> string \<Rightarrow> requestEditor list \<Rightarrow>
    goerror + apiEvaluation clientResponse" where
  "CreateEvaluationWithBodyWithResponse rt d c params contentType body eds =
     rbind (client_CreateEvaluationWithBody rt c params contentType body eds) (ParseCreateEvaluationResponse d)"

definition CreateEvaluationWithResponse ::
  "clientRuntime \<Rightarrow> replyDecoder \<Rightarrow> apiClient \<Rightarrow> uuid option option \<Rightarrow> createBody \<Rightarrow> requestEditor list \<Rightarrow>
    goerror + apiEvaluation clientResponse" where
  "CreateEvaluationWithResponse rt d c params body eds =
     rbind (client_CreateEvaluation rt c params body eds) (ParseCreateEvaluationResponse d)"

definition GetEvaluationWithResponse ::
  "clientRuntime \<Rightarrow> replyDecoder \<Rightarrow> apiClient \<Rightarrow> uuid \<Rightarrow> requestEditor list \<Rightarrow> goerror + apiEvaluation clientResponse" where
  "GetEvaluationWithResponse rt d c evaluationId eds =
     rbind (client_GetEvaluation rt c evaluationId eds) (ParseGetEvaluationResponse d)"

definition SubmitFeedbackWithBodyWithResponse ::
  "clientRuntime \<Rightarrow> replyDecoder \<Rightarrow> apiClient \<Rightarrow> uuid \<Rightarrow> string \<Rightarrow> string \<Rightarrow> requestEditor list \<Rightarrow>
    goerror + apiFeedback clientResponse" where
  "SubmitFeedbackWithBodyWithResponse rt d c evaluationId contentType body eds =
     rbind (client_SubmitFeedbackWithBody rt c evaluationId contentType body eds) (ParseSubmitFeedbackResponse d)"

definition SubmitFeedbackWithResponse ::
  "clientRuntime \<Rightarrow> replyDecoder \<Rightarrow> apiClient \<Rightarrow> uuid \<Rightarrow> string \<times> string option \<Rightarrow> requestEditor list \<Rightarrow>
    goerror + apiFeedback clientResponse" where
  "SubmitFeedbackWithResponse rt d c evaluationId body eds =
     rbind (client_SubmitFeedback rt c evaluationId body eds) (ParseSubmitFeedbackResponse d)"

definition ListPoliciesWithResponse ::
  "clientRuntime \<Rightarrow> replyDecoder \<Rightarrow> apiClient \<Rightarrow> requestEditor list \<Rightarrow> goerror + apiPolicy list clientResponse" where
  "ListPoliciesWithResponse rt d c eds = rbind (client_ListPolicies rt c eds) (ParseListPoliciesResponse d)"

definition ValidatePolicyWithBodyWithResponse ::
  "clientRuntime \<Rightarrow> replyDecoder \<Rightarrow> apiClient \<Rightarrow> string \<Rightarrow> string \<Rightarrow> requestEditor list \<Rightarrow>
    goerror + PolicyValidation clientResponse" where
  "ValidatePolicyWithBodyWithResponse rt d c contentType body eds =
     rbind (client_ValidatePolicyWithBody rt c contentType body eds) (ParseValidatePolicyResponse d)"

definition ValidatePolicyWithResponse ::
  "clientRuntime \<Rightarrow> replyDecoder \<Rightarrow> apiClient \<Rightarrow> (string, goval) gomap \<Rightarrow> requestEditor list \<Rightarrow>
    goerror + PolicyValidation clientResponse" where
  "ValidatePolicyWithResponse rt d c body eds =
     rbind (client_ValidatePolicy rt c body eds) (ParseValidatePolicyResponse d)"

definition GetPolicyWithResponse ::
  "clientRuntime \<Rightarrow> replyDecoder \<Rightarrow> apiClient \<Rightarrow> string \<Rightarrow> string \<Rightarrow> requestEditor list \<Rightarrow> goerror + apiPolicy clientResponse" where
  "GetPolicyWithResponse rt d c policyName policyVersion eds =
     rbind (client_GetPolicy rt c policyName policyVersion eds) (ParseGetPolicyResponse d)"

section \<open>What the server receives\<close>

definition apiPatterns :: "string list" where
  "apiPatterns = [''GET /v1/evaluations'', ''POST /v1/evaluations'', ''GET /v1/evaluations/{evaluationId}'',
     ''POST /v1/evaluations/{evaluationId}/feedback'', ''GET /v1/policies'',
     ''GET /v1/policies/{policyName}/versions/{policyVersion}'', ''POST /v1/policies/validate'']"

lemma registered_patterns: "map fst (HandlerWithOptions env) = apiPatterns"
  by (simp add: HandlerWithOptions_def apiPatterns_def)

definition received :: "string list \<Rightarrow> wireRequest \<Rightarrow> httpReq" where
  "received patterns q =
     (let found = muxMatch patterns (wqMethod q) (urPath (wqURL q)) in
      \<lparr>hqMethod = wqMethod q, hqAuthorization = Header_Get (wqHeader q) ''Authorization'',
       hqRequestIDHeader = Header_Get (wqHeader q) ''X-Request-Id'', hqIdempotencyKey = map_of (wqHeader q) ''Idempotency-Key'',
       hqQuery = ParseQuery (urQuery (wqURL q)), hqPathValues = (case found of None \<Rightarrow> [] | Some (p, vs) \<Rightarrow> vs),
       hqScopeID = [], hqScopeRoute = [], hqPattern = (case found of None \<Rightarrow> [] | Some (p, vs) \<Rightarrow> p),
       hqBody = wqBody q, hqLimit = None\<rparr>)"

section \<open>The client's operations\<close>

datatype operation =
    OpList "listParams option"
  | OpCreate "uuid option option" createBody
  | OpGet uuid
  | OpFeedback uuid "string \<times> string option"
  | OpPolicies
  | OpValidate "(string, goval) gomap"
  | OpPolicy string string

definition noParams :: listParams where
  "noParams = \<lparr>lpLimit = None, lpOffset = None, lpPolicyName = None, lpPolicyVersion = None, lpOutcome = None, lpStatus = None\<rparr>"

fun build_request :: "clientRuntime \<Rightarrow> string \<Rightarrow> operation \<Rightarrow> goerror + wireRequest" where
  "build_request rt server (OpList params) = NewListEvaluationsRequest rt server params"
| "build_request rt server (OpCreate params body) = NewCreateEvaluationRequest rt server params body"
| "build_request rt server (OpGet i) = NewGetEvaluationRequest rt server i"
| "build_request rt server (OpFeedback i body) = NewSubmitFeedbackRequest rt server i body"
| "build_request rt server OpPolicies = NewListPoliciesRequest rt server"
| "build_request rt server (OpValidate body) = NewValidatePolicyRequest rt server body"
| "build_request rt server (OpPolicy name version) = NewGetPolicyRequest rt server name version"

text \<open>The operation of the server it is meant for, with its parameters.\<close>

fun performs :: "requestEnv \<Rightarrow> operation \<Rightarrow> handler" where
  "performs env (OpList params) = strict_ListEvaluations env (case params of None \<Rightarrow> noParams | Some p \<Rightarrow> p)"
| "performs env (OpCreate params body) = strict_CreateEvaluation env (case params of None \<Rightarrow> None | Some key \<Rightarrow> key)"
| "performs env (OpGet i) = strict_GetEvaluation env i"
| "performs env (OpFeedback i body) = strict_SubmitFeedback env i"
| "performs env OpPolicies = strict_ListPolicies env"
| "performs env (OpValidate body) = strict_ValidatePolicy env"
| "performs env (OpPolicy name version) = strict_GetPolicy env name version"

fun body_read :: "requestEnv \<Rightarrow> operation \<Rightarrow> string \<Rightarrow> bool" where
  "body_read env (OpCreate params body) text \<longleftrightarrow> bcCreate (reDecoder env) text = Some body"
| "body_read env (OpFeedback i body) text \<longleftrightarrow> bcFeedback (reDecoder env) text = Some body"
| "body_read env (OpValidate body) text \<longleftrightarrow> bcValidate (reDecoder env) text = Some body"
| "body_read env op text \<longleftrightarrow> text = []"

text \<open>
  What the libraries document: a path parameter is percent encoded, a query parameter is a name with
  its encoded value, a header is the value itself; binding undoes it, except that a path parameter,
  which is required, does not bind when it is empty. Printing a URL into a request and parsing it
  there keeps its path and its query when the URL stands under the server's own scheme and host and
  holds only escaped characters; of the host less is asked, since an empty port goes.
\<close>

definition clean_url :: "URL \<Rightarrow> bool" where
  "clean_url u \<longleftrightarrow> take 4 (urPath u) = ''/v1/'' \<and> unescape False (urPath u) \<noteq> None \<and>
     list_all (\<lambda>c. c \<in> {CHR ''/'', CHR ''%''} \<or> keepPath c) (urPath u) \<and>
     list_all (\<lambda>c. c = CHR ''%'' \<or> keepPath c) (urQuery u)"

definition runtime_ok :: "clientRuntime \<Rightarrow> paramBinding \<Rightarrow> bool" where
  "runtime_ok rt b \<longleftrightarrow>
     (\<forall>server base u. crURLParse rt server = Inr base \<and> urScheme u = urScheme base \<and> urHost u = urHost base \<and> clean_url u \<longrightarrow>
        (\<exists>u'. crNewRequest rt u = Inr u' \<and> urPath u' = urPath u \<and> urQuery u' = urQuery u)) \<and>
     (\<forall>n v. crPath rt n v = Inr (PathEscape v)) \<and> (\<forall>n v. crHeader rt n v = Inr v) \<and>
     (\<forall>n i. crQueryInt rt n i = Inr (QueryEscape n @ ''='' @ QueryEscape (Itoa i))) \<and>
     (\<forall>n v. crQueryString rt n v = Inr (QueryEscape n @ ''='' @ QueryEscape v)) \<and>
     bdInt b None = Inr None \<and> (\<forall>i. in_int64 i \<longrightarrow> bdInt b (Some [Itoa i]) = Inr (Some i)) \<and>
     bdString b None = Inr None \<and> (\<forall>v. bdString b (Some [v]) = Inr (Some v)) \<and> (\<forall>v. v \<noteq> [] \<longrightarrow> bdPath b v = Inr v)"

text \<open>A value that can be a segment of its own in a path.\<close>

definition segment_ok :: "string \<Rightarrow> bool" where
  "segment_ok v \<longleftrightarrow> v \<notin> {[], ''.'', ''..'', ''/''}"

fun op_ok :: "clientRuntime \<Rightarrow> requestEnv \<Rightarrow> operation \<Rightarrow> bool" where
  "op_ok rt env (OpList params) \<longleftrightarrow> (\<forall>p \<in> set_option params.
     (\<forall>i \<in> set_option (lpLimit p). in_int64 i) \<and> (\<forall>i \<in> set_option (lpOffset p). in_int64 i))"
| "op_ok rt env (OpCreate params body) \<longleftrightarrow>
     (\<exists>text. crCreate rt body = Inr text \<and> bcCreate (reDecoder env) text = Some body) \<and>
     (\<forall>key. params = Some (Some key) \<longrightarrow> bdUUID (reBinding env) key = Inr key)"
| "op_ok rt env (OpGet i) \<longleftrightarrow> segment_ok i \<and> bdUUID (reBinding env) i = Inr i"
| "op_ok rt env (OpFeedback i body) \<longleftrightarrow> segment_ok i \<and> bdUUID (reBinding env) i = Inr i \<and>
     (\<exists>text. crFeedback rt body = Inr text \<and> bcFeedback (reDecoder env) text = Some body)"
| "op_ok rt env OpPolicies \<longleftrightarrow> True"
| "op_ok rt env (OpValidate body) \<longleftrightarrow> (\<exists>text. crValidate rt body = Inr text \<and> bcValidate (reDecoder env) text = Some body)"
| "op_ok rt env (OpPolicy name version) \<longleftrightarrow> segment_ok name \<and> segment_ok version"

section \<open>From the client to the operation\<close>

definition path_elem :: "string \<Rightarrow> bool" where
  "path_elem e \<longleftrightarrow> plain_elem e \<and> unescape False e \<noteq> None \<and>
     list_all (\<lambda>c. c = CHR ''%'' \<or> keepPath c) e"

lemma path_elem_char: "c = CHR ''%'' \<or> keepPath c \<Longrightarrow> c \<noteq> CHR ''?'' \<and> c \<noteq> CHR ''#'' \<and> 32 < byte c \<and> byte c < 127"
proof -
  have "32 < byte (CHR ''%'') \<and> byte (CHR ''%'') < 127" by code_simp
  then show "c = CHR ''%'' \<or> keepPath c \<Longrightarrow> ?thesis" using kept_not_special(1) [of c] by auto
qed

lemma path_elem_escape: "segment_ok s \<Longrightarrow> path_elem (PathEscape s)"
  using PathEscape_chars [of _ s] by (auto simp: path_elem_def segment_ok_def plain_PathEscape list_all_iff)

lemma path_elem_words:
  "path_elem ''evaluations''" "path_elem ''feedback''" "path_elem ''policies''" "path_elem ''validate''" "path_elem ''versions''"
  "path_elem ''v1''"
  by (code_simp, code_simp, code_simp, code_simp, code_simp, code_simp)

lemma unescape_append: "unescape q s = Some t \<Longrightarrow> unescape q (s @ u) = map_option (append t) (unescape q u)"
proof (induction q s arbitrary: t rule: unescape.induct)
  case (2 q c cs)
  then show ?case
    by (cases "unescape q u") (auto split: if_splits list.splits option.splits)
next
  case (1 q)
  then show ?case by (cases "unescape q u") simp_all
qed

lemma unescape_Join: "list_all (\<lambda>e. unescape False e \<noteq> None) es \<Longrightarrow> unescape False (Join (CHR ''/'') es) \<noteq> None"
  by (induction "CHR ''/''" es rule: Join.induct) (auto simp: unescape_append)

lemma Join_chars: "x \<in> set (Join c es) \<Longrightarrow> x = c \<or> (\<exists>e \<in> set es. x \<in> set e)"
  by (induction c es rule: Join.induct) auto

lemma operationURL_plain:
  assumes "crURLParse rt server = Inr base" and "urPath base = ''/v1/''" and "list_all path_elem es" and "es \<noteq> []"
  shows "operationURL rt server (CHR ''/'' # Join (CHR ''/'') es) =
    Inr (base\<lparr>urPath := CHR ''/'' # Join (CHR ''/'') (''v1'' # es), urQuery := []\<rparr>)"
proof -
  let ?ref = "''./'' @ Join (CHR ''/'') es"
  have elems: "list_all plain_elem es" "list_all (\<lambda>e. unescape False e \<noteq> None) es"
    using assms(3) by (simp_all add: list_all_iff path_elem_def)
  have chars: "x \<noteq> CHR ''?'' \<and> x \<noteq> CHR ''#'' \<and> 32 < byte x \<and> byte x < 127" if "x \<in> set ?ref" for x
  proof -
    have "x \<in> {CHR ''.'', CHR ''/''} \<or> (\<exists>e \<in> set es. x \<in> set e)" using that by (auto dest: Join_chars)
    moreover have "\<forall>y \<in> {CHR ''.'', CHR ''/''}. y \<noteq> CHR ''?'' \<and> y \<noteq> CHR ''#'' \<and> 32 < byte y \<and> byte y < 127" by code_simp
    moreover have "x \<noteq> CHR ''?'' \<and> x \<noteq> CHR ''#'' \<and> 32 < byte x \<and> byte x < 127" if "e \<in> set es" "x \<in> set e" for e
      using assms(3) that by (intro path_elem_char) (simp add: list_all_iff path_elem_def)
    ultimately show ?thesis by blast
  qed
  have "unescape False ?ref \<noteq> None" using unescape_Join [OF elems(2)] by simp
  moreover have "Cut (CHR ''#'') ?ref = (?ref, [])" "Cut (CHR ''?'') ?ref = (?ref, [])"
    by (rule Cut_plain, use chars in blast)+
  moreover have "\<not> list_ex (\<lambda>c. byte c < 32 \<or> byte c = 127) ?ref"
    unfolding list_ex_iff using chars by (metis less_irrefl less_trans)
  ultimately have ref: "parseReference ?ref = Some (?ref, [])" by (simp add: parseReference_def)
  have "plain_elem ''v1''" by code_simp
  then have "resolvePath ''/v1/'' ?ref = CHR ''/'' # Join (CHR ''/'') (''v1'' # es)"
    using resolve_relative [OF elems(1) assms(4), of "[''v1'']"] by simp
  then show ?thesis using ref assms(1, 2) by (simp add: operationURL_def ResolveReference_def)
qed

lemma patterns_parsed:
  "parsePattern ''GET /v1/evaluations'' = (''GET'', [Literal ''v1'', Literal ''evaluations''])"
  "parsePattern ''POST /v1/evaluations'' = (''POST'', [Literal ''v1'', Literal ''evaluations''])"
  "parsePattern ''GET /v1/evaluations/{evaluationId}'' = (''GET'', [Literal ''v1'', Literal ''evaluations'', Wildcard ''evaluationId''])"
  "parsePattern ''POST /v1/evaluations/{evaluationId}/feedback'' =
     (''POST'', [Literal ''v1'', Literal ''evaluations'', Wildcard ''evaluationId'', Literal ''feedback''])"
  "parsePattern ''GET /v1/policies'' = (''GET'', [Literal ''v1'', Literal ''policies''])"
  "parsePattern ''GET /v1/policies/{policyName}/versions/{policyVersion}'' =
     (''GET'', [Literal ''v1'', Literal ''policies'', Wildcard ''policyName'', Literal ''versions'', Wildcard ''policyVersion''])"
  "parsePattern ''POST /v1/policies/validate'' = (''POST'', [Literal ''v1'', Literal ''policies'', Literal ''validate''])"
  by (code_simp, code_simp, code_simp, code_simp, code_simp, code_simp, code_simp)

lemma words_unescaped [simp]:
  "pathUnescape ''v1'' = ''v1''" "pathUnescape ''evaluations'' = ''evaluations''" "pathUnescape ''feedback'' = ''feedback''"
  "pathUnescape ''policies'' = ''policies''" "pathUnescape ''validate'' = ''validate''" "pathUnescape ''versions'' = ''versions''"
  by (code_simp, code_simp, code_simp, code_simp, code_simp, code_simp)

lemma path_elem_plain: "path_elem e \<Longrightarrow> plain_elem e"
  by (simp add: path_elem_def)

lemma routes:
  "muxMatch apiPatterns ''GET'' (CHR ''/'' # Join (CHR ''/'') [''v1'', ''evaluations'']) = Some (''GET /v1/evaluations'', [])"
  "muxMatch apiPatterns ''POST'' (CHR ''/'' # Join (CHR ''/'') [''v1'', ''evaluations'']) = Some (''POST /v1/evaluations'', [])"
  "muxMatch apiPatterns ''GET'' (CHR ''/'' # Join (CHR ''/'') [''v1'', ''policies'']) = Some (''GET /v1/policies'', [])"
  "muxMatch apiPatterns ''POST'' (CHR ''/'' # Join (CHR ''/'') [''v1'', ''policies'', ''validate'']) =
     Some (''POST /v1/policies/validate'', [])"
  "segment_ok i \<Longrightarrow> muxMatch apiPatterns ''GET'' (CHR ''/'' # Join (CHR ''/'') [''v1'', ''evaluations'', PathEscape i]) =
     Some (''GET /v1/evaluations/{evaluationId}'', [(''evaluationId'', i)])"
  "segment_ok i \<Longrightarrow> muxMatch apiPatterns ''POST'' (CHR ''/'' # Join (CHR ''/'') [''v1'', ''evaluations'', PathEscape i, ''feedback'']) =
     Some (''POST /v1/evaluations/{evaluationId}/feedback'', [(''evaluationId'', i)])"
  "segment_ok n \<Longrightarrow> segment_ok v \<Longrightarrow>
     muxMatch apiPatterns ''GET'' (CHR ''/'' # Join (CHR ''/'') [''v1'', ''policies'', PathEscape n, ''versions'', PathEscape v]) =
     Some (''GET /v1/policies/{policyName}/versions/{policyVersion}'', [(''policyName'', n), (''policyVersion'', v)])"
proof -
  note go = muxMatch_plain path_elem_plain [OF path_elem_words(1)] path_elem_plain [OF path_elem_words(2)]
    path_elem_plain [OF path_elem_words(3)] path_elem_plain [OF path_elem_words(4)] path_elem_plain [OF path_elem_words(5)]
    path_elem_plain [OF path_elem_words(6)] path_elem_plain [OF path_elem_escape]
  show "muxMatch apiPatterns ''GET'' (CHR ''/'' # Join (CHR ''/'') [''v1'', ''evaluations'']) = Some (''GET /v1/evaluations'', [])"
    "muxMatch apiPatterns ''POST'' (CHR ''/'' # Join (CHR ''/'') [''v1'', ''evaluations'']) = Some (''POST /v1/evaluations'', [])"
    "muxMatch apiPatterns ''GET'' (CHR ''/'' # Join (CHR ''/'') [''v1'', ''policies'']) = Some (''GET /v1/policies'', [])"
    "muxMatch apiPatterns ''POST'' (CHR ''/'' # Join (CHR ''/'') [''v1'', ''policies'', ''validate'']) =
       Some (''POST /v1/policies/validate'', [])"
    by (simp_all add: go apiPatterns_def patterns_parsed del: Join.simps)
  show "segment_ok i \<Longrightarrow> muxMatch apiPatterns ''GET'' (CHR ''/'' # Join (CHR ''/'') [''v1'', ''evaluations'', PathEscape i]) =
      Some (''GET /v1/evaluations/{evaluationId}'', [(''evaluationId'', i)])"
    "segment_ok i \<Longrightarrow> muxMatch apiPatterns ''POST'' (CHR ''/'' # Join (CHR ''/'') [''v1'', ''evaluations'', PathEscape i, ''feedback'']) =
      Some (''POST /v1/evaluations/{evaluationId}/feedback'', [(''evaluationId'', i)])"
    by (simp_all add: go apiPatterns_def patterns_parsed segment_ok_def del: Join.simps)
  show "segment_ok n \<Longrightarrow> segment_ok v \<Longrightarrow>
      muxMatch apiPatterns ''GET'' (CHR ''/'' # Join (CHR ''/'') [''v1'', ''policies'', PathEscape n, ''versions'', PathEscape v]) =
      Some (''GET /v1/policies/{policyName}/versions/{policyVersion}'', [(''policyName'', n), (''policyVersion'', v)])"
    by (simp add: go apiPatterns_def patterns_parsed segment_ok_def del: Join.simps)
qed

text \<open>The query of a listing holds the given parameters and nothing else.\<close>

definition optional :: "string \<Rightarrow> string option \<Rightarrow> (string \<times> string) list" where
  "optional n x = (case x of None \<Rightarrow> [] | Some v \<Rightarrow> [(n, v)])"

definition list_values :: "listParams \<Rightarrow> (string \<times> string) list" where
  "list_values p = optional ''limit'' (map_option Itoa (lpLimit p)) @ optional ''offset'' (map_option Itoa (lpOffset p)) @
     optional ''policyName'' (lpPolicyName p) @ optional ''policyVersion'' (lpPolicyVersion p) @
     optional ''outcome'' (lpOutcome p) @ optional ''status'' (lpStatus p)"

definition query_part :: "string \<times> string \<Rightarrow> string" where
  "query_part = (\<lambda>(k, v). k @ ''='' @ QueryEscape v)"

lemma map_of_optional [simp]: "map_of (optional n x) k = (if k = n then x else None)"
  by (simp add: optional_def split: option.split)

lemma styled_part:
  assumes "list_all unreserved n"
  shows "styled (\<lambda>v. Inr (QueryEscape n @ ''='' @ QueryEscape (f v))) param fs =
    Inr (fs @ map query_part (optional n (map_option f param)))"
proof -
  have "CHR ''&'' \<notin> set n" using assms kept_not_special(2) [of "CHR ''&''"] by (auto simp: list_all_iff)
  moreover have "CHR ''&'' \<notin> set (QueryEscape s)" for s using QueryEscape_chars by blast
  ultimately have "CHR ''&'' \<notin> set (n @ ''='' @ QueryEscape s)" for s by simp
  then show ?thesis
    by (simp add: styled_def optional_def query_part_def QueryEscape_plain [OF assms] Split_plain split: option.split)
qed

lemma listQuery_values:
  assumes "runtime_ok rt b"
  shows "listQuery rt p [] = Inr (Join (CHR ''&'') (map query_part (list_values p)))"
proof -
  have names: "list_all unreserved ''limit''" "list_all unreserved ''offset''" "list_all unreserved ''policyName''"
    "list_all unreserved ''policyVersion''" "list_all unreserved ''outcome''" "list_all unreserved ''status''"
    by (code_simp, code_simp, code_simp, code_simp, code_simp, code_simp)
  have int: "crQueryInt rt n = (\<lambda>i. Inr (QueryEscape n @ ''='' @ QueryEscape (Itoa i)))" for n
    using assms by (simp add: runtime_ok_def fun_eq_iff)
  have str: "crQueryString rt n = (\<lambda>v. Inr (QueryEscape n @ ''='' @ QueryEscape (id v)))" for n
    using assms by (simp add: runtime_ok_def fun_eq_iff)
  have "Values_Encode (ParseQuery []) = []" by (simp add: ParseQuery_def queryPart_def Values_Encode_def)
  then show ?thesis
    unfolding listQuery_def int str
    by (simp only: styled_part [OF names(1)] styled_part [OF names(2)] styled_part [OF names(3)] styled_part [OF names(4)]
        styled_part [OF names(5)] styled_part [OF names(6)] rbind_simps)
      (simp add: list_values_def option.map_id0)
qed

lemma list_query_chars: "list_all (\<lambda>c. c = CHR ''%'' \<or> keepPath c) (Join (CHR ''&'') (map query_part (list_values p)))"
proof -
  have "\<forall>n \<in> {''limit'', ''offset'', ''policyName'', ''policyVersion'', ''outcome'', ''status''}. list_all keepPath n" by code_simp
  then have names: "list_all keepPath k" if "(k, v) \<in> set (list_values p)" for k v
    using that by (auto simp: list_values_def optional_def split: option.splits)
  have marks: "keepPath (CHR ''+'')" "keepPath (CHR ''='')" "keepPath (CHR ''&'')" by (code_simp, code_simp, code_simp)
  have escaped: "c = CHR ''%'' \<or> keepPath c" if "c \<in> set (QueryEscape s)" for c s
    using that marks by (auto simp: QueryEscape_def keepPath_def dest: escapeByte_chars split: if_splits)
  have "c = CHR ''%'' \<or> keepPath c" if "c \<in> set (Join (CHR ''&'') (map query_part (list_values p)))" for c
    using Join_chars [OF that] marks names escaped by (fastforce simp: query_part_def list_all_iff)
  then show ?thesis by (simp add: list_all_iff)
qed

lemma list_values_received:
  "map_of (ParseQuery (Join (CHR ''&'') (map query_part (list_values p)))) k = map_option (\<lambda>v. [v]) (map_of (list_values p) k)"
proof -
  have "distinct (map fst (list_values p))" by (simp add: list_values_def optional_def split: option.split)
  moreover have "list_all (\<lambda>k. list_all unreserved k) [''limit'', ''offset'', ''policyName'', ''policyVersion'', ''outcome'', ''status'']"
    by code_simp
  then have "\<forall>(k, v) \<in> set (list_values p). list_all unreserved k"
    by (auto simp: list_values_def optional_def split: option.splits)
  ultimately have "ParseQuery (Join (CHR ''&'') (map query_part (list_values p))) = map (\<lambda>(k, v). (k, [v])) (list_values p)"
    unfolding query_part_def by (rule ParseQuery_built)
  then show ?thesis by (simp add: map_of_map)
qed

lemma list_params_bind:
  assumes "runtime_ok rt b" and "\<forall>i \<in> set_option (lpLimit p). in_int64 i" and "\<forall>i \<in> set_option (lpOffset p). in_int64 i"
    and "hqQuery r = ParseQuery (Join (CHR ''&'') (map query_part (list_values p)))"
  shows "bindListParams b r = Inr p"
proof -
  have at: "map_of (hqQuery r) k = map_option (\<lambda>v. [v]) (map_of (list_values p) k)" for k
    unfolding assms(4) by (rule list_values_received)
  have look: "map_of (list_values p) ''limit'' = map_option Itoa (lpLimit p)" "map_of (list_values p) ''offset'' = map_option Itoa (lpOffset p)"
    "map_of (list_values p) ''policyName'' = lpPolicyName p" "map_of (list_values p) ''policyVersion'' = lpPolicyVersion p"
    "map_of (list_values p) ''outcome'' = lpOutcome p" "map_of (list_values p) ''status'' = lpStatus p"
    by (simp_all add: list_values_def map_add_def split: option.split)
  have int: "bdInt b (map_option (\<lambda>v. [v]) (map_option Itoa x)) = Inr x" if "\<forall>i \<in> set_option x. in_int64 i" for x
    using assms(1) that by (cases x) (simp_all add: runtime_ok_def)
  have str: "bdString b (map_option (\<lambda>v. [v]) x) = Inr x" for x
    using assms(1) by (cases x) (simp_all add: runtime_ok_def)
  show ?thesis by (simp add: bindListParams_def at look int [OF assms(2)] int [OF assms(3)] str)
qed

text \<open>
  The request of every operation, once built, reaches the server's handler of that operation with
  the parameters the caller gave, and its body reads as the caller's.
\<close>

lemma routed_request:
  assumes "muxMatch apiPatterns (wqMethod q) (urPath (wqURL q)) = Some (p, vs)"
  shows "hqPattern (received apiPatterns q) = p" "hqPathValues (received apiPatterns q) = vs"
    "hqQuery (received apiPatterns q) = ParseQuery (urQuery (wqURL q))" "hqBody (received apiPatterns q) = wqBody q"
    "hqIdempotencyKey (received apiPatterns q) = map_of (wqHeader q) ''Idempotency-Key''"
  using assms by (simp_all add: received_def Let_def)

lemma Router_bound_at:
  "hqPattern r = ''GET /v1/evaluations'' \<Longrightarrow> bindListParams (reBinding env) r = Inr params \<Longrightarrow>
     Router_Handler env r = apiChain env (strict_ListEvaluations env params) r"
  "hqPattern r = ''POST /v1/evaluations'' \<Longrightarrow> bindIdempotencyKey (reBinding env) r = Inr key \<Longrightarrow>
     Router_Handler env r = apiChain env (strict_CreateEvaluation env key) r"
  "hqPattern r = ''GET /v1/evaluations/{evaluationId}'' \<Longrightarrow> bdUUID (reBinding env) (PathValue r ''evaluationId'') = Inr i \<Longrightarrow>
     Router_Handler env r = apiChain env (strict_GetEvaluation env i) r"
  "hqPattern r = ''POST /v1/evaluations/{evaluationId}/feedback'' \<Longrightarrow> bdUUID (reBinding env) (PathValue r ''evaluationId'') = Inr i \<Longrightarrow>
     Router_Handler env r = apiChain env (strict_SubmitFeedback env i) r"
  "hqPattern r = ''GET /v1/policies'' \<Longrightarrow> Router_Handler env r = apiChain env (strict_ListPolicies env) r"
  "hqPattern r = ''GET /v1/policies/{policyName}/versions/{policyVersion}'' \<Longrightarrow> bindPolicyRef (reBinding env) r = Inr (n, v) \<Longrightarrow>
     Router_Handler env r = apiChain env (strict_GetPolicy env n v) r"
  "hqPattern r = ''POST /v1/policies/validate'' \<Longrightarrow> Router_Handler env r = apiChain env (strict_ValidatePolicy env) r"
  by (rule ext, simp add: Router_Handler_def HandlerWithOptions_def siw_ListEvaluations_def siw_CreateEvaluation_def
      siw_GetEvaluation_def siw_SubmitFeedback_def siw_ListPolicies_def siw_GetPolicy_def siw_ValidatePolicy_def bound_def)+

definition speaks_to :: "clientRuntime \<Rightarrow> requestEnv \<Rightarrow> string \<Rightarrow> URL \<Rightarrow> bool" where
  "speaks_to rt env server base \<longleftrightarrow>
     runtime_ok rt (reBinding env) \<and> crURLParse rt server = Inr base \<and> urPath base = ''/v1/''"

definition v1 :: "URL \<Rightarrow> string list \<Rightarrow> URL" where
  "v1 base es = base\<lparr>urPath := CHR ''/'' # Join (CHR ''/'') (''v1'' # es), urQuery := []\<rparr>"

lemma v1_path [simp]: "urPath (v1 base es) = CHR ''/'' # Join (CHR ''/'') (''v1'' # es)" "urQuery (v1 base es) = []"
  by (simp_all add: v1_def del: Join.simps)

lemma speaks_basics:
  assumes "speaks_to rt env server base"
  shows "crPath rt n v = Inr (PathEscape v)" and "crHeader rt n v = Inr v"
    and "v \<noteq> [] \<Longrightarrow> bdPath (reBinding env) v = Inr v" and "runtime_ok rt (reBinding env)"
proof -
  show rt: "runtime_ok rt (reBinding env)" using assms by (simp add: speaks_to_def)
  show "crPath rt n v = Inr (PathEscape v)" "crHeader rt n v = Inr v" "v \<noteq> [] \<Longrightarrow> bdPath (reBinding env) v = Inr v"
    using rt by (simp_all add: runtime_ok_def)
qed

text \<open>The request made for a URL of an operation carries its path and query.\<close>

lemma v1_clean: "list_all path_elem es \<Longrightarrow> es \<noteq> [] \<Longrightarrow> clean_url (v1 base es)"
proof -
  assume es: "list_all path_elem es" "es \<noteq> []"
  have all: "list_all path_elem (''v1'' # es)" using es(1) path_elem_words(6) by simp
  have "unescape False (Join (CHR ''/'') (''v1'' # es)) \<noteq> None"
    using all by (intro unescape_Join) (simp add: list_all_iff path_elem_def)
  moreover have "c \<in> {CHR ''/'', CHR ''%''} \<or> keepPath c" if "c \<in> set (Join (CHR ''/'') (''v1'' # es))" for c
  proof -
    from Join_chars [OF that] consider "c = CHR ''/''" | e where "e \<in> set (''v1'' # es)" "c \<in> set e" by blast
    then show ?thesis
    proof cases
      case 2
      then have "list_all (\<lambda>c. c = CHR ''%'' \<or> keepPath c) e" using all unfolding list_all_iff path_elem_def by blast
      with 2(2) show ?thesis unfolding list_all_iff by blast
    qed simp
  qed
  moreover have "Join (CHR ''/'') (''v1'' # es) = ''v1/'' @ Join (CHR ''/'') es" using es(2) by (simp add: Join_Cons)
  ultimately show ?thesis by (simp add: clean_url_def list_all_iff)
qed

lemma request_made:
  assumes "speaks_to rt env server base" and "list_all path_elem es" and "es \<noteq> []"
    and "list_all (\<lambda>c. c = CHR ''%'' \<or> keepPath c) query"
  shows "\<exists>u'. (\<forall>verb body. newRequest rt verb ((v1 base es)\<lparr>urQuery := query\<rparr>) body =
      Inr \<lparr>wqMethod = verb, wqURL = u', wqHeader = [], wqBody = body\<rparr>) \<and>
    urPath u' = CHR ''/'' # Join (CHR ''/'') (''v1'' # es) \<and> urQuery u' = query"
proof -
  let ?u = "(v1 base es)\<lparr>urQuery := query\<rparr>"
  have u: "urScheme ?u = urScheme base" "urHost ?u = urHost base" "clean_url ?u"
    using v1_clean [OF assms(2, 3), of base] assms(4) by (simp_all add: v1_def clean_url_def)
  have base: "crURLParse rt server = Inr base" using assms(1) by (simp add: speaks_to_def)
  have law: "crURLParse rt server = Inr base \<and> urScheme u = urScheme base \<and> urHost u = urHost base \<and> clean_url u \<longrightarrow>
      (\<exists>u'. crNewRequest rt u = Inr u' \<and> urPath u' = urPath u \<and> urQuery u' = urQuery u)" for u
    using speaks_basics(4) [OF assms(1)] unfolding runtime_ok_def by (elim conjE) (erule allE)+
  obtain u' where "crNewRequest rt ?u = Inr u'" "urPath u' = urPath ?u" "urQuery u' = urQuery ?u"
    using law [of ?u] base u by blast
  then show ?thesis by (intro exI [of _ u']) (simp add: newRequest_def del: Join.simps)
qed

lemma request_made_plain:
  assumes "speaks_to rt env server base" and "list_all path_elem es" and "es \<noteq> []"
  shows "\<exists>u'. (\<forall>verb body. newRequest rt verb (v1 base es) body =
      Inr \<lparr>wqMethod = verb, wqURL = u', wqHeader = [], wqBody = body\<rparr>) \<and>
    urPath u' = CHR ''/'' # Join (CHR ''/'') (''v1'' # es)"
proof -
  have same: "(v1 base es)\<lparr>urQuery := []\<rparr> = v1 base es" by (simp add: v1_def)
  have "list_all (\<lambda>c. c = CHR ''%'' \<or> keepPath c) []" by simp
  from request_made [OF assms this] show ?thesis unfolding same by blast
qed

lemma operation_urls:
  assumes "speaks_to rt env server base"
  shows "operationURL rt server ''/evaluations'' = Inr (v1 base [''evaluations''])"
    and "operationURL rt server ''/policies'' = Inr (v1 base [''policies''])"
    and "operationURL rt server ''/policies/validate'' = Inr (v1 base [''policies'', ''validate''])"
    and "segment_ok i \<Longrightarrow> operationURL rt server (''/evaluations/'' @ PathEscape i) = Inr (v1 base [''evaluations'', PathEscape i])"
    and "segment_ok i \<Longrightarrow> operationURL rt server (''/evaluations/'' @ PathEscape i @ ''/feedback'') =
      Inr (v1 base [''evaluations'', PathEscape i, ''feedback''])"
    and "segment_ok n \<Longrightarrow> segment_ok v \<Longrightarrow> operationURL rt server (''/policies/'' @ PathEscape n @ ''/versions/'' @ PathEscape v) =
      Inr (v1 base [''policies'', PathEscape n, ''versions'', PathEscape v])"
proof -
  have url: "list_all path_elem es \<Longrightarrow> es \<noteq> [] \<Longrightarrow> operationURL rt server (CHR ''/'' # Join (CHR ''/'') es) = Inr (v1 base es)" for es
    using assms operationURL_plain [of rt server base es] by (simp add: speaks_to_def v1_def)
  show "operationURL rt server ''/evaluations'' = Inr (v1 base [''evaluations''])"
    "operationURL rt server ''/policies'' = Inr (v1 base [''policies''])"
    "operationURL rt server ''/policies/validate'' = Inr (v1 base [''policies'', ''validate''])"
    using url [of "[''evaluations'']"] url [of "[''policies'']"] url [of "[''policies'', ''validate'']"] path_elem_words by simp_all
  show "operationURL rt server (''/evaluations/'' @ PathEscape i) = Inr (v1 base [''evaluations'', PathEscape i])" if "segment_ok i"
    using url [of "[''evaluations'', PathEscape i]"] path_elem_words path_elem_escape [OF that] by simp
  show "operationURL rt server (''/evaluations/'' @ PathEscape i @ ''/feedback'') =
      Inr (v1 base [''evaluations'', PathEscape i, ''feedback''])" if "segment_ok i"
    using url [of "[''evaluations'', PathEscape i, ''feedback'']"] path_elem_words path_elem_escape [OF that] by simp
  show "operationURL rt server (''/policies/'' @ PathEscape n @ ''/versions/'' @ PathEscape v) =
      Inr (v1 base [''policies'', PathEscape n, ''versions'', PathEscape v])" if "segment_ok n" "segment_ok v"
    using url [of "[''policies'', PathEscape n, ''versions'', PathEscape v]"]
      path_elem_words path_elem_escape [OF that(1)] path_elem_escape [OF that(2)] by simp
qed

text \<open>An operation is reached when its request is built, read and routed as it was meant.\<close>

definition reached :: "clientRuntime \<Rightarrow> requestEnv \<Rightarrow> string \<Rightarrow> operation \<Rightarrow> bool" where
  "reached rt env server op \<longleftrightarrow> (\<exists>q. build_request rt server op = Inr q \<and> body_read env op (hqBody (received apiPatterns q)) \<and>
     Router_Handler env (received apiPatterns q) = apiChain env (performs env op) (received apiPatterns q))"

lemma reached_list:
  assumes "speaks_to rt env server base" and "op_ok rt env (OpList params)"
  shows "reached rt env server (OpList params)"
proof -
  let ?query = "case params of None \<Rightarrow> [] | Some p \<Rightarrow> Join (CHR ''&'') (map query_part (list_values p))"
  note rt = speaks_basics [OF assms(1)] operation_urls [OF assms(1)]
  have chars: "list_all (\<lambda>c. c = CHR ''%'' \<or> keepPath c) ?query"
    using list_query_chars by (simp split: option.split)
  have es: "list_all path_elem [''evaluations'']" "[''evaluations''] \<noteq> []" using path_elem_words by simp_all
  obtain u' where u': "\<forall>verb body. newRequest rt verb ((v1 base [''evaluations''])\<lparr>urQuery := ?query\<rparr>) body =
      Inr \<lparr>wqMethod = verb, wqURL = u', wqHeader = [], wqBody = body\<rparr>"
    "urPath u' = CHR ''/'' # Join (CHR ''/'') [''v1'', ''evaluations'']" "urQuery u' = ?query"
    using request_made [OF assms(1) es chars] by blast
  let ?q = "\<lparr>wqMethod = ''GET'', wqURL = u', wqHeader = [], wqBody = []\<rparr>"
  have "NewListEvaluationsRequest rt server params = Inr ?q"
    using u'(1) by (cases params) (simp_all add: NewListEvaluationsRequest_def rt listQuery_values [OF rt(4)] v1_def)
  moreover have m: "muxMatch apiPatterns (wqMethod ?q) (urPath (wqURL ?q)) = Some (''GET /v1/evaluations'', [])"
    using routes(1) u'(2) by (simp del: Join.simps)
  moreover have "bindListParams (reBinding env) (received apiPatterns ?q) = Inr (case params of None \<Rightarrow> noParams | Some p \<Rightarrow> p)"
  proof (rule list_params_bind [OF rt(4)])
    show "hqQuery (received apiPatterns ?q) =
        ParseQuery (Join (CHR ''&'') (map query_part (list_values (case params of None \<Rightarrow> noParams | Some p \<Rightarrow> p))))"
      unfolding routed_request(3) [OF m] using u'(3) by (cases params) (simp_all add: list_values_def noParams_def optional_def)
  qed (use assms(2) in \<open>auto simp: noParams_def split: option.splits\<close>)
  ultimately show ?thesis
    using Router_bound_at(1) [OF routed_request(1) [OF m]] routed_request(4) [OF m] by (simp add: reached_def)
qed

lemma reached_create:
  assumes "speaks_to rt env server base" and "op_ok rt env (OpCreate params body)"
  shows "reached rt env server (OpCreate params body)"
proof -
  obtain enc where enc: "crCreate rt body = Inr enc" "bcCreate (reDecoder env) enc = Some body" using assms(2) by auto
  let ?key = "case params of None \<Rightarrow> None | Some key \<Rightarrow> key"
  have es: "list_all path_elem [''evaluations'']" "[''evaluations''] \<noteq> []" using path_elem_words by simp_all
  obtain u' where u': "\<forall>verb body. newRequest rt verb (v1 base [''evaluations'']) body =
      Inr \<lparr>wqMethod = verb, wqURL = u', wqHeader = [], wqBody = body\<rparr>"
    "urPath u' = CHR ''/'' # Join (CHR ''/'') (''v1'' # [''evaluations''])"
    using request_made_plain [OF assms(1) es] by blast
  let ?q = "\<lparr>wqMethod = ''POST'', wqURL = u', wqHeader = (''Content-Type'', [''application/json'']) #
      (case ?key of None \<Rightarrow> [] | Some key \<Rightarrow> [(''Idempotency-Key'', [key])]), wqBody = enc\<rparr>"
  note rt = speaks_basics [OF assms(1)] operation_urls [OF assms(1)]
  have "NewCreateEvaluationRequest rt server params body = Inr ?q"
    by (simp add: NewCreateEvaluationRequest_def NewCreateEvaluationRequestWithBody_def enc rt u' withContentType_def Header_Add_def
        split: option.split)
  moreover have m: "muxMatch apiPatterns (wqMethod ?q) (urPath (wqURL ?q)) = Some (''POST /v1/evaluations'', [])"
    using routes(2) u'(2) by (simp del: Join.simps)
  moreover have "bindIdempotencyKey (reBinding env) (received apiPatterns ?q) = Inr ?key"
    unfolding bindIdempotencyKey_def routed_request(5) [OF m] using assms(2) by (auto split: option.splits)
  ultimately show ?thesis
    using Router_bound_at(2) [OF routed_request(1) [OF m]] routed_request(4) [OF m] enc by (simp add: reached_def)
qed

lemma reached_get:
  assumes "speaks_to rt env server base" and "op_ok rt env (OpGet i)"
  shows "reached rt env server (OpGet i)"
proof -
  have i: "segment_ok i" "bdUUID (reBinding env) i = Inr i" using assms(2) by simp_all
  have es: "list_all path_elem [''evaluations'', PathEscape i]" "[''evaluations'', PathEscape i] \<noteq> []" using path_elem_words path_elem_escape [OF i(1)] by simp_all
  obtain u' where u': "\<forall>verb body. newRequest rt verb (v1 base [''evaluations'', PathEscape i]) body =
      Inr \<lparr>wqMethod = verb, wqURL = u', wqHeader = [], wqBody = body\<rparr>"
    "urPath u' = CHR ''/'' # Join (CHR ''/'') (''v1'' # [''evaluations'', PathEscape i])"
    using request_made_plain [OF assms(1) es] by blast
  let ?q = "\<lparr>wqMethod = ''GET'', wqURL = u', wqHeader = [], wqBody = []\<rparr>"
  note rt = speaks_basics [OF assms(1)] operation_urls(4) [OF assms(1) i(1)]
  have "NewGetEvaluationRequest rt server i = Inr ?q" by (simp add: NewGetEvaluationRequest_def rt rt(5) [simplified] u')
  moreover have m: "muxMatch apiPatterns (wqMethod ?q) (urPath (wqURL ?q)) =
      Some (''GET /v1/evaluations/{evaluationId}'', [(''evaluationId'', i)])" using routes(5) [OF i(1)] u'(2) by (simp del: Join.simps)
  moreover have "PathValue (received apiPatterns ?q) ''evaluationId'' = i" unfolding PathValue_def routed_request(2) [OF m] by simp
  ultimately show ?thesis
    using Router_bound_at(3) [OF routed_request(1) [OF m]] routed_request(4) [OF m] i(2) by (simp add: reached_def)
qed

lemma reached_feedback:
  assumes "speaks_to rt env server base" and "op_ok rt env (OpFeedback i body)"
  shows "reached rt env server (OpFeedback i body)"
proof -
  obtain enc where i: "segment_ok i" "bdUUID (reBinding env) i = Inr i"
    and enc: "crFeedback rt body = Inr enc" "bcFeedback (reDecoder env) enc = Some body" using assms(2) by auto
  have es: "list_all path_elem [''evaluations'', PathEscape i, ''feedback'']" "[''evaluations'', PathEscape i, ''feedback''] \<noteq> []" using path_elem_words path_elem_escape [OF i(1)] by simp_all
  obtain u' where u': "\<forall>verb body. newRequest rt verb (v1 base [''evaluations'', PathEscape i, ''feedback'']) body =
      Inr \<lparr>wqMethod = verb, wqURL = u', wqHeader = [], wqBody = body\<rparr>"
    "urPath u' = CHR ''/'' # Join (CHR ''/'') (''v1'' # [''evaluations'', PathEscape i, ''feedback''])"
    using request_made_plain [OF assms(1) es] by blast
  let ?q = "\<lparr>wqMethod = ''POST'', wqURL = u',
      wqHeader = [(''Content-Type'', [''application/json''])], wqBody = enc\<rparr>"
  note rt = speaks_basics [OF assms(1)] operation_urls(5) [OF assms(1) i(1)]
  have "NewSubmitFeedbackRequest rt server i body = Inr ?q"
    by (simp add: NewSubmitFeedbackRequest_def NewSubmitFeedbackRequestWithBody_def enc rt rt(5) [simplified] u' withContentType_def Header_Add_def)
  moreover have m: "muxMatch apiPatterns (wqMethod ?q) (urPath (wqURL ?q)) =
      Some (''POST /v1/evaluations/{evaluationId}/feedback'', [(''evaluationId'', i)])" using routes(6) [OF i(1)] u'(2) by (simp del: Join.simps)
  moreover have "PathValue (received apiPatterns ?q) ''evaluationId'' = i" unfolding PathValue_def routed_request(2) [OF m] by simp
  ultimately show ?thesis
    using Router_bound_at(4) [OF routed_request(1) [OF m]] routed_request(4) [OF m] i(2) enc by (simp add: reached_def)
qed

lemma reached_policies:
  assumes "speaks_to rt env server base"
  shows "reached rt env server OpPolicies"
proof -
  have es: "list_all path_elem [''policies'']" "[''policies''] \<noteq> []" using path_elem_words by simp_all
  obtain u' where u': "\<forall>verb body. newRequest rt verb (v1 base [''policies'']) body =
      Inr \<lparr>wqMethod = verb, wqURL = u', wqHeader = [], wqBody = body\<rparr>"
    "urPath u' = CHR ''/'' # Join (CHR ''/'') (''v1'' # [''policies''])"
    using request_made_plain [OF assms es] by blast
  let ?q = "\<lparr>wqMethod = ''GET'', wqURL = u', wqHeader = [], wqBody = []\<rparr>"
  have "NewListPoliciesRequest rt server = Inr ?q"
    by (simp add: NewListPoliciesRequest_def speaks_basics [OF assms] operation_urls [OF assms] u')
  moreover have m: "muxMatch apiPatterns (wqMethod ?q) (urPath (wqURL ?q)) = Some (''GET /v1/policies'', [])"
    using routes(3) u'(2) by (simp del: Join.simps)
  ultimately show ?thesis
    using Router_bound_at(5) [OF routed_request(1) [OF m]] routed_request(4) [OF m] by (simp add: reached_def)
qed

lemma reached_validate:
  assumes "speaks_to rt env server base" and "op_ok rt env (OpValidate body)"
  shows "reached rt env server (OpValidate body)"
proof -
  obtain enc where enc: "crValidate rt body = Inr enc" "bcValidate (reDecoder env) enc = Some body" using assms(2) by auto
  have es: "list_all path_elem [''policies'', ''validate'']" "[''policies'', ''validate''] \<noteq> []" using path_elem_words by simp_all
  obtain u' where u': "\<forall>verb body. newRequest rt verb (v1 base [''policies'', ''validate'']) body =
      Inr \<lparr>wqMethod = verb, wqURL = u', wqHeader = [], wqBody = body\<rparr>"
    "urPath u' = CHR ''/'' # Join (CHR ''/'') (''v1'' # [''policies'', ''validate''])"
    using request_made_plain [OF assms(1) es] by blast
  let ?q = "\<lparr>wqMethod = ''POST'', wqURL = u',
      wqHeader = [(''Content-Type'', [''application/json''])], wqBody = enc\<rparr>"
  have "NewValidatePolicyRequest rt server body = Inr ?q"
    by (simp add: NewValidatePolicyRequest_def NewValidatePolicyRequestWithBody_def enc speaks_basics [OF assms(1)]
        operation_urls [OF assms(1)] u' withContentType_def Header_Add_def)
  moreover have m: "muxMatch apiPatterns (wqMethod ?q) (urPath (wqURL ?q)) = Some (''POST /v1/policies/validate'', [])"
    using routes(4) u'(2) by (simp del: Join.simps)
  ultimately show ?thesis
    using Router_bound_at(7) [OF routed_request(1) [OF m]] routed_request(4) [OF m] enc by (simp add: reached_def)
qed

lemma reached_policy:
  assumes "speaks_to rt env server base" and "op_ok rt env (OpPolicy n v)"
  shows "reached rt env server (OpPolicy n v)"
proof -
  have nv: "segment_ok n" "segment_ok v" using assms(2) by simp_all
  have es: "list_all path_elem [''policies'', PathEscape n, ''versions'', PathEscape v]" "[''policies'', PathEscape n, ''versions'', PathEscape v] \<noteq> []" using path_elem_words path_elem_escape [OF nv(1)] path_elem_escape [OF nv(2)] by simp_all
  obtain u' where u': "\<forall>verb body. newRequest rt verb (v1 base [''policies'', PathEscape n, ''versions'', PathEscape v]) body =
      Inr \<lparr>wqMethod = verb, wqURL = u', wqHeader = [], wqBody = body\<rparr>"
    "urPath u' = CHR ''/'' # Join (CHR ''/'') (''v1'' # [''policies'', PathEscape n, ''versions'', PathEscape v])"
    using request_made_plain [OF assms(1) es] by blast
  let ?q = "\<lparr>wqMethod = ''GET'', wqURL = u', wqHeader = [], wqBody = []\<rparr>"
  note rt = speaks_basics [OF assms(1)] operation_urls(6) [OF assms(1) nv]
  have "NewGetPolicyRequest rt server n v = Inr ?q" by (simp add: NewGetPolicyRequest_def rt rt(5) [simplified] u')
  moreover have m: "muxMatch apiPatterns (wqMethod ?q) (urPath (wqURL ?q)) =
      Some (''GET /v1/policies/{policyName}/versions/{policyVersion}'', [(''policyName'', n), (''policyVersion'', v)])"
    using routes(7) [OF nv] u'(2) by (simp del: Join.simps)
  moreover have "bindPolicyRef (reBinding env) (received apiPatterns ?q) = Inr (n, v)"
    unfolding bindPolicyRef_def PathValue_def routed_request(2) [OF m] using nv by (simp add: rt segment_ok_def)
  ultimately show ?thesis
    using Router_bound_at(6) [OF routed_request(1) [OF m]] routed_request(4) [OF m] by (simp add: reached_def)
qed

lemma client_reaches_operation:
  assumes "speaks_to rt env server base" and "op_ok rt env op"
  shows "reached rt env server op"
  using assms(2) reached_list [OF assms(1)] reached_create [OF assms(1)] reached_get [OF assms(1)] reached_feedback [OF assms(1)]
    reached_policies [OF assms(1)] reached_validate [OF assms(1)] reached_policy [OF assms(1)]
  by (cases op) (simp_all del: op_ok.simps)

text \<open>A policy name that is a dot segment is resolved away: the request reaches no operation.\<close>

lemma dot_segment_lost:
  assumes "speaks_to rt env server base" and "NewGetPolicyRequest rt server ''..'' ''1'' = Inr q"
  shows "hqPattern (received apiPatterns q) = []"
proof -
  have "crURLParse rt server = Inr base" "urPath base = ''/v1/''" using assms(1) by (simp_all add: speaks_to_def)
  moreover have "PathEscape ''..'' = ''..''" "PathEscape ''1'' = ''1''" by (code_simp, code_simp)
  moreover have "parseReference ''./policies/../versions/1'' = Some (''./policies/../versions/1'', [])" by code_simp
  moreover have "resolvePath ''/v1/'' ''./policies/../versions/1'' = ''/v1/versions/1''" by code_simp
  ultimately have url: "operationURL rt server ''/policies/../versions/1'' = Inr (v1 base [''versions'', ''1''])"
    and escaped: "PathEscape ''..'' = ''..''" "PathEscape ''1'' = ''1''"
    by (simp_all add: operationURL_def ResolveReference_def v1_def)
  have es: "list_all path_elem [''versions'', ''1'']" "[''versions'', ''1''] \<noteq> []" by (code_simp, simp)
  obtain u' where "\<forall>verb body. newRequest rt verb (v1 base [''versions'', ''1'']) body =
      Inr \<lparr>wqMethod = verb, wqURL = u', wqHeader = [], wqBody = body\<rparr>" "urPath u' = ''/v1/versions/1''"
    using request_made_plain [OF assms(1) es] by auto
  then have "urPath (wqURL q) = ''/v1/versions/1''" "wqMethod q = ''GET''"
    using assms(2) url by (auto simp: NewGetPolicyRequest_def speaks_basics [OF assms(1)] escaped)
  moreover have "muxMatch apiPatterns ''GET'' ''/v1/versions/1'' = None" by code_simp
  ultimately show ?thesis by (simp add: received_def)
qed

section \<open>From the reply to the client\<close>

text \<open>The reply as the response writers send it, and a decoder that undoes the encoding.\<close>

definition replied :: "('a \<Rightarrow> string) \<Rightarrow> (apiError \<Rightarrow> string) \<Rightarrow> 'a reply \<Rightarrow> clientReply" where
  "replied enc encErr response =
     \<lparr>wpStatus = Itoa (reply_status response), wpStatusCode = reply_status response,
      wpHeader = [(''Content-Type'', [''application/json''])],
      wpBody = Inr (case response of Success s v \<Rightarrow> enc v | Failed_reply s b \<Rightarrow> encErr b)\<rparr>"

fun payload_of :: "'a reply \<Rightarrow> 'a payload" where
  "payload_of (Success s v) = Payload v"
| "payload_of (Failed_reply s b) = ErrorPayload b"

definition readable :: "int \<Rightarrow> int list \<Rightarrow> 'a reply \<Rightarrow> bool" where
  "readable ok statuses response \<longleftrightarrow>
     (case response of Success s v \<Rightarrow> s = ok | Failed_reply s b \<Rightarrow> s \<noteq> ok \<and> s \<in> set statuses)"

lemma replied_json: "isJSON (replied enc encErr response)"
proof -
  have "\<exists>k \<le> length ''application/json''. take 4 (drop k ''application/json'') = ''json''" by code_simp
  then show ?thesis by (simp add: isJSON_def replied_def Header_Get_def)
qed

lemma map_of_failed: "map_of (failed_with d statuses) s =
    (if s \<in> set statuses then Some (\<lambda>bytes. rbind (rdError d bytes) (\<lambda>e. Inr (ErrorPayload e))) else None)"
  by (induction statuses) (auto simp: failed_with_def)

lemma reply_read:
  assumes "readable ok statuses response" and "\<And>v. dec (enc v) = Inr v" and "\<And>e. rdError d (encErr e) = Inr e"
  shows "\<exists>r. parseReply ((ok, decoded dec) # failed_with d statuses) (replied enc encErr response) = Inr r \<and>
    response_StatusCode r = reply_status response \<and> crJSON r = [reply_status response \<mapsto> payload_of response]"
  using assms replied_json [of enc encErr response]
  by (cases response)
    (auto simp: parseReply_def replied_def readable_def map_of_failed decoded_def response_StatusCode_def)

text \<open>
  Every reply of a handler is read into the field of its status.
\<close>

lemma handler_replies_readable:
  "readable 200 [400, 401, 500] (ListEvaluations se db params)"
  "readable 200 [400, 401, 404, 500] (GetEvaluation se db i)"
  "readable 201 [400, 401, 404, 422, 500] (snd (SubmitFeedback_handler svc se w feedback))"
  "readable 200 [401, 500] (ListPolicies ps)"
  "readable 200 [400, 401, 413, 500] (ValidatePolicy yaml ps document)"
  "readable 200 [400, 401, 404, 500] (GetPolicy ps name version)"
  by (simp_all add: readable_def ListEvaluations_def GetEvaluation_def SubmitFeedback_handler_def ListPolicies_def
      ValidatePolicy_def GetPolicy_def Let_def split: option.split sum.split prod.split)

lemma create_reply_readable:
  "readable 201 [400, 401, 404, 409, 413, 422, 429, 500, 502, 503, 504] (snd (CreateEvaluation svc se w request))"
proof -
  define ok where "ok = (readable 201 [400, 401, 404, 409, 413, 422, 429, 500, 502, 503, 504] :: apiEvaluation reply \<Rightarrow> bool)"
  have "ok (createEvaluationStatus f)" "ok (Success 201 v)" "ok (Failed_reply 400 b)" for f v b
    by (simp_all add: ok_def readable_def createEvaluationStatus_def createEvaluationClientFailure_def
        createEvaluationUpstreamFailure_def)
  then have "ok (snd (CreateEvaluation svc se w request))"
    by (simp add: CreateEvaluation_def createEvaluationFailure_is split: option.split prod.split sum.split)
  then show ?thesis by (simp add: ok_def)
qed

text \<open>The rate limiter's reply is declared for one operation only: the others read no error from it.\<close>

lemma rate_limit_unread:
  assumes "wpStatusCode rsp = 429" and "wpBody rsp = Inr body"
  shows "\<exists>r. ParseListEvaluationsResponse d rsp = Inr r \<and> crJSON r = (\<lambda>_. None)"
    and "\<exists>r. ParseGetEvaluationResponse d rsp = Inr r \<and> crJSON r = (\<lambda>_. None)"
    and "\<exists>r. ParseSubmitFeedbackResponse d rsp = Inr r \<and> crJSON r = (\<lambda>_. None)"
    and "\<exists>r. ParseListPoliciesResponse d rsp = Inr r \<and> crJSON r = (\<lambda>_. None)"
    and "\<exists>r. ParseValidatePolicyResponse d rsp = Inr r \<and> crJSON r = (\<lambda>_. None)"
    and "\<exists>r. ParseGetPolicyResponse d rsp = Inr r \<and> crJSON r = (\<lambda>_. None)"
  using assms by (simp_all add: ParseListEvaluationsResponse_def ParseGetEvaluationResponse_def ParseSubmitFeedbackResponse_def
      ParseListPoliciesResponse_def ParseValidatePolicyResponse_def ParseGetPolicyResponse_def parseReply_def map_of_failed Let_def)

end
