(* ===== verification/Concurrency.thy ===== *)
theory Concurrency
  imports EvaluationFacts Retention
begin

text \<open>
  The server as a whole: requests run concurrently with each other and with the retention
  loop, and meet only in the database and in the observer. A step is one request's stretch
  between two points where others may intervene (each read or transaction of \<open>Create\<close> and
  \<open>SubmitFeedback\<close>, the start and the return of a provider call) or one statement of the
  retention pass. The sequential operations are shown to be runs of this relation, and
  the invariants hold in every state reached by any interleaving. The set of retired
  evaluation identifiers is a history variable: nothing reads it.
\<close>

section \<open>A request in stages\<close>

text \<open>
  \<open>Create\<close> cut wherever another goroutine may run in between: after the checks that need no
  database, after the read of the key, after the read of the evaluation it names, after the
  snapshot is recorded, while the provider is being asked, and before the transaction.
\<close>

record admission =
  adCompiled :: Compiled
  adKind :: string
  adInput :: CreateInput
  adHash :: string

datatype creating =
    Looking Session admission
  | Replaying Session admission IdempotencyRecord
  | Unrecorded Session admission
  | Deciding Session admission
  | Asking Session admission
  | Recording Session pending

definition createAdmit :: "Service \<Rightarrow> CreateInput \<Rightarrow> sentinel + admission" where
  "createAdmit svc input =
     rbind (resolvePolicy svc input) (\<lambda>(compiled, pk).
     rbind (validateRequestShape (svcConfig svc) input) (\<lambda>_.
     rbind (canonicalRequestHash (cHash compiled) input) (\<lambda>requestHash.
       Inr \<lparr>adCompiled = compiled, adKind = pk, adInput = input, adHash = requestHash\<rparr>)))"

definition lookupKey :: "Session \<Rightarrow> DB \<Rightarrow> CreateInput \<Rightarrow> sentinel + IdempotencyRecord option" where
  "lookupKey se db input =
     (if ciIdempotencyKey input = [] then Inr None
      else if seFails se FindIdempotency then Inl dbError
      else Inr (findRow idKeyHash (hashKey (ciIdempotencyKey input)) (dbIdempotency db)))"

definition replayRecord ::
  "Session \<Rightarrow> DB \<Rightarrow> IdempotencyRecord \<Rightarrow> string \<Rightarrow> sentinel + apiEvaluation option" where
  "replayRecord se db rec requestHash =
     (if time_Before (idExpiresAt rec) (seNowReplay se) then Inr None
      else if idCanonicalRequestHash rec \<noteq> requestHash then Inl ErrIdempotencyConflict
      else case Evaluation_Get se db (idEvaluationID rec) of
        Inl e \<Rightarrow> if e = ErrNotFound then Inr None else Inl e
      | Inr evaluation \<Rightarrow> Inr (Some evaluation))"

text \<open>The part of \<open>decide\<close> before the call; \<open>None\<close> when the provider has to be asked.\<close>

definition decideLocally :: "Session \<Rightarrow> Compiled \<Rightarrow> string \<Rightarrow> CreateInput \<Rightarrow> (sentinel + EvaluationRow) option" where
  "decideLocally se compiled pk input =
     (case ValidateFacts compiled (entries (ciFacts input)) of
        Inl e \<Rightarrow> Some (Inl e)
      | Inr _ \<Rightarrow>
          (case applyPreRules se (newRecord se compiled pk input) compiled input of
             None \<Rightarrow> Some (Inl panicked)
           | Some (Some row) \<Rightarrow> Some (Inr row)
           | Some None \<Rightarrow> None))"

definition callStarted :: "Service \<Rightarrow> World \<Rightarrow> Request \<Rightarrow> World" where
  "callStarted svc w request = (emit svc [ProviderCallStarted] w)\<lparr>wCalls := wCalls w @ [request]\<rparr>"

definition callReturned ::
  "Service \<Rightarrow> Session \<Rightarrow> World \<Rightarrow> Compiled \<Rightarrow> string \<Rightarrow> CreateInput \<Rightarrow> World \<times> (sentinel + EvaluationRow)" where
  "callReturned svc se w compiled pk input =
     (let r = newRecord se compiled pk input in
      case svcProvider svc (buildProviderRequest compiled input) of
        Inl e \<Rightarrow> (emit svc [ProviderCallFinished] w, recordProviderFailure se r e)
      | Inr response \<Rightarrow>
          (emit svc [ObserveProviderCall (AttemptCount response),
             ObserveTokens (rsModel response) (usInputTokens (rsUsage response))
               (usOutputTokens (rsUsage response)), ProviderCallFinished] w,
           scoreAnswers se (applyUsage r response) compiled input response))"

definition decidedPending :: "admission \<Rightarrow> EvaluationRow \<Rightarrow> pending" where
  "decidedPending a r = \<lparr>pdRecord = r, pdKind = adKind a, pdInput = adInput a, pdHash = adHash a\<rparr>"

text \<open>One stretch of a request: the world after it and the next stage, \<open>None\<close> when it has replied.\<close>

fun advance :: "Service \<Rightarrow> World \<Rightarrow> creating \<Rightarrow> World \<times> creating option" where
  "advance svc w (Looking se a) =
     (case lookupKey se (wDB w) (adInput a) of
        Inl e \<Rightarrow> (w, None)
      | Inr None \<Rightarrow> (w, Some (Unrecorded se a))
      | Inr (Some rec) \<Rightarrow> (w, Some (Replaying se a rec)))"
| "advance svc w (Replaying se a rec) =
     (case replayRecord se (wDB w) rec (adHash a) of
        Inl e \<Rightarrow> (w, None)
      | Inr None \<Rightarrow> (w, Some (Unrecorded se a))
      | Inr (Some evaluation) \<Rightarrow> (w, None))"
| "advance svc w (Unrecorded se a) =
     (case ensureSnapshot se (wDB w) (adCompiled a) of
        Inl e \<Rightarrow> (w, None)
      | Inr db \<Rightarrow> (w\<lparr>wDB := db\<rparr>, Some (Deciding se a)))"
| "advance svc w (Deciding se a) =
     (case decideLocally se (adCompiled a) (adKind a) (adInput a) of
        Some (Inl e) \<Rightarrow> (w, None)
      | Some (Inr r) \<Rightarrow> (w, Some (Recording se (decidedPending a r)))
      | None \<Rightarrow> (callStarted svc w (buildProviderRequest (adCompiled a) (adInput a)), Some (Asking se a)))"
| "advance svc w (Asking se a) =
     (case callReturned svc se w (adCompiled a) (adKind a) (adInput a) of
        (w', Inl e) \<Rightarrow> (w', None)
      | (w', Inr r) \<Rightarrow> (w', Some (Recording se (decidedPending a r))))"
| "advance svc w (Recording se p) = (fst (createCommit svc se w p), None)"

definition continued :: "creating option \<Rightarrow> creating list" where
  "continued c = (case c of None \<Rightarrow> [] | Some c' \<Rightarrow> [c'])"

lemma continued_simps [simp]: "continued None = []" "continued (Some c) = [c]"
  by (simp_all add: continued_def)

section \<open>States and steps\<close>

datatype retentionPhase = Idle | Marked "uuid list" | FeedbackDeleted "uuid list"

record System =
  syWorld :: World
  syCreates :: "creating list"
  syFeedbacks :: "(Session \<times> EvaluationFeedback) list"
  syPhase :: retentionPhase
  syRetired :: "uuid set"

abbreviation sysDB :: "System \<Rightarrow> DB" where "sysDB s \<equiv> wDB (syWorld s)"

definition setDB :: "DB \<Rightarrow> System \<Rightarrow> System" where
  "setDB db s = s\<lparr>syWorld := (syWorld s)\<lparr>wDB := db\<rparr>\<rparr>"

inductive step :: "Service \<Rightarrow> retentionSettings \<Rightarrow> System \<Rightarrow> System \<Rightarrow> bool" for svc settings where
  AdmitCreate:
    "createAdmit svc input = Inr a \<Longrightarrow>
     step svc settings s (s\<lparr>syCreates := Looking se a # syCreates s\<rparr>)"
| AdvanceCreate:
    "c \<in> set (syCreates s) \<Longrightarrow> advance svc (syWorld s) c = (w, c') \<Longrightarrow>
     step svc settings s (s\<lparr>syWorld := w, syCreates := continued c' @ remove1 c (syCreates s)\<rparr>)"
| BeginFeedback:
    "feedbackBegin svc se (sysDB s) input = Inr f \<Longrightarrow>
     step svc settings s (s\<lparr>syFeedbacks := (se, f) # syFeedbacks s\<rparr>)"
| CommitFeedback:
    "(se, f) \<in> set (syFeedbacks s) \<Longrightarrow> feedbackCommit se (syWorld s) f = (w, result) \<Longrightarrow>
     step svc settings s (s\<lparr>syWorld := w, syFeedbacks := remove1 (se, f) (syFeedbacks s)\<rparr>)"
| ExpireKeys:
    "pass_ok pass \<Longrightarrow> expireIdempotency pass (sysDB s) = (db, n, err) \<Longrightarrow> step svc settings s (setDB db s)"
| MarkBatch:
    "syPhase s = Idle \<Longrightarrow> pass_ok pass \<Longrightarrow> 0 < rtEvaluations settings \<Longrightarrow>
     step svc settings s
       (s\<lparr>syPhase := Marked (evaluationIDs (findExpired pass (cutoff_of settings pass) (sysDB s)))\<rparr>)"
| DropFeedback:
    "syPhase s = Marked ids \<Longrightarrow>
     step svc settings s ((setDB (deleteFeedback ids (sysDB s)) s)\<lparr>syPhase := FeedbackDeleted ids\<rparr>)"
| DropEvaluations:
    "syPhase s = FeedbackDeleted ids \<Longrightarrow>
     step svc settings s ((setDB (deleteEvaluations ids (sysDB s)) s)
       \<lparr>syPhase := Idle, syRetired := syRetired s \<union> set ids\<rparr>)"
| AbandonBatch:
    "step svc settings s (s\<lparr>syPhase := Idle\<rparr>)"

abbreviation steps :: "Service \<Rightarrow> retentionSettings \<Rightarrow> System \<Rightarrow> System \<Rightarrow> bool" where
  "steps svc settings \<equiv> (step svc settings)\<^sup>*\<^sup>*"

inductive_cases stepE: "step svc settings s s'"

section \<open>Sequential operations are runs\<close>

text \<open>A request in flight has few stretches left, so running it alone to its reply terminates.\<close>

fun stage :: "creating \<Rightarrow> nat" where
  "stage (Looking se a) = 5"
| "stage (Replaying se a rec) = 4"
| "stage (Unrecorded se a) = 3"
| "stage (Deciding se a) = 2"
| "stage (Asking se a) = 1"
| "stage (Recording se p) = 0"

lemma advance_stage: "advance svc w c = (w', Some c') \<Longrightarrow> stage c' < stage c"
  by (cases c) (auto split: sum.splits option.splits prod.splits)

function outcome :: "Service \<Rightarrow> World \<Rightarrow> creating \<Rightarrow> World" where
  "outcome svc w c =
     (case advance svc w c of (w', None) \<Rightarrow> w' | (w', Some c') \<Rightarrow> outcome svc w' c')"
  by auto
termination
  by (relation "measure (\<lambda>(svc, w, c). stage c)") (auto dest: advance_stage [OF sym])

declare outcome.simps [simp del]

lemma outcome_steps:
  "steps svc settings (s\<lparr>syWorld := w, syCreates := c # cs\<rparr>) (s\<lparr>syWorld := outcome svc w c, syCreates := cs\<rparr>)"
proof (induction svc w c rule: outcome.induct)
  case (1 svc w c)
  obtain w' next_stage where run: "advance svc w c = (w', next_stage)" by fastforce
  let ?s = "s\<lparr>syWorld := w, syCreates := c # cs\<rparr>"
  have "step svc settings ?s (?s\<lparr>syWorld := w', syCreates := continued next_stage @ remove1 c (syCreates ?s)\<rparr>)"
    by (rule step.AdvanceCreate) (simp_all add: run)
  then have first: "step svc settings ?s (s\<lparr>syWorld := w', syCreates := continued next_stage @ cs\<rparr>)" by simp
  show ?case
  proof (cases next_stage)
    case None
    with first run show ?thesis by (simp add: outcome.simps [of svc w c])
  next
    case (Some c')
    with 1 run have "steps svc settings (s\<lparr>syWorld := w', syCreates := c' # cs\<rparr>)
        (s\<lparr>syWorld := outcome svc w' c', syCreates := cs\<rparr>)" by simp
    with first run Some show ?thesis
      by (simp add: outcome.simps [of svc w c] converse_rtranclp_into_rtranclp)
  qed
qed

text \<open>The stages compose to the operations they were cut from.\<close>

lemma replay_split:
  "replay se db input h = rbind (lookupKey se db input)
     (\<lambda>found. case found of None \<Rightarrow> Inr None | Some rec \<Rightarrow> replayRecord se db rec h)"
  by (simp add: replay_def lookupKey_def replayRecord_def split: option.split)

lemma decide_split:
  "decide svc se w compiled pk input =
     (case decideLocally se compiled pk input of
        Some result \<Rightarrow> (w, result)
      | None \<Rightarrow> callReturned svc se (callStarted svc w (buildProviderRequest compiled input)) compiled pk input)"
  by (auto simp: decide_def decideLocally_def callStarted_def callReturned_def askProvider_def Let_def emit_def
      split: sum.split option.split)

lemma Create_outcome:
  "fst (Create svc se w input) =
     (case createAdmit svc input of Inl e \<Rightarrow> w | Inr a \<Rightarrow> outcome svc w (Looking se a))"
proof (cases "createAdmit svc input")
  case (Inl e)
  then show ?thesis by (auto simp: Create_def createBegin_def createAdmit_def rbind_Inl_iff split: sum.splits prod.splits)
next
  case (Inr a)
  then have a: "resolvePolicy svc input = Inr (adCompiled a, adKind a)"
    "validateRequestShape (svcConfig svc) input = Inr ()" "adInput a = input"
    "canonicalRequestHash (cHash (adCompiled a)) input = Inr (adHash a)"
    by (auto simp: createAdmit_def rbind_Inr_iff)
  have commit: "outcome svc w (Recording se p) = fst (createCommit svc se w p)" for w p
    by (simp add: outcome.simps)
  have ask: "outcome svc w (Asking se a) =
      (case callReturned svc se w (adCompiled a) (adKind a) input of
         (w', Inl e) \<Rightarrow> w' | (w', Inr r) \<Rightarrow> fst (createCommit svc se w' (decidedPending a r)))" for w
    by (subst outcome.simps) (simp add: a(3) commit split: sum.split prod.split)
  have decide: "outcome svc w (Deciding se a) =
      (case decide svc se w (adCompiled a) (adKind a) input of
         (w', Inl e) \<Rightarrow> w' | (w', Inr r) \<Rightarrow> fst (createCommit svc se w' (decidedPending a r)))" for w
    by (subst outcome.simps) (simp add: a(3) commit ask decide_split split: option.split sum.split prod.split)
  have snap: "outcome svc w (Unrecorded se a) =
      (case ensureSnapshot se (wDB w) (adCompiled a) of
         Inl e \<Rightarrow> w | Inr db \<Rightarrow> outcome svc (w\<lparr>wDB := db\<rparr>) (Deciding se a))" for w
    by (subst outcome.simps) (simp split: sum.split)
  have look: "outcome svc w (Looking se a) =
      (case replay se (wDB w) input (adHash a) of
         Inl e \<Rightarrow> w | Inr (Some _) \<Rightarrow> w | Inr None \<Rightarrow> outcome svc w (Unrecorded se a))"
    by (subst outcome.simps, simp add: a(3) replay_split split: sum.split option.split)
      (simp add: outcome.simps [of svc w "Replaying se a _"] split: sum.split option.split)
  show ?thesis
    by (simp add: Inr look snap decide Create_def createBegin_def a decidedPending_def
        split: sum.split option.split prod.split)
qed

lemma Create_steps:
  assumes "Create svc se (syWorld s) input = (w', result)"
  shows "steps svc settings s (s\<lparr>syWorld := w'\<rparr>)"
proof (cases "createAdmit svc input")
  case (Inl e)
  with assms Create_outcome [of svc se "syWorld s" input] show ?thesis by simp
next
  case (Inr a)
  have "step svc settings s (s\<lparr>syCreates := Looking se a # syCreates s\<rparr>)" using Inr by (rule step.AdmitCreate)
  moreover have "steps svc settings (s\<lparr>syWorld := syWorld s, syCreates := Looking se a # syCreates s\<rparr>)
      (s\<lparr>syWorld := outcome svc (syWorld s) (Looking se a), syCreates := syCreates s\<rparr>)" by (rule outcome_steps)
  ultimately show ?thesis
    using assms Create_outcome [of svc se "syWorld s" input] Inr by (simp add: converse_rtranclp_into_rtranclp)
qed

lemma SubmitFeedback_steps:
  assumes "SubmitFeedback svc se (syWorld s) input = (w', result)"
  shows "steps svc settings s (s\<lparr>syWorld := w'\<rparr>)"
proof (cases "feedbackBegin svc se (sysDB s) input")
  case (Inl e)
  with assms have "w' = syWorld s" by (auto simp: SubmitFeedback_def)
  then show ?thesis by simp
next
  case (Inr f)
  let ?s = "s\<lparr>syFeedbacks := (se, f) # syFeedbacks s\<rparr>"
  from Inr assms have commit: "feedbackCommit se (syWorld s) f = (w', result)" by (simp add: SubmitFeedback_def)
  have "step svc settings s ?s" using Inr by (rule step.BeginFeedback)
  moreover have "step svc settings ?s (?s\<lparr>syWorld := w', syFeedbacks := remove1 (se, f) (syFeedbacks ?s)\<rparr>)"
    by (rule step.CommitFeedback) (simp_all add: commit)
  ultimately show ?thesis by (simp add: converse_rtranclp_into_rtranclp)
qed

lemma expireEvaluations_steps:
  assumes "expireEvaluations pass (cutoff_of settings pass) (sysDB s) = (db', counts, err)"
    and "pass_ok pass" and "0 < rtEvaluations settings" and "syPhase s = Idle"
  shows "\<exists>retired. steps svc settings s ((setDB db' s)\<lparr>syRetired := retired\<rparr>)"
proof -
  define ids where "ids = evaluationIDs (findExpired pass (cutoff_of settings pass) (sysDB s))"
  let ?s1 = "s\<lparr>syPhase := Marked ids\<rparr>"
  let ?s2 = "(setDB (deleteFeedback ids (sysDB s)) s)\<lparr>syPhase := FeedbackDeleted ids\<rparr>"
  have mark: "step svc settings s ?s1" unfolding ids_def by (rule step.MarkBatch [OF assms(4, 2, 3)])
  have "step svc settings ?s1 ((setDB (deleteFeedback ids (sysDB ?s1)) ?s1)\<lparr>syPhase := FeedbackDeleted ids\<rparr>)"
    by (rule step.DropFeedback) simp
  then have drop: "step svc settings ?s1 ?s2" by (simp add: setDB_def)
  have two: "steps svc settings s ?s2" using mark drop by (blast intro: rtranclp_trans)
  from expireEvaluations_cases [OF assms(1), folded ids_def] consider "db' = sysDB s"
    | "db' = deleteFeedback ids (sysDB s)" | "db' = deleteEvaluations ids (deleteFeedback ids (sysDB s))" by blast
  then show ?thesis
  proof cases
    case 1
    then have "(setDB db' s)\<lparr>syRetired := syRetired s\<rparr> = s" by (simp add: setDB_def)
    then show ?thesis by (metis rtranclp.rtrancl_refl)
  next
    case 2
    have "step svc settings ?s2 (?s2\<lparr>syPhase := Idle\<rparr>)" by (rule step.AbandonBatch)
    moreover have "?s2\<lparr>syPhase := Idle\<rparr> = (setDB db' s)\<lparr>syRetired := syRetired s\<rparr>"
      using assms(4) by (cases s) (simp add: 2 setDB_def)
    ultimately show ?thesis using two by (metis rtranclp.rtrancl_into_rtrancl)
  next
    case 3
    have "step svc settings ?s2 ((setDB (deleteEvaluations ids (sysDB ?s2)) ?s2)
        \<lparr>syPhase := Idle, syRetired := syRetired ?s2 \<union> set ids\<rparr>)"
      by (rule step.DropEvaluations) simp
    moreover have "(setDB (deleteEvaluations ids (sysDB ?s2)) ?s2)
        \<lparr>syPhase := Idle, syRetired := syRetired ?s2 \<union> set ids\<rparr> =
        (setDB db' s)\<lparr>syRetired := syRetired s \<union> set ids\<rparr>"
      using assms(4) by (cases s) (simp add: 3 setDB_def)
    ultimately show ?thesis using two by (metis rtranclp.rtrancl_into_rtrancl)
  qed
qed

lemma cleanup_steps:
  assumes "cleanup settings pass (sysDB s) = (db', deleted, err)" and "pass_ok pass" and "syPhase s = Idle"
  shows "\<exists>retired. steps svc settings s ((setDB db' s)\<lparr>syRetired := retired\<rparr>)"
  using assms(1)
proof (cases rule: cleanup_split)
  case (Stopped n)
  have "steps svc settings s (setDB db' s)"
    using step.ExpireKeys [OF assms(2) Stopped(1)] by (rule r_into_rtranclp)
  moreover have "setDB db' s = (setDB db' s)\<lparr>syRetired := syRetired (setDB db' s)\<rparr>" by simp
  ultimately show ?thesis by metis
next
  case (Aged db1 n m k)
  let ?s1 = "setDB db1 s"
  have first: "step svc settings s ?s1" by (rule step.ExpireKeys [OF assms(2) Aged(1)])
  have "expireEvaluations pass (cutoff_of settings pass) (sysDB ?s1) = (db', (m, k), err)" "syPhase ?s1 = Idle"
    using Aged(3) assms(3) by (simp_all add: setDB_def)
  then obtain retired where "steps svc settings ?s1 ((setDB db' ?s1)\<lparr>syRetired := retired\<rparr>)"
    using expireEvaluations_steps assms(2) Aged(2) by blast
  then show ?thesis using first by (auto simp: setDB_def dest: converse_rtranclp_into_rtranclp)
qed

section \<open>Invariants\<close>

text \<open>
  Every row stands for a decision of a policy the compiler produced and whose canonical text
  is on record under its hash.
\<close>

definition justified :: "DB \<Rightarrow> EvaluationRow \<Rightarrow> bool" where
  "justified db r \<longleftrightarrow> (\<exists>p. authentic p \<and> row_of p r \<and> cHash p \<in> psHash ` set (dbSnapshots db))"

definition tables_ok :: "DB \<Rightarrow> bool" where
  "tables_ok db \<longleftrightarrow> db_keys db \<and>
     (\<forall>s \<in> set (dbSnapshots db). psHash s = sha256_hex (psCanonicalJSON s)) \<and>
     (\<forall>r \<in> set (dbEvaluations db). justified db r)"

fun creating_ok :: "DB \<Rightarrow> creating \<Rightarrow> bool" where
  "creating_ok db (Looking se a) \<longleftrightarrow> authentic (adCompiled a)"
| "creating_ok db (Replaying se a rec) \<longleftrightarrow> authentic (adCompiled a)"
| "creating_ok db (Unrecorded se a) \<longleftrightarrow> authentic (adCompiled a)"
| "creating_ok db (Deciding se a) \<longleftrightarrow> authentic (adCompiled a) \<and>
     cHash (adCompiled a) \<in> psHash ` set (dbSnapshots db)"
| "creating_ok db (Asking se a) \<longleftrightarrow> authentic (adCompiled a) \<and>
     cHash (adCompiled a) \<in> psHash ` set (dbSnapshots db) \<and>
     decideLocally se (adCompiled a) (adKind a) (adInput a) = None"
| "creating_ok db (Recording se p) \<longleftrightarrow> justified db (pdRecord p)"

definition pending_ok :: "System \<Rightarrow> bool" where
  "pending_ok s \<longleftrightarrow> (\<forall>c \<in> set (syCreates s). creating_ok (sysDB s) c)"

text \<open>A reference to an evaluation leads to its row or to one that retention has removed.\<close>

definition references_ok :: "System \<Rightarrow> bool" where
  "references_ok s \<longleftrightarrow>
     (let known = evID ` set (dbEvaluations (sysDB s)) \<union> syRetired s in
      idEvaluationID ` set (dbIdempotency (sysDB s)) \<subseteq> known \<and>
      fbEvaluationID ` set (dbFeedback (sysDB s)) \<subseteq> known \<and>
      (fbEvaluationID \<circ> snd) ` set (syFeedbacks s) \<subseteq> known)"

text \<open>The provider calls that have started and not returned.\<close>

fun asking :: "creating \<Rightarrow> bool" where
  "asking (Asking se a) = True"
| "asking c = False"

definition calls_in_flight :: "Service \<Rightarrow> creating list \<Rightarrow> int" where
  "calls_in_flight svc cs = (if svcObserved svc then int (length (filter asking cs)) else 0)"

definition sys_ok :: "Service \<Rightarrow> System \<Rightarrow> bool" where
  "sys_ok svc s \<longleftrightarrow> tables_ok (sysDB s) \<and> pending_ok s \<and> references_ok s \<and>
     gauge (wEvents (syWorld s)) = calls_in_flight svc (syCreates s)"

lemma calls_in_flight_simps [simp]:
  "calls_in_flight svc [] = 0"
  "calls_in_flight svc (c # cs) = (if svcObserved svc \<and> asking c then 1 else 0) + calls_in_flight svc cs"
  "calls_in_flight svc (cs @ ds) = calls_in_flight svc cs + calls_in_flight svc ds"
  by (simp_all add: calls_in_flight_def)

lemma calls_in_flight_remove1:
  "c \<in> set cs \<Longrightarrow> calls_in_flight svc (remove1 c cs) = calls_in_flight svc cs - calls_in_flight svc [c]"
  by (induction cs) auto

lemma justifiedI:
  "authentic p \<Longrightarrow> row_of p r \<Longrightarrow> cHash p \<in> psHash ` set (dbSnapshots db) \<Longrightarrow> justified db r"
  unfolding justified_def by blast

lemma justified_mono:
  "justified db r \<Longrightarrow> set (dbSnapshots db) \<subseteq> set (dbSnapshots db') \<Longrightarrow> justified db' r"
  unfolding justified_def by blast

lemma justified_sealed: "justified db (r\<lparr>evEncryptedInput := x\<rparr>) = justified db r"
  by (simp add: justified_def row_of_def completed_row_def failed_row_def)

lemma justified_stored [simp]: "justified db (storeEvaluation se r) = justified db r"
  by (simp add: justified_def)

lemma creating_ok_mono:
  "creating_ok db c \<Longrightarrow> set (dbSnapshots db) \<subseteq> set (dbSnapshots db') \<Longrightarrow> creating_ok db' c"
  by (cases c) (auto intro: justified_mono)

lemma tables_ok_snapshots:
  assumes "tables_ok db" and "snapshots_added db db'" and "distinct (map psHash (dbSnapshots db'))"
    and "\<forall>s \<in> set (dbSnapshots db'). psHash s = sha256_hex (psCanonicalJSON s)"
  shows "tables_ok db'"
  using assms snapshots_added_simps [OF assms(2)]
  by (auto simp: tables_ok_def db_keys_def snapshots_added_def intro: justified_mono)

lemma ensureSnapshot_tables:
  assumes "tables_ok db" and "ensureSnapshot se db c = Inr db'" and "authentic c"
  shows "tables_ok db'" and "cHash c \<in> psHash ` set (dbSnapshots db')"
proof -
  note db' = ensureSnapshot_Inr(1) [OF assms(2)]
  have d: "distinct (map psHash (dbSnapshots db))" using assms(1) by (simp add: tables_ok_def db_keys_def)
  have mem: "x \<in> set (dbSnapshots db) \<or> x = storeSnapshot se (snapshotOf se c)" if "x \<in> set (dbSnapshots db')" for x
    using that by (auto simp: db' insertIgnore_def insertRow_def split: option.splits if_splits)
  have "psHash (storeSnapshot se (snapshotOf se c)) = sha256_hex (psCanonicalJSON (storeSnapshot se (snapshotOf se c)))"
    using authentic_hash [OF assms(3)] by (simp add: snapshotOf_def)
  with mem assms(1) have "\<forall>s \<in> set (dbSnapshots db'). psHash s = sha256_hex (psCanonicalJSON s)"
    unfolding tables_ok_def by metis
  moreover have "distinct (map psHash (dbSnapshots db'))"
    using snapshots.ignore_keyed [OF d] by (simp add: db')
  ultimately show "tables_ok db'"
    using tables_ok_snapshots [OF assms(1) ensureSnapshot_Inr(2) [OF assms(2)]] by simp
  from snapshots.ignore_covers [OF d, of "storeSnapshot se (snapshotOf se c)"] show "cHash c \<in> psHash ` set (dbSnapshots db')"
    by (simp add: db' snapshotOf_def)
qed

lemma createCommit_ok:
  assumes "tables_ok (wDB w)" and "justified (wDB w) (pdRecord p)" and "createCommit svc se w p = (w', result)"
  shows "tables_ok (wDB w')" and "dbSnapshots (wDB w') = dbSnapshots (wDB w)"
    and "gauge (wEvents w') = gauge (wEvents w)"
    and "set (dbEvaluations (wDB w)) \<subseteq> set (dbEvaluations (wDB w'))" and "dbFeedback (wDB w') = dbFeedback (wDB w)"
    and "idEvaluationID ` set (dbIdempotency (wDB w')) \<subseteq>
      idEvaluationID ` set (dbIdempotency (wDB w)) \<union> evID ` set (dbEvaluations (wDB w'))"
proof -
  have "tables_ok (wDB w') \<and> dbSnapshots (wDB w') = dbSnapshots (wDB w) \<and> gauge (wEvents w') = gauge (wEvents w) \<and>
    set (dbEvaluations (wDB w)) \<subseteq> set (dbEvaluations (wDB w')) \<and> dbFeedback (wDB w') = dbFeedback (wDB w) \<and>
    idEvaluationID ` set (dbIdempotency (wDB w')) \<subseteq>
      idEvaluationID ` set (dbIdempotency (wDB w)) \<union> evID ` set (dbEvaluations (wDB w'))"
  proof (cases result)
    case (Inl e)
    with assms(3) have "w' = w" by (auto dest: createCommit_Inl)
    with assms(1) show ?thesis by auto
  next
    case (Inr a)
    with assms(3) obtain r where r: "r = (pdRecord p)\<lparr>evEncryptedInput := evEncryptedInput r\<rparr>"
      and rec: "recorded svc se (wDB w) (pdInput p) (pdHash p) r (wDB w')"
      and snap: "dbSnapshots (wDB w') = dbSnapshots (wDB w)" and "gauge (wEvents w') = gauge (wEvents w)"
      by (auto elim: createCommit_Inr)
    have "justified (wDB w) r" using assms(2) justified_sealed r by metis
    then have "\<forall>x \<in> set (dbEvaluations (wDB w')). justified (wDB w') x"
      using assms(1) rec snap by (auto simp: tables_ok_def recorded_def justified_def)
    moreover have "db_keys (wDB w')"
      using recorded_keys [OF _ rec] assms(1) snap by (simp add: tables_ok_def db_keys_def)
    ultimately have "tables_ok (wDB w')" using assms(1) snap by (simp add: tables_ok_def)
    with rec snap \<open>gauge (wEvents w') = gauge (wEvents w)\<close> show ?thesis
      by (auto simp: recorded_def idempotencyRow_def)
  qed
  then show "tables_ok (wDB w')" and "dbSnapshots (wDB w') = dbSnapshots (wDB w)"
    and "gauge (wEvents w') = gauge (wEvents w)"
    and "set (dbEvaluations (wDB w)) \<subseteq> set (dbEvaluations (wDB w'))" and "dbFeedback (wDB w') = dbFeedback (wDB w)"
    and "idEvaluationID ` set (dbIdempotency (wDB w')) \<subseteq>
      idEvaluationID ` set (dbIdempotency (wDB w)) \<union> evID ` set (dbEvaluations (wDB w'))"
    by blast+
qed

lemma createAdmit_authentic:
  assumes "service_ok svc" and "createAdmit svc input = Inr a"
  shows "authentic (adCompiled a)"
  using resolvePolicy_authentic(1) [OF assms(1)] assms(2) by (auto simp: createAdmit_def rbind_Inr_iff)

text \<open>What the provider answers does not depend on the world it is asked in, so each stage records what \<open>decide\<close> would.\<close>

lemma callReturned_result: "snd (callReturned svc se w c pk input) = snd (callReturned svc se w' c pk input)"
  by (simp add: callReturned_def Let_def split: sum.split)

lemma callReturned_row:
  assumes "callReturned svc se w c pk input = (w', Inr r)" and "decideLocally se c pk input = None" and "wf_compiled c"
  shows "row_of c r"
proof -
  have "snd (decide svc se w c pk input) = Inr r"
    using assms(1, 2) callReturned_result [of svc se _ c pk input w] by (simp add: decide_split)
  then obtain w'' where "decide svc se w c pk input = (w'', Inr r)" by (metis prod.collapse)
  from decide_decided(2) [OF this] decided_row_of [OF _ assms(3)] show ?thesis by blast
qed

lemma decideLocally_row:
  assumes "decideLocally se c pk input = Some (Inr r)" and "wf_compiled c"
  shows "row_of c r"
proof -
  have "decide svc se w c pk input = (w, Inr r)" for svc w by (simp add: decide_split assms(1))
  from decide_decided(2) [OF this] decided_row_of [OF _ assms(2)] show ?thesis by blast
qed

lemma callStarted_frame [simp]:
  "wDB (callStarted svc w q) = wDB w"
  "gauge (wEvents (callStarted svc w q)) = gauge (wEvents w) + (if svcObserved svc then 1 else 0)"
  by (simp_all add: callStarted_def)

lemma callReturned_frame:
  assumes "callReturned svc se w c pk input = (w', result)"
  shows "wDB w' = wDB w" and "gauge (wEvents w') = gauge (wEvents w) - (if svcObserved svc then 1 else 0)"
  using assms by (auto simp: callReturned_def Let_def split: sum.splits)

text \<open>What a stretch of a request keeps and adds.\<close>

definition extends :: "DB \<Rightarrow> DB \<Rightarrow> bool" where
  "extends db db' \<longleftrightarrow> set (dbSnapshots db) \<subseteq> set (dbSnapshots db') \<and>
     set (dbEvaluations db) \<subseteq> set (dbEvaluations db') \<and> dbFeedback db' = dbFeedback db \<and>
     idEvaluationID ` set (dbIdempotency db') \<subseteq>
       idEvaluationID ` set (dbIdempotency db) \<union> evID ` set (dbEvaluations db')"

lemma extends_refl [simp]: "extends db db"
  by (auto simp: extends_def)

lemma advance_ok:
  assumes "tables_ok (wDB w)" and "creating_ok (wDB w) c" and "advance svc w c = (w', c')"
  shows "tables_ok (wDB w') \<and> extends (wDB w) (wDB w') \<and>
    gauge (wEvents w') = gauge (wEvents w) - calls_in_flight svc [c] + calls_in_flight svc (continued c') \<and>
    (\<forall>d \<in> set (continued c'). creating_ok (wDB w') d)"
proof (cases c)
  case (Looking se a)
  with assms show ?thesis by (auto split: sum.splits option.splits)
next
  case (Replaying se a rec)
  with assms show ?thesis by (auto split: sum.splits option.splits)
next
  case (Unrecorded se a)
  show ?thesis
  proof (cases "ensureSnapshot se (wDB w) (adCompiled a)")
    case (Inl e)
    with assms Unrecorded show ?thesis by simp
  next
    case (Inr db)
    have "authentic (adCompiled a)" using assms(2) Unrecorded by simp
    note tables = ensureSnapshot_tables [OF assms(1) Inr this]
    have "extends (wDB w) db"
      using ensureSnapshot_Inr(2) [OF Inr] snapshots_added_simps [OF ensureSnapshot_Inr(2) [OF Inr]]
      by (auto simp: extends_def snapshots_added_def)
    with tables assms Unrecorded Inr show ?thesis by auto
  qed
next
  case (Deciding se a)
  have "wf_compiled (adCompiled a)" using assms(2) Deciding by (simp add: authentic_def)
  from decideLocally_row [OF _ this, of se "adKind a" "adInput a"] assms Deciding show ?thesis
    by (auto simp: decidedPending_def split: option.splits sum.splits intro!: justifiedI [of "adCompiled a"])
next
  case (Asking se a)
  have wf: "wf_compiled (adCompiled a)" using assms(2) Asking by (simp add: authentic_def)
  obtain w1 result where run: "callReturned svc se w (adCompiled a) (adKind a) (adInput a) = (w1, result)" by fastforce
  have "result = Inr r \<Longrightarrow> row_of (adCompiled a) r" for r
    using callReturned_row [OF _ _ wf] run assms(2) Asking by auto
  with callReturned_frame [OF run] run assms Asking show ?thesis
    by (auto simp: decidedPending_def split: sum.splits intro!: justifiedI [of "adCompiled a"])
next
  case (Recording se p)
  obtain w1 result where run: "createCommit svc se w p = (w1, result)" by fastforce
  have "justified (wDB w) (pdRecord p)" using assms(2) Recording by simp
  from createCommit_ok [OF assms(1) this run] run assms(3) Recording show ?thesis
    by (auto simp: extends_def)
qed

lemma feedbackCommit_ok:
  assumes "tables_ok (wDB w)" and "feedbackCommit se w f = (w', result)"
  shows "tables_ok (wDB w')" and "wEvents w' = wEvents w" and "dbSnapshots (wDB w') = dbSnapshots (wDB w)"
    and "dbEvaluations (wDB w') = dbEvaluations (wDB w)" and "dbIdempotency (wDB w') = dbIdempotency (wDB w)"
    and "set (dbFeedback (wDB w')) \<subseteq> insert (storeFeedback se f) (set (dbFeedback (wDB w)))"
  using assms by (auto simp: feedbackCommit_def insertRow_def tables_ok_def db_keys_def justified_def
      split: if_splits option.splits)

lemma tables_ok_shrink:
  assumes "tables_ok db" and "dbSnapshots db' = dbSnapshots db" and "set (dbEvaluations db') \<subseteq> set (dbEvaluations db)"
    and "db_keys db'"
  shows "tables_ok db'"
  using assms by (auto simp: tables_ok_def justified_def)

lemma deletes_ok:
  assumes "tables_ok db"
  shows "tables_ok (deleteFeedback ids db)" and "tables_ok (deleteEvaluations ids db)"
proof -
  have "db_keys db" using assms by (simp add: tables_ok_def)
  then have "db_keys (deleteFeedback ids db)" "db_keys (deleteEvaluations ids db)"
    by (simp_all add: db_keys_def deleteFeedback_def deleteEvaluations_def deleteKeys_def distinct_map_filter)
  then show "tables_ok (deleteFeedback ids db)" "tables_ok (deleteEvaluations ids db)"
    by (auto intro!: tables_ok_shrink [OF assms] simp: deleteFeedback_def deleteEvaluations_def deleteKeys_def)
qed

lemma expireKeys_ok:
  assumes "tables_ok db" and "pass_ok pass" and "expireIdempotency pass db = (db', n, err)"
  shows "tables_ok db'" and "dbEvaluations db' = dbEvaluations db" and "dbFeedback db' = dbFeedback db"
    and "dbSnapshots db' = dbSnapshots db" and "set (dbIdempotency db') \<subseteq> set (dbIdempotency db)"
proof -
  have "limited (rpDeleted pass)" "db_keys db" using assms(1, 2) by (simp_all add: pass_ok_def tables_ok_def)
  note facts = expireIdempotency_pruned [OF assms(3) this]
  show same: "dbEvaluations db' = dbEvaluations db" "dbFeedback db' = dbFeedback db" "dbSnapshots db' = dbSnapshots db"
    using arg_cong [OF facts(1), of dbSnapshots] arg_cong [OF facts(1), of dbEvaluations]
      arg_cong [OF facts(1), of dbFeedback] by simp_all
  show "set (dbIdempotency db') \<subseteq> set (dbIdempotency db)" by (rule prunedD(1) [OF facts(2)])
  have "db_keys db'"
    using assms(1) same prunedD(3) [OF facts(2), of idKeyHash] by (simp add: tables_ok_def db_keys_def)
  then show "tables_ok db'" using assms(1) same by (auto intro: tables_ok_shrink)
qed

lemma feedbackBegin_known:
  "feedbackBegin svc se db input = Inr f \<Longrightarrow> fbEvaluationID f \<in> evID ` set (dbEvaluations db)"
  by (elim feedbackBegin_Inr) (auto simp: findRow_def dest!: find_SomeD)

lemma step_tables:
  assumes "step svc settings s s'" and "service_ok svc" and "sys_ok svc s"
  shows "tables_ok (sysDB s') \<and> set (dbSnapshots (sysDB s)) \<subseteq> set (dbSnapshots (sysDB s')) \<and>
    gauge (wEvents (syWorld s')) = calls_in_flight svc (syCreates s')"
proof -
  have ok: "tables_ok (sysDB s)" "gauge (wEvents (syWorld s)) = calls_in_flight svc (syCreates s)" "pending_ok s"
    using assms(3) by (simp_all add: sys_ok_def)
  from assms(1) show ?thesis
  proof cases
    case (AdmitCreate input a se)
    with ok show ?thesis by simp
  next
    case (AdvanceCreate c w c')
    with ok(3) have "creating_ok (sysDB s) c" by (simp add: pending_ok_def)
    from advance_ok [OF ok(1) this AdvanceCreate(3)] AdvanceCreate ok(2) show ?thesis
      by (simp add: extends_def calls_in_flight_remove1 del: calls_in_flight_simps(2))
  next
    case (CommitFeedback se f w result)
    with feedbackCommit_ok [OF ok(1) CommitFeedback(3)] ok(2) show ?thesis by simp
  next
    case (ExpireKeys pass db n err)
    with expireKeys_ok [OF ok(1) ExpireKeys(2, 3)] ok(2) show ?thesis by (simp add: setDB_def)
  next
    case (DropFeedback ids)
    with deletes_ok(1) [OF ok(1)] ok(2) show ?thesis by (simp add: setDB_def) (simp add: deleteFeedback_def)
  next
    case (DropEvaluations ids)
    with deletes_ok(2) [OF ok(1)] ok(2) show ?thesis by (simp add: setDB_def) (simp add: deleteEvaluations_def)
  qed (use ok in simp_all)
qed

lemma step_pending:
  assumes "step svc settings s s'" and "service_ok svc" and "sys_ok svc s"
  shows "pending_ok s'"
proof -
  have ok: "tables_ok (sysDB s)" "pending_ok s" using assms(3) by (simp_all add: sys_ok_def)
  have grows: "set (dbSnapshots (sysDB s)) \<subseteq> set (dbSnapshots (sysDB s'))"
    using step_tables [OF assms] by blast
  have old: "creating_ok (sysDB s') c" if "c \<in> set (syCreates s)" for c
    using ok(2) that creating_ok_mono [OF _ grows] by (auto simp: pending_ok_def)
  have "creating_ok (sysDB s') c" if "c \<in> set (syCreates s')" "c \<notin> set (syCreates s)" for c
    using assms(1)
  proof cases
    case (AdmitCreate input a se)
    with that createAdmit_authentic [OF assms(2) AdmitCreate(2)] show ?thesis by auto
  next
    case (AdvanceCreate d w d')
    with ok(2) have "creating_ok (sysDB s) d" by (simp add: pending_ok_def)
    with advance_ok [OF ok(1) _ AdvanceCreate(3)] AdvanceCreate that show ?thesis
      by (auto dest: subsetD [OF set_remove1_subset])
  qed (use that in \<open>auto simp: setDB_def\<close>)
  with old show ?thesis by (auto simp: pending_ok_def)
qed

text \<open>References survive when what is known only grows.\<close>

lemma references_grow:
  assumes "references_ok s"
    and "evID ` set (dbEvaluations (sysDB s)) \<union> syRetired s \<subseteq> evID ` set (dbEvaluations (sysDB s')) \<union> syRetired s'"
    and "idEvaluationID ` set (dbIdempotency (sysDB s')) \<subseteq>
      idEvaluationID ` set (dbIdempotency (sysDB s)) \<union> evID ` set (dbEvaluations (sysDB s'))"
    and "fbEvaluationID ` set (dbFeedback (sysDB s')) \<subseteq>
      fbEvaluationID ` set (dbFeedback (sysDB s)) \<union> (fbEvaluationID \<circ> snd) ` set (syFeedbacks s)"
    and "(fbEvaluationID \<circ> snd) ` set (syFeedbacks s') \<subseteq>
      (fbEvaluationID \<circ> snd) ` set (syFeedbacks s) \<union> evID ` set (dbEvaluations (sysDB s'))"
  shows "references_ok s'"
proof -
  let ?known = "\<lambda>x. evID ` set (dbEvaluations (sysDB x)) \<union> syRetired x"
  have old: "idEvaluationID ` set (dbIdempotency (sysDB s)) \<subseteq> ?known s'"
    "fbEvaluationID ` set (dbFeedback (sysDB s)) \<subseteq> ?known s'"
    "(fbEvaluationID \<circ> snd) ` set (syFeedbacks s) \<subseteq> ?known s'"
    using assms(1) unfolding references_ok_def Let_def
    by - (elim conjE, erule order_trans, rule assms(2))+
  have "fbEvaluationID ` set (dbFeedback (sysDB s')) \<subseteq> ?known s'"
    by (rule order_trans [OF assms(4)]) (intro Un_least old)
  moreover have "idEvaluationID ` set (dbIdempotency (sysDB s')) \<subseteq> ?known s'"
    by (rule order_trans [OF assms(3)]) (intro Un_least old Un_upper1)
  moreover have "(fbEvaluationID \<circ> snd) ` set (syFeedbacks s') \<subseteq> ?known s'"
    by (rule order_trans [OF assms(5)]) (intro Un_least old Un_upper1)
  ultimately show ?thesis by (simp add: references_ok_def Let_def)
qed

lemma subset_insert_Un: "A \<subseteq> insert x B \<Longrightarrow> x \<in> C \<Longrightarrow> A \<subseteq> B \<union> C"
  by blast

lemma step_references:
  assumes "step svc settings s s'" and "service_ok svc" and "sys_ok svc s"
  shows "references_ok s'"
proof -
  have ok: "tables_ok (sysDB s)" "pending_ok s" "references_ok s" using assms(3) by (simp_all add: sys_ok_def)
  from assms(1) show ?thesis
  proof cases
    case (AdmitCreate input a se)
    with ok(3) show ?thesis by (simp add: references_ok_def)
  next
    case (AdvanceCreate c w c')
    with ok(2) have "creating_ok (sysDB s) c" by (simp add: pending_ok_def)
    with advance_ok [OF ok(1) _ AdvanceCreate(3)] have "extends (sysDB s) (wDB w)" by blast
    with AdvanceCreate show ?thesis by (intro references_grow [OF ok(3)]) (auto simp: extends_def)
  next
    case (BeginFeedback se input f)
    with feedbackBegin_known [OF BeginFeedback(2)] show ?thesis
      by (intro references_grow [OF ok(3)]) auto
  next
    case (CommitFeedback se f w result)
    have "fbEvaluationID f \<in> (fbEvaluationID \<circ> snd) ` set (syFeedbacks s)" using CommitFeedback(2) by force
    then have "fbEvaluationID ` set (dbFeedback (wDB w)) \<subseteq>
        fbEvaluationID ` set (dbFeedback (sysDB s)) \<union> (fbEvaluationID \<circ> snd) ` set (syFeedbacks s)"
      using image_mono [OF feedbackCommit_ok(6) [OF ok(1) CommitFeedback(3)], of fbEvaluationID]
      unfolding image_insert storeFeedback_simps(2) by (rule subset_insert_Un [rotated])
    moreover have "set (remove1 (se, f) (syFeedbacks s)) \<subseteq> set (syFeedbacks s)" by (rule set_remove1_subset)
    ultimately show ?thesis
      using CommitFeedback feedbackCommit_ok(1-5) [OF ok(1) CommitFeedback(3)]
      by (intro references_grow [OF ok(3)]) auto
  next
    case (ExpireKeys pass db n err)
    with expireKeys_ok [OF ok(1) ExpireKeys(2, 3)] show ?thesis
      by (intro references_grow [OF ok(3)]) (auto simp: setDB_def)
  next
    case (DropFeedback ids)
    then show ?thesis by (intro references_grow [OF ok(3)]) (auto simp: setDB_def deleteFeedback_def)
  next
    case (DropEvaluations ids)
    then show ?thesis
      by (intro references_grow [OF ok(3)]) (auto simp: setDB_def deleteEvaluations_def deleteKeys_def)
  qed (use ok(3) in \<open>auto simp: references_ok_def\<close>)
qed

theorem step_sys_ok: "step svc settings s s' \<Longrightarrow> service_ok svc \<Longrightarrow> sys_ok svc s \<Longrightarrow> sys_ok svc s'"
  using step_tables step_pending step_references unfolding sys_ok_def [of svc s'] by blast

theorem steps_sys_ok: "steps svc settings s s' \<Longrightarrow> service_ok svc \<Longrightarrow> sys_ok svc s \<Longrightarrow> sys_ok svc s'"
  by (induction rule: rtranclp_induct) (auto intro: step_sys_ok)

text \<open>With retention of evaluations switched off, nothing is ever retired.\<close>

definition unmarked :: "System \<Rightarrow> bool" where
  "unmarked s \<longleftrightarrow> syPhase s = Idle \<and> syRetired s = {}"

lemma steps_unmarked:
  assumes "steps svc settings s s'" and "rtEvaluations settings \<le> 0" and "unmarked s"
  shows "unmarked s'"
  using assms
proof (induction rule: rtranclp_induct)
  case (step y z)
  then have "unmarked y" by simp
  with step.hyps(2) assms(2) show ?case by cases (auto simp: unmarked_def setDB_def)
qed

lemma sys_ok_references:
  assumes "sys_ok svc s" and "syRetired s = {}"
  shows "db_references (sysDB s)"
    and "idEvaluationID ` set (dbIdempotency (sysDB s)) \<subseteq> evID ` set (dbEvaluations (sysDB s))"
proof -
  from assms have refs: "fbEvaluationID ` set (dbFeedback (sysDB s)) \<subseteq> evID ` set (dbEvaluations (sysDB s))"
    "idEvaluationID ` set (dbIdempotency (sysDB s)) \<subseteq> evID ` set (dbEvaluations (sysDB s))"
    by (simp_all add: sys_ok_def references_ok_def)
  from assms(1) have "evPolicySnapshotHash r \<in> psHash ` set (dbSnapshots (sysDB s))"
    if "r \<in> set (dbEvaluations (sysDB s))" for r
    using that by (auto simp: sys_ok_def tables_ok_def justified_def row_of_def)
  with refs show "db_references (sysDB s)"
    "idEvaluationID ` set (dbIdempotency (sysDB s)) \<subseteq> evID ` set (dbEvaluations (sysDB s))"
    by (auto simp: db_references_def)
qed

definition start :: "System" where
  "start = \<lparr>syWorld = \<lparr>wDB = \<lparr>dbSnapshots = [], dbEvaluations = [], dbIdempotency = [], dbFeedback = []\<rparr>,
     wCalls = [], wEvents = []\<rparr>, syCreates = [], syFeedbacks = [], syPhase = Idle, syRetired = {}\<rparr>"

lemma start_ok: "sys_ok svc start" "unmarked start"
  by (simp_all add: start_def sys_ok_def tables_ok_def db_keys_def pending_ok_def references_ok_def unmarked_def)

end
