(* ===== verification/Example.thy ===== *)
theory Example
  imports EvaluatePolicy
begin

text \<open>
  A concrete policy document, shared by the instances of the properties: a payment screen with
  a hard floor on the amount, a noul and a choice question, and two decision rules.
\<close>

definition leafFact :: "string \<Rightarrow> Operator \<Rightarrow> goval \<Rightarrow> Condition" where
  "leafFact n op' v = Condition [] [] None
     (Some \<lparr>opFact = n, opAnswer = [], opField = [], opProbabilityKey = []\<rparr>) op' v"

definition leafAnswer :: "string \<Rightarrow> AnswerField \<Rightarrow> Operator \<Rightarrow> goval \<Rightarrow> Condition" where
  "leafAnswer i f op' v = Condition [] [] None
     (Some \<lparr>opFact = [], opAnswer = i, opField = f, opProbabilityKey = []\<rparr>) op' v"

definition exampleSpec :: Spec where
  "exampleSpec = \<lparr>specModel = ''m'', specOutcomes = [''allow'', ''deny''], specDefaultOutcome = ''deny'',
     specInput = \<lparr>inRequiredFacts = [(''amount'', ''number'')], inOptionalFacts = [(''vip'', ''boolean'')],
       inStrict = True\<rparr>,
     specPreRules = [\<lparr>ruleID = ''floor'', ruleDescription = [],
       ruleWhen = Some (leafFact ''amount'' ''gt'' (VFloat64 (Fin 1000))), ruleOutcome = ''deny''\<rparr>],
     specQuestions = [(''safe'', \<lparr>qType = ''noul'', qInstructions = VNil, qCriteria = VNil\<rparr>),
       (''risk'', \<lparr>qType = ''choice'', qInstructions = VNil,
         qCriteria = VMap [(''low'', VNil), (''high'', VNil)]\<rparr>)],
     specDecisionRules = [\<lparr>ruleID = ''safe'', ruleDescription = [],
       ruleWhen = Some (Condition [leafAnswer ''safe'' ''noul'' ''gte'' (VFloat64 (Fin (1 / 2))),
         leafAnswer ''risk'' ''choice'' ''eq'' (VString ''low'')] [] None None [] VNil),
       ruleOutcome = ''allow''\<rparr>]\<rparr>"

definition exampleDoc :: Document where
  "exampleDoc = \<lparr>docAPIVersion = APIVersion, docKind = Kind,
     docMetadata = \<lparr>metaName = ''pay'', metaVersion = ''1'', metaDescription = []\<rparr>, docSpec = exampleSpec\<rparr>"

lemma exampleDoc_ok: "doc_ok exampleDoc"
  by (simp add: doc_ok_def exampleDoc_def exampleSpec_def gomap_ok_def)

section \<open>Its compilation\<close>

definition exampleQuestions :: "(string, CompiledQuestion) gomap" where
  "exampleQuestions =
     [(''risk'', zeroQuestion\<lparr>cqID := ''risk'', cqType := ''choice'',
        cqChoiceCriteria := [(''high'', VNil), (''low'', VNil)], cqChoiceKeys := [''high'', ''low'']\<rparr>),
      (''safe'', zeroQuestion\<lparr>cqID := ''safe'', cqType := ''noul''\<rparr>)]"

definition examplePre :: CompiledRule where
  "examplePre = \<lparr>crID = ''floor'', crDescription = [],
     crCondition = Some (CompiledCondition conditionKindLeaf []
       (zeroOperand\<lparr>factName := ''amount'', factType := ''number''\<rparr>) ''gt'' (VFloat64 (Fin 1000)) [] False),
     crOutcome = ''deny''\<rparr>"

definition exampleDecision :: CompiledRule where
  "exampleDecision = \<lparr>crID = ''safe'', crDescription = [],
     crCondition = Some (CompiledCondition conditionKindAll
       [CompiledCondition conditionKindLeaf []
          (zeroOperand\<lparr>opKind := operandKindAnswer, questionID := ''safe'', field := ''noul'',
             questionType := ''noul''\<rparr>) ''gte'' (VFloat64 (Fin (1 / 2))) [] False,
        CompiledCondition conditionKindLeaf []
          (zeroOperand\<lparr>opKind := operandKindAnswer, questionID := ''risk'', field := ''choice'',
             questionType := ''choice''\<rparr>) ''eq'' (VString ''low'') [] False]
       zeroOperand [] VNil [] False),
     crOutcome = ''allow''\<rparr>"

definition exampleDraft :: Compiled where
  "exampleDraft = (newCompiled exampleDoc)\<lparr>cRef := \<lparr>refName = ''pay'', refVersion = ''1''\<rparr>,
     cOutcomes := [''allow'', ''deny''], cDefaultOutcome := ''deny'',
     cRequiredFacts := [(''amount'', ''number'')], cOptionalFacts := [(''vip'', ''boolean'')],
     cQuestions := exampleQuestions, cQuestionIDs := [''risk'', ''safe''],
     cPreRules := [examplePre], cDecisionRules := [exampleDecision]\<rparr>"

definition exampleCompiler :: compiler where
  "exampleCompiler = \<lparr>kMaxQuestions = 64, kOutcomes = [''allow'', ''deny''],
     kFacts = [(''amount'', ''number''), (''vip'', ''boolean'')], kQuestions = exampleQuestions,
     kRuleIDs = [''floor'', ''safe'']\<rparr>"

definition exampleText :: string where
  "exampleText = render (the (encode_policy (canonicalForm exampleDraft)))"

definition examplePolicy :: Compiled where
  "examplePolicy = exampleDraft\<lparr>cOutcomeSet := [''allow'', ''deny''], cCanonical := exampleText,
     cHash := sha256_hex exampleText\<rparr>"

lemma exampleDoc_stages:
  "compileStages (newCompiler 64) exampleDoc (newCompiled exampleDoc) = Inr (exampleCompiler, exampleDraft)"
  by code_simp

lemma exampleDraft_form: "canonicalForm (exampleDraft\<lparr>cOutcomeSet := x\<rparr>) = canonicalForm exampleDraft"
  by (simp add: canonicalForm_def)

lemma exampleDraft_encodes: "encode_policy (canonicalForm exampleDraft) \<noteq> None"
proof -
  have "\<exists>t. json_float round64 (Fin q) = Some t" for q
    using json_float_None [of round64 "Fin q"] by auto
  then obtain t u where "json_float round64 (Fin 1000) = Some t" "json_float round64 (Fin (1 / 2)) = Some u"
    by metis
  moreover have "opt_list (map encode_question (cpQuestions (canonicalForm exampleDraft))) \<noteq> None"
    by code_simp
  ultimately show ?thesis
    by (simp add: encode_policy_def canonicalForm_def canonicalRules_def exampleDraft_def examplePre_def
        exampleDecision_def encode_rule_def bind_eq_None_conv zeroOperand_def)
qed

lemma exampleDoc_compiles: "CompileWithMaxQuestions (Some exampleDoc) 64 = Inr examplePolicy"
proof -
  obtain j where "encode_policy (canonicalForm exampleDraft) = Some j"
    using exampleDraft_encodes by blast
  then show ?thesis
    by (simp add: CompileWithMaxQuestions_def validateDocumentIdentity_def exampleDoc_stages
        canonicalize_def exampleDraft_form examplePolicy_def exampleText_def exampleCompiler_def)
      (simp add: exampleDoc_def)
qed

lemma examplePolicy_wf: "wf_compiled examplePolicy"
  using CompileWithMaxQuestions_Inr(1) [OF exampleDoc_compiles exampleDoc_ok] .

text \<open>The same document with its questions and options in another order.\<close>

definition exampleDocPermuted :: Document where
  "exampleDocPermuted = exampleDoc\<lparr>docSpec := exampleSpec\<lparr>specQuestions :=
     [(''risk'', \<lparr>qType = ''choice'', qInstructions = VNil,
         qCriteria = VMap [(''high'', VNil), (''low'', VNil)]\<rparr>),
      (''safe'', \<lparr>qType = ''noul'', qInstructions = VNil, qCriteria = VNil\<rparr>)]\<rparr>\<rparr>"

section \<open>A document whose canonical text cannot be written\<close>

definition nanDoc :: Document where
  "nanDoc = exampleDoc\<lparr>docSpec := exampleSpec\<lparr>specPreRules := [\<lparr>ruleID = ''floor'', ruleDescription = [],
     ruleWhen = Some (leafFact ''amount'' ''gt'' (VFloat64 NaN)), ruleOutcome = ''deny''\<rparr>]\<rparr>\<rparr>"

definition nanDraft :: Compiled where
  "nanDraft = (newCompiled exampleDoc)\<lparr>cRef := \<lparr>refName = ''pay'', refVersion = ''1''\<rparr>,
     cOutcomes := [''allow'', ''deny''], cDefaultOutcome := ''deny'',
     cRequiredFacts := [(''amount'', ''number'')], cOptionalFacts := [(''vip'', ''boolean'')],
     cQuestions := exampleQuestions, cQuestionIDs := [''risk'', ''safe''],
     cPreRules := [examplePre\<lparr>crCondition := Some (CompiledCondition conditionKindLeaf []
       (zeroOperand\<lparr>factName := ''amount'', factType := ''number''\<rparr>) ''gt'' (VFloat64 NaN) [] False)\<rparr>],
     cDecisionRules := [exampleDecision]\<rparr>"

lemma nanDoc_stages:
  "compileStages (newCompiler 64) nanDoc (newCompiled nanDoc) = Inr (exampleCompiler, nanDraft)"
  by code_simp

lemma nanDoc_fails: "CompileWithMaxQuestions (Some nanDoc) 64 = Inl marshal_error"
proof -
  have "json_float round64 NaN = None" by (simp add: json_float_None)
  then have "encode_policy (canonicalForm (nanDraft\<lparr>cOutcomeSet := x\<rparr>)) = None" for x
    by (simp add: encode_policy_def canonicalForm_def canonicalRules_def nanDraft_def examplePre_def
        encode_rule_def bind_eq_None_conv zeroOperand_def)
  then show ?thesis
    by (simp add: CompileWithMaxQuestions_def validateDocumentIdentity_def nanDoc_stages canonicalize_def)
      (simp add: nanDoc_def exampleDoc_def)
qed

end
