(* ===== verification/Scenario.thy ===== *)
theory Scenario
  imports Concurrency Example
begin

text \<open>
  Concrete requests against the example policy, shared by the instances of the pipeline's
  properties: a service over that policy alone, sessions without faults, a keyed request that a
  pre-rule settles and one that reaches a provider that is rate limited.
\<close>

definition exampleConfig :: Config where
  "exampleConfig = \<lparr>cfgAllowInlinePolicies = False, cfgMaxPolicyBytes = 1000, cfgMaxStateBytes = 1000,
     cfgMaxQuestions = 64, cfgMaxFacts = 10, cfgMaxMetadataEntries = 10, cfgMaxMetadataValueLength = 100,
     cfgStoreInputs = False, cfgIdempotencyRetention = 1000\<rparr>"

definition examplePolicies :: policiesService where
  "examplePolicies = \<lparr>svSet = \<lparr>setByRef = [(cRef examplePolicy, examplePolicy)],
     setRefs = [cRef examplePolicy]\<rparr>, svMaxPolicyBytes = 1000, svMaxQuestions = 64\<rparr>"

definition exampleService :: Service where
  "exampleService = \<lparr>svcPolicies = examplePolicies, svcConfig = exampleConfig, svcYaml = (\<lambda>_. None),
     svcProvider = (\<lambda>_. Inl [ErrRateLimited]), svcObserved = True\<rparr>"

definition exampleSession :: "instant \<Rightarrow> uuid \<Rightarrow> Session" where
  "exampleSession t i = \<lparr>seNewID = i, seNowReplay = t, seNowSnapshot = t, seNowStart = t, seNowEnd = t,
     seNowIdempotency = t, seNowFeedback = t, seDriver = DriverSQLite, seFails = (\<lambda>_. False), seSealer = None,
     seAnswers = (\<lambda>_. None), seMetadata = (\<lambda>_. None)\<rparr>"

lemma exampleSession_stores [simp]:
  "storeSnapshot (exampleSession t i) p = p" "storeEvaluation (exampleSession t i) r = r"
  "storeIdempotency (exampleSession t i) k = k" "storeFeedback (exampleSession t i) f = f"
  by (simp_all add: storeSnapshot_def storeEvaluation_def storeIdempotency_def storeFeedback_def storedInstant_def
      exampleSession_def DriverSQLite_def DriverPostgres_def)

lemma exampleSession_fails: "seFails (exampleSession t i) = (\<lambda>_. False)"
  by (simp add: exampleSession_def)

definition exampleInput :: "int \<Rightarrow> string \<Rightarrow> CreateInput" where
  "exampleInput amount key = \<lparr>ciPolicyRef = Some (cRef examplePolicy), ciInlinePolicy = [], ciState = VNil,
     ciFacts = Some [(''amount'', VInt amount)], ciMetadata = None, ciIdempotencyKey = key,
     ciRequestID = ''r''\<rparr>"

lemma examplePolicy_authentic: "authentic examplePolicy"
  using CompileWithMaxQuestions_Inr(1, 5) [OF exampleDoc_compiles exampleDoc_ok]
  by (simp add: authentic_def)

lemma examplePolicy_fields [simp]:
  "cRef examplePolicy = \<lparr>refName = ''pay'', refVersion = ''1''\<rparr>" "cPreRules examplePolicy = [examplePre]"
  "cDecisionRules examplePolicy = [exampleDecision]" "cQuestionIDs examplePolicy = [''risk'', ''safe'']"
  "cQuestions examplePolicy = exampleQuestions" "cModel examplePolicy = ''m''"
  "cOutcomes examplePolicy = [''allow'', ''deny'']" "cDefaultOutcome examplePolicy = ''deny''"
  "cHash examplePolicy = sha256_hex exampleText" "cCanonical examplePolicy = exampleText"
  by (simp_all add: examplePolicy_def exampleDraft_def newCompiled_def exampleDoc_def exampleSpec_def)

lemma examplePolicies_serve: "serves examplePolicies [examplePolicy]"
  by (simp add: serves_def examplePolicies_def NewSet_def examplePolicy_authentic has_key_def)

lemma exampleService_ok: "service_ok exampleService"
  using examplePolicies_serve by (auto simp: service_ok_def exampleService_def yaml_ok_def)

lemma exampleInput_resolves:
  "resolvePolicy exampleService (exampleInput n key) = Inr (examplePolicy, PolicyKindNamed)"
  by (simp add: resolvePolicy_def exampleService_def exampleInput_def Service_Compiled_def examplePolicies_def Get_def)

lemma exampleInput_shape:
  "validateRequestShape exampleConfig (exampleInput n key) = Inr ()"
  "validateRequestShape (exampleConfig\<lparr>cfgStoreInputs := True\<rparr>) (exampleInput n key) = Inr ()"
proof -
  have "IsFactName ''amount''" by code_simp
  then show "validateRequestShape exampleConfig (exampleInput n key) = Inr ()"
    "validateRequestShape (exampleConfig\<lparr>cfgStoreInputs := True\<rparr>) (exampleInput n key) = Inr ()"
    by (simp_all add: validateRequestShape_def validateStateSize_def validateFactCount_def validateMetadata_def
        exampleInput_def exampleConfig_def entries_def Marshal_def sorted_keys_def isScalarFact_def)
qed

lemma exampleInput_facts: "ValidateFacts examplePolicy [(''amount'', VInt n)] = Inr ()"
  by (auto simp: ValidateFacts_conform facts_conform_def examplePolicy_def exampleDraft_def
      newCompiled_def FactType_Matches_def decision_consts split: if_splits)

lemma examplePre_runs:
  "EvaluatePreRules examplePolicy [(''amount'', VInt 5000)] = Some (preResult examplePre, True)"
  "EvaluatePreRules examplePolicy [(''amount'', VInt 5)] = Some (zeroResult, False)"
  unfolding EvaluatePreRules_def examplePolicy_fields by code_simp+


definition exampleHash :: "int \<Rightarrow> string" where
  "exampleHash n = sha256_hex (render (JObj [(''policyHash'', JStr (sha256_hex exampleText)), (''state'', JNull),
     (''facts'', JObj [(''amount'', JNum (Itoa n))]), (''metadata'', JNull)]))"

lemma exampleInput_hash: "canonicalRequestHash (cHash examplePolicy) (exampleInput n key) = Inr (exampleHash n)"
  by (simp add: canonicalRequestHash_def canonicalRequest_def exampleInput_def to_json_map_def json_strings_def
      exampleHash_def)

definition exampleWorld :: World where "exampleWorld = syWorld start"

definition settledRow :: EvaluationRow where
  "settledRow = completeRecord (exampleSession 0 ''e1'')
     (newRecord (exampleSession 0 ''e1'') examplePolicy PolicyKindNamed (exampleInput 5000 ''k'')) (preResult examplePre)"

definition settledWorld :: World where
  "settledWorld = fst (Create exampleService (exampleSession 0 ''e1'') exampleWorld (exampleInput 5000 ''k''))"

lemma exampleWorld_keys: "db_keys (wDB exampleWorld)"
  by (simp add: exampleWorld_def start_def db_keys_def)

lemmas create_run_simps = Create_def createBegin_def createCommit_def exampleInput_resolves exampleInput_shape
  exampleInput_hash replay_def ensureSnapshot_def decide_def applyPreRules_def persist_def persistTx_def sealInput_def
  insertRow_def findRow_def insertIgnore_def exampleInput_facts examplePre_runs

lemma settled_run:
  "Create exampleService (exampleSession 0 ''e1'') exampleWorld (exampleInput 5000 ''k'') =
     (settledWorld, Inr (evaluationModelToAPI (exampleSession 0 ''e1'') settledRow))"
  "wCalls settledWorld = []" "dbEvaluations (wDB settledWorld) = [settledRow]"
  "dbIdempotency (wDB settledWorld) = [idempotencyRow exampleService (exampleSession 0 ''e1'') settledRow
     (exampleInput 5000 ''k'') (exampleHash 5000)]"
  "dbFeedback (wDB settledWorld) = []"
proof -
  have cfg: "svcConfig exampleService = exampleConfig" by (simp add: exampleService_def)
  have input: "entries (ciFacts (exampleInput n key)) = [(''amount'', VInt n)]"
    "ciIdempotencyKey (exampleInput n key) = key" for n key
    by (simp_all add: exampleInput_def entries_def)
  have se: "seFails (exampleSession t i) = (\<lambda>_. False)" "seSealer (exampleSession t i) = None" for t i
    by (simp_all add: exampleSession_def)
  have none: "settledRow\<lparr>evEncryptedInput := None\<rparr> = settledRow"
    by (simp add: settledRow_def completeRecord_def applyResult_def newRecord_def)
  have "snd (Create exampleService (exampleSession 0 ''e1'') exampleWorld (exampleInput 5000 ''k'')) =
      Inr (evaluationModelToAPI (exampleSession 0 ''e1'') settledRow)"
    "wCalls settledWorld = []" "dbEvaluations (wDB settledWorld) = [settledRow]"
    "dbIdempotency (wDB settledWorld) = [idempotencyRow exampleService (exampleSession 0 ''e1'') settledRow
       (exampleInput 5000 ''k'') (exampleHash 5000)]"
    "dbFeedback (wDB settledWorld) = []"
    using none unfolding settledWorld_def
    by (simp_all add: create_run_simps cfg input se exampleWorld_def start_def observeCompleted_def
        settledRow_def [symmetric] Let_def del: examplePolicy_fields)
  then show "Create exampleService (exampleSession 0 ''e1'') exampleWorld (exampleInput 5000 ''k'') =
     (settledWorld, Inr (evaluationModelToAPI (exampleSession 0 ''e1'') settledRow))"
    "wCalls settledWorld = []" "dbEvaluations (wDB settledWorld) = [settledRow]"
    "dbIdempotency (wDB settledWorld) = [idempotencyRow exampleService (exampleSession 0 ''e1'') settledRow
       (exampleInput 5000 ''k'') (exampleHash 5000)]"
    "dbFeedback (wDB settledWorld) = []"
    by (simp_all add: settledWorld_def prod_eq_iff)
qed

lemma settled_keys: "db_keys (wDB settledWorld)"
  by (rule Create_keys [OF settled_run(1) exampleWorld_keys])

lemma settled_changes: "settledWorld \<noteq> exampleWorld"
proof
  assume "settledWorld = exampleWorld"
  with settled_run(3) show False by (simp add: exampleWorld_def start_def)
qed

text \<open>
  The same request on PostgreSQL at an instant that is no whole microsecond: the response carries
  the instant, the row what the column keeps of it.
\<close>

definition postgresSession :: "instant \<Rightarrow> uuid \<Rightarrow> Session" where
  "postgresSession t i = (exampleSession t i)\<lparr>seDriver := DriverPostgres\<rparr>"

definition postgresRow :: EvaluationRow where
  "postgresRow = completeRecord (postgresSession 1234 ''e1'')
     (newRecord (postgresSession 1234 ''e1'') examplePolicy PolicyKindNamed (exampleInput 5000 ''k'')) (preResult examplePre)"

definition postgresWorld :: World where
  "postgresWorld = fst (Create exampleService (postgresSession 1234 ''e1'') exampleWorld (exampleInput 5000 ''k''))"

lemma postgres_run:
  "Create exampleService (postgresSession 1234 ''e1'') exampleWorld (exampleInput 5000 ''k'') =
     (postgresWorld, Inr (evaluationModelToAPI (postgresSession 1234 ''e1'') postgresRow))"
  "dbEvaluations (wDB postgresWorld) = [storeEvaluation (postgresSession 1234 ''e1'') postgresRow]"
  "dbIdempotency (wDB postgresWorld) = [storeIdempotency (postgresSession 1234 ''e1'')
     (idempotencyRow exampleService (postgresSession 1234 ''e1'') postgresRow (exampleInput 5000 ''k'') (exampleHash 5000))]"
proof -
  have cfg: "svcConfig exampleService = exampleConfig" by (simp add: exampleService_def)
  have input: "entries (ciFacts (exampleInput n key)) = [(''amount'', VInt n)]"
    "ciIdempotencyKey (exampleInput n key) = key" for n key
    by (simp_all add: exampleInput_def entries_def)
  have se: "seFails (postgresSession t i) = (\<lambda>_. False)" "seSealer (postgresSession t i) = None" for t i
    by (simp_all add: postgresSession_def exampleSession_def)
  have none: "postgresRow\<lparr>evEncryptedInput := None\<rparr> = postgresRow"
    by (simp add: postgresRow_def completeRecord_def applyResult_def newRecord_def)
  have "snd (Create exampleService (postgresSession 1234 ''e1'') exampleWorld (exampleInput 5000 ''k'')) =
      Inr (evaluationModelToAPI (postgresSession 1234 ''e1'') postgresRow)"
    and rows: "dbEvaluations (wDB postgresWorld) = [storeEvaluation (postgresSession 1234 ''e1'') postgresRow]"
    "dbIdempotency (wDB postgresWorld) = [storeIdempotency (postgresSession 1234 ''e1'')
       (idempotencyRow exampleService (postgresSession 1234 ''e1'') postgresRow (exampleInput 5000 ''k'') (exampleHash 5000))]"
    using none unfolding postgresWorld_def
    by (simp_all add: create_run_simps cfg input se exampleWorld_def start_def observeCompleted_def
        postgresRow_def [symmetric] Let_def del: examplePolicy_fields)
  then show "Create exampleService (postgresSession 1234 ''e1'') exampleWorld (exampleInput 5000 ''k'') =
     (postgresWorld, Inr (evaluationModelToAPI (postgresSession 1234 ''e1'') postgresRow))"
    by (simp add: postgresWorld_def prod_eq_iff)
  from rows show "dbEvaluations (wDB postgresWorld) = [storeEvaluation (postgresSession 1234 ''e1'') postgresRow]"
    "dbIdempotency (wDB postgresWorld) = [storeIdempotency (postgresSession 1234 ''e1'')
       (idempotencyRow exampleService (postgresSession 1234 ''e1'') postgresRow (exampleInput 5000 ''k'') (exampleHash 5000))]" .
qed

lemma postgres_keys: "db_keys (wDB postgresWorld)"
  by (rule Create_keys [OF postgres_run(1) exampleWorld_keys])

lemma postgres_instants:
  "aeCreatedAt (evaluationModelToAPI se postgresRow) = 1234"
  "evCreatedAt (storeEvaluation (postgresSession 1234 ''e1'') postgresRow) = 1000"
  by (simp_all add: evaluationModelToAPI_def storeEvaluation_def storedInstant_def postgresRow_def completeRecord_def
      applyResult_def newRecord_def postgresSession_def exampleSession_def)

text \<open>A request no pre-rule settles, whose provider is rate limited: it is recorded as failed.\<close>

definition askedRow :: EvaluationRow where
  "askedRow = (newRecord (exampleSession 0 ''e1'') examplePolicy PolicyKindNamed (exampleInput 5 []))
     \<lparr>evStatus := EvaluationStatusProviderFailed, evFailureCode := classifyProviderFailure [ErrRateLimited],
      evTotalDurationMS := elapsedMS (exampleSession 0 ''e1'')\<rparr>"

definition askedWorld :: World where
  "askedWorld = fst (Create exampleService (exampleSession 0 ''e1'') exampleWorld (exampleInput 5 []))"

lemma asked_run:
  "Create exampleService (exampleSession 0 ''e1'') exampleWorld (exampleInput 5 []) =
     (askedWorld, Inr (evaluationModelToAPI (exampleSession 0 ''e1'') askedRow))"
  "wCalls askedWorld = [buildProviderRequest examplePolicy (exampleInput 5 [])]"
  "dbEvaluations (wDB askedWorld) = [askedRow]"
proof -
  have cfg: "svcConfig exampleService = exampleConfig"
    "svcProvider exampleService x = Inl [ErrRateLimited]" for x by (simp_all add: exampleService_def)
  have input: "entries (ciFacts (exampleInput n key)) = [(''amount'', VInt n)]"
    "ciIdempotencyKey (exampleInput n key) = key" for n key
    by (simp_all add: exampleInput_def entries_def)
  have se: "seFails (exampleSession t i) = (\<lambda>_. False)" "seSealer (exampleSession t i) = None" for t i
    by (simp_all add: exampleSession_def)
  have none: "askedRow\<lparr>evEncryptedInput := None\<rparr> = askedRow"
    by (simp add: askedRow_def newRecord_def)
  have "snd (Create exampleService (exampleSession 0 ''e1'') exampleWorld (exampleInput 5 [])) =
      Inr (evaluationModelToAPI (exampleSession 0 ''e1'') askedRow)"
    and rest: "wCalls askedWorld = [buildProviderRequest examplePolicy (exampleInput 5 [])]"
    "dbEvaluations (wDB askedWorld) = [askedRow]"
    using none unfolding askedWorld_def
    by (simp_all add: create_run_simps cfg input se exampleWorld_def start_def observeCompleted_def askProvider_def
        recordProviderFailure_def emit_def askedRow_def [symmetric] Let_def del: examplePolicy_fields)
  then show "Create exampleService (exampleSession 0 ''e1'') exampleWorld (exampleInput 5 []) =
     (askedWorld, Inr (evaluationModelToAPI (exampleSession 0 ''e1'') askedRow))"
    by (simp add: askedWorld_def prod_eq_iff)
  from rest show "wCalls askedWorld = [buildProviderRequest examplePolicy (exampleInput 5 [])]"
    "dbEvaluations (wDB askedWorld) = [askedRow]" .
qed

lemma refused_run:
  "Create exampleService (exampleSession 0 ''e2'') settledWorld ((exampleInput 5000 [])\<lparr>ciPolicyRef := None\<rparr>) =
     (settledWorld, Inl ErrPolicySelection)"
  by (simp add: Create_def createBegin_def resolvePolicy_def exampleInput_def)

text \<open>A database that still holds a key that has expired, and one whose key belongs to another request.\<close>

definition keyedWorld :: "instant \<Rightarrow> World" where
  "keyedWorld t = exampleWorld\<lparr>wDB := (wDB exampleWorld)\<lparr>dbIdempotency :=
     [\<lparr>idKeyHash = hashKey ''k'', idCanonicalRequestHash = [], idEvaluationID = ''e0'', idExpiresAt = t,
       idCreatedAt = 0\<rparr>]\<rparr>\<rparr>"

lemma keyedWorld_keys: "db_keys (wDB (keyedWorld t))"
  by (simp add: keyedWorld_def exampleWorld_def start_def db_keys_def)

lemma stale_run:
  "snd (Create exampleService (exampleSession 100 ''e1'') (keyedWorld 50) (exampleInput 5 ''k'')) = Inl dbError"
  "wCalls (fst (Create exampleService (exampleSession 100 ''e1'') (keyedWorld 50) (exampleInput 5 ''k''))) =
     [buildProviderRequest examplePolicy (exampleInput 5 ''k'')]"
proof -
  have cfg: "svcConfig exampleService = exampleConfig"
    "svcProvider exampleService x = Inl [ErrRateLimited]" for x by (simp_all add: exampleService_def)
  have input: "entries (ciFacts (exampleInput n key)) = [(''amount'', VInt n)]"
    "ciIdempotencyKey (exampleInput n key) = key" for n key
    by (simp_all add: exampleInput_def entries_def)
  have se: "seFails (exampleSession t i) = (\<lambda>_. False)" "seSealer (exampleSession t i) = None"
    "seNowReplay (exampleSession t i) = t" for t i
    by (simp_all add: exampleSession_def)
  show "snd (Create exampleService (exampleSession 100 ''e1'') (keyedWorld 50) (exampleInput 5 ''k'')) = Inl dbError"
    "wCalls (fst (Create exampleService (exampleSession 100 ''e1'') (keyedWorld 50) (exampleInput 5 ''k''))) =
      [buildProviderRequest examplePolicy (exampleInput 5 ''k'')]"
    by (simp_all add: create_run_simps cfg input se keyedWorld_def exampleWorld_def start_def time_Before_def
        askProvider_def recordProviderFailure_def idempotencyRow_def emit_def Let_def
        del: examplePolicy_fields)
qed

section \<open>A policy directory\<close>

text \<open>One file, and a decoder that reads the example document out of it.\<close>

definition exampleYaml :: yamlDecoder where
  "exampleYaml data = (if data = ''pay'' then Some (exampleDoc, True) else None)"

definition exampleDir :: fileSystem where
  "exampleDir = \<lparr>fsReadDir = (\<lambda>_. Some [''pay.yaml'']),
     fsLstat = (\<lambda>_ _. Some \<lparr>fiSymlink = False, fiRegular = True, fiSize = 3\<rparr>), fsReadFile = (\<lambda>_ _. Some ''pay'')\<rparr>"

lemma exampleYaml_ok: "yaml_ok exampleYaml"
  using exampleDoc_ok by (simp add: yaml_ok_def exampleYaml_def)

lemma exampleDir_loads:
  "LoadDirWithMaxQuestions exampleYaml exampleDir ''policies'' 100 64 = Inr (svSet
     \<lparr>svSet = \<lparr>setByRef = [(cRef examplePolicy, examplePolicy)], setRefs = [cRef examplePolicy]\<rparr>,
      svMaxPolicyBytes = 0, svMaxQuestions = 0\<rparr>)"
proof -
  have "isPolicyExtension (map lower (Ext ''pay.yaml''))" by code_simp
  moreover have "''pay.yaml'' = Base ''pay.yaml''" by code_simp
  moreover have "length (TrimSpace ''pay'') = 3" by code_simp
  ultimately show ?thesis
    by (simp add: LoadDirWithMaxQuestions_def exampleDir_def loadPolicyFile_def checkRegularFile_def resolveMaxBytes_def
        CompileBytesWithMaxQuestions_def ParseDocument_def exampleYaml_def exampleDoc_compiles NewSet_def has_key_def
        Let_def del: examplePolicy_fields)
qed

section \<open>Listing and feedback\<close>

definition exampleFilter :: ListFilter where
  "exampleFilter = \<lparr>lfLimit = 10, lfOffset = 0, lfPolicyName = ''pay'', lfPolicyVersion = [], lfOutcome = [],
     lfStatus = []\<rparr>"

definition exampleListing :: EvaluationList where
  "exampleListing = \<lparr>elItems = [evaluationModelToAPI (exampleSession 0 ''x'') settledRow], elLimit = 10,
     elOffset = 0, elHasMore = False\<rparr>"

lemma exampleListing_run:
  "Evaluation_List (exampleSession 0 ''x'') (wDB settledWorld) exampleFilter = Inr exampleListing"
proof -
  have "evPolicyName settledRow = ''pay''"
    by (simp add: settledRow_def completeRecord_def applyResult_def newRecord_def)
  then show ?thesis
    by (simp add: Evaluation_List_def exampleFilter_def exampleListing_def filtered_def settled_run newest_first_def
        page_def int64_add_def Let_def) (simp add: exampleSession_def)
qed

definition exampleFeedback :: FeedbackInput where
  "exampleFeedback = \<lparr>fiEvaluationID = ''e1'', fiExpectedOutcome = ''allow'', fiNote = []\<rparr>"

definition exampleFeedbackRow :: EvaluationFeedback where
  "exampleFeedbackRow = \<lparr>fbID = ''f1'', fbEvaluationID = ''e1'', fbExpectedOutcome = ''allow'', fbNote = [],
     fbCreatedAt = 0\<rparr>"

lemma exampleFeedback_run:
  "snd (SubmitFeedback exampleService (exampleSession 0 ''f1'') settledWorld exampleFeedback) =
     Inr (feedbackModelToAPI exampleFeedbackRow)"
proof -
  have "Outcome_IsValid ''allow''" by code_simp
  moreover have "evID settledRow = ''e1''" "evPolicyName settledRow = ''pay''" "evPolicyVersion settledRow = ''1''"
    by (simp_all add: settledRow_def completeRecord_def applyResult_def newRecord_def exampleSession_def)
  moreover have "\<not> seFails (exampleSession 0 ''f1'') st" "seNewID (exampleSession 0 ''f1'') = ''f1''"
    "seNowFeedback (exampleSession 0 ''f1'') = 0" for st by (simp_all add: exampleSession_def)
  ultimately show ?thesis
    by (simp add: SubmitFeedback_def feedbackBegin_def feedbackCommit_def validateFeedback_def findEvaluation_def
        findRow_def settled_run validateExpectedOutcome_def exampleService_def Service_Compiled_def Get_def
        examplePolicies_def insertRow_def exampleFeedback_def exampleFeedbackRow_def MaxFeedbackNoteLength_def)
qed

section \<open>Retained input\<close>

definition sealingService :: Service where
  "sealingService = exampleService\<lparr>svcConfig := exampleConfig\<lparr>cfgStoreInputs := True\<rparr>\<rparr>"

definition sealingSession :: Session where
  "sealingSession = (exampleSession 0 ''e1'')\<lparr>seSealer := Some (\<lambda>t. Inr (rev t))\<rparr>"

definition sealedRow :: EvaluationRow where
  "sealedRow = (completeRecord sealingSession (newRecord sealingSession examplePolicy PolicyKindNamed
     (exampleInput 5000 [])) (preResult examplePre))\<lparr>evEncryptedInput :=
       Some (rev (render (the (inputPayload (exampleInput 5000 [])))))\<rparr>"

lemma sealing_run:
  "Create sealingService sealingSession exampleWorld (exampleInput 5000 []) =
     (fst (Create sealingService sealingSession exampleWorld (exampleInput 5000 [])),
      Inr (evaluationModelToAPI sealingSession sealedRow))"
  "dbEvaluations (wDB (fst (Create sealingService sealingSession exampleWorld (exampleInput 5000 [])))) = [sealedRow]"
proof -
  have svc: "svcConfig sealingService = exampleConfig\<lparr>cfgStoreInputs := True\<rparr>"
    "resolvePolicy sealingService (exampleInput n key) = Inr (examplePolicy, PolicyKindNamed)" for n key
    by (simp_all add: sealingService_def resolvePolicy_def exampleService_def exampleInput_def
        Service_Compiled_def examplePolicies_def Get_def)
  have input: "entries (ciFacts (exampleInput n key)) = [(''amount'', VInt n)]"
    "ciIdempotencyKey (exampleInput n key) = key" for n key
    by (simp_all add: exampleInput_def entries_def)
  have se: "seFails sealingSession = (\<lambda>_. False)" "seSealer sealingSession = Some (\<lambda>t. Inr (rev t))"
    "storeSnapshot sealingSession p = p" "storeEvaluation sealingSession r = r" for p r
    by (simp_all add: sealingSession_def exampleSession_def storeSnapshot_def storeEvaluation_def storedInstant_def
        DriverSQLite_def DriverPostgres_def)
  have "inputPayload (exampleInput 5000 []) \<noteq> None"
    by (simp add: inputPayload_def exampleInput_def to_json_map_def)
  then obtain j where j: "inputPayload (exampleInput 5000 []) = Some j" by blast
  have "snd (Create sealingService sealingSession exampleWorld (exampleInput 5000 [])) =
      Inr (evaluationModelToAPI sealingSession sealedRow)"
    "dbEvaluations (wDB (fst (Create sealingService sealingSession exampleWorld (exampleInput 5000 [])))) = [sealedRow]"
    by (simp_all add: create_run_simps svc input se exampleWorld_def start_def observeCompleted_def j
        sealedRow_def Let_def del: examplePolicy_fields)
  then show "Create sealingService sealingSession exampleWorld (exampleInput 5000 []) =
     (fst (Create sealingService sealingSession exampleWorld (exampleInput 5000 [])),
      Inr (evaluationModelToAPI sealingSession sealedRow))"
    "dbEvaluations (wDB (fst (Create sealingService sealingSession exampleWorld (exampleInput 5000 [])))) = [sealedRow]"
    by (simp_all add: prod_eq_iff)
qed

lemma sealingService_ok: "service_ok sealingService"
  using exampleService_ok by (simp add: service_ok_def sealingService_def)

section \<open>Retention\<close>

definition examplePass :: RetentionPass where
  "examplePass = \<lparr>rpNow = 100, rpDriver = DriverSQLite, rpFails = (\<lambda>_. False), rpDeleted = id, rpFound = take retentionBatchSize\<rparr>"

lemma mset_take_subset: "mset (take n xs) \<subseteq># mset xs"
  by (metis append_take_drop_id mset_append mset_subset_eq_add_left)

lemma examplePass_ok: "pass_ok examplePass" and examplePass_faultless: "faultless examplePass"
  by (simp_all add: pass_ok_def faultless_def examplePass_def limited_def limited_select_def mset_take_subset min_def)

lemma examplePass_found: "rpFound examplePass = take retentionBatchSize"
  by (simp add: examplePass_def)

lemma examplePass_instants [simp]: "storedInstant (rpDriver examplePass) t = t" "rpNow examplePass = 100"
  by (simp_all add: examplePass_def storedInstant_def DriverSQLite_def DriverPostgres_def)

section \<open>A feedback row that outlives its evaluation\<close>

text \<open>
  Feedback is checked, the retention pass removes the evaluation with the feedback it has so
  far, and only then is the new feedback written.
\<close>

definition agingSettings :: retentionSettings where "agingSettings = \<lparr>rtEvery = 1, rtEvaluations = 10\<rparr>"

definition agedDB :: DB where
  "agedDB = (wDB settledWorld)\<lparr>dbEvaluations := [], dbFeedback := []\<rparr>"

definition dangling :: System where
  "dangling = start\<lparr>syWorld := settledWorld\<lparr>wDB := agedDB\<lparr>dbFeedback := [exampleFeedbackRow]\<rparr>\<rparr>, syRetired := {''e1''}\<rparr>"

lemma settledRow_fields: "evID settledRow = ''e1''" "evCreatedAt settledRow = 0"
  "evPolicyName settledRow = ''pay''" "evPolicyVersion settledRow = ''1''"
  by (simp_all add: settledRow_def completeRecord_def applyResult_def newRecord_def exampleSession_def)

lemma exampleFeedback_begins:
  "feedbackBegin exampleService (exampleSession 0 ''f1'') (wDB settledWorld) exampleFeedback = Inr exampleFeedbackRow"
proof -
  have "Outcome_IsValid ''allow''" by code_simp
  then show ?thesis
    by (simp add: feedbackBegin_def validateFeedback_def findEvaluation_def findRow_def settled_run settledRow_fields
        validateExpectedOutcome_def exampleService_def Service_Compiled_def Get_def examplePolicies_def
        exampleFeedback_def exampleFeedbackRow_def MaxFeedbackNoteLength_def exampleSession_def)
qed

lemma dangling_reachable: "steps exampleService agingSettings start dangling"
proof -
  let ?w = settledWorld
  let ?se = "exampleSession 0 ''f1''"
  let ?s0 = "start\<lparr>syWorld := ?w\<rparr>"
  let ?s1 = "?s0\<lparr>syFeedbacks := [(?se, exampleFeedbackRow)]\<rparr>"
  let ?s2 = "?s1\<lparr>syPhase := Marked [''e1'']\<rparr>"
  let ?s3 = "?s1\<lparr>syPhase := FeedbackDeleted [''e1'']\<rparr>"
  let ?s4 = "?s1\<lparr>syWorld := ?w\<lparr>wDB := agedDB\<rparr>, syRetired := {''e1''}\<rparr>"
  have "steps exampleService agingSettings start ?s0"
    by (rule Create_steps) (use settled_run(1) in \<open>simp add: exampleWorld_def\<close>)
  also have "step exampleService agingSettings ?s0 ?s1"
    using step.BeginFeedback [of exampleService ?se ?s0 exampleFeedback exampleFeedbackRow agingSettings]
    by (simp add: exampleFeedback_begins start_def)
  also have "step exampleService agingSettings ?s1 ?s2"
    using step.MarkBatch [OF _ examplePass_ok, of ?s1 agingSettings exampleService]
    by (simp add: start_def agingSettings_def cutoff_of_def findExpired_def examplePass_found settled_run
        settledRow_fields time_Before_def time_Add_def evaluationIDs_def retentionBatchSize_def)
  also have "step exampleService agingSettings ?s2 ?s3"
  proof -
    have "deleteFeedback [''e1''] (wDB ?w) = wDB ?w" by (simp add: deleteFeedback_def settled_run)
    then show ?thesis
      using step.DropFeedback [of ?s2 "[''e1'']" exampleService agingSettings] by (simp add: setDB_def start_def)
  qed
  also have "step exampleService agingSettings ?s3 ?s4"
  proof -
    have "deleteEvaluations [''e1''] (wDB ?w) = agedDB"
      by (simp add: deleteEvaluations_def deleteKeys_def settled_run settledRow_fields agedDB_def)
    then show ?thesis
      using step.DropEvaluations [of ?s3 "[''e1'']" exampleService agingSettings] by (simp add: setDB_def start_def)
  qed
  also have "step exampleService agingSettings ?s4 dangling"
    using step.CommitFeedback [of ?se exampleFeedbackRow ?s4 _ _ exampleService agingSettings]
    by (simp add: feedbackCommit_def exampleSession_fails insertRow_def agedDB_def dangling_def start_def)
  finally show ?thesis .
qed

lemma dangling_refers: "\<not> db_references (sysDB dangling)"
  by (simp add: dangling_def db_references_def agedDB_def)

end
