(* ===== verification/Deployment.thy ===== *)
theory Deployment
  imports Process ApiClient Scenario
begin

text \<open>
  Concrete instances for the properties of the process around the decision pipeline: two services
  of which one needs the other and a start-up of them, a service that fails twice, a cipher for
  the sealer, a provider that answers at the second attempt, requests to the REST surface and a client of it.
\<close>

section \<open>Two services\<close>

definition dbService :: managedService where
  "dbService = \<lparr>msName = ''db'', msDependencies = None, msMaxRetries = None, msRetryDelay = 0,
     msAllowedFailure = None, msNotifiesReady = True\<rparr>"

definition apiService :: managedService where
  "apiService = \<lparr>msName = ''api'', msDependencies = Some [''db'', ''cache''], msMaxRetries = Some 2, msRetryDelay = 0,
     msAllowedFailure = None, msNotifiesReady = False\<rparr>"

definition exampleManager :: manager where
  "exampleManager = Register (Register \<lparr>mgFactories = [], mgServices = []\<rparr> ''api'' (Inr apiService)) ''db'' (Inr dbService)"

definition exampleGroups :: "managedService list list" where
  "exampleGroups = [[dbService], [apiService]]"

definition exampleServices :: serviceMap where
  "exampleServices = [(''api'', apiService), (''db'', dbService)]"

lemma exampleManager_runs:
  "registered (mgServices exampleManager)"
  "Run (Some []) exampleManager = (exampleManager\<lparr>mgServices := exampleServices\<rparr>, Inr exampleGroups)"
  by (simp add: exampleManager_def Register_def) code_simp

lemma exampleServices_registered: "registered exampleServices"
  by (simp add: registered_def exampleServices_def gomap_ok_def apiService_def dbService_def)

lemma exampleServices_order: "resolveOrder exampleServices = Inr exampleGroups"
  by code_simp

section \<open>A start-up\<close>

text \<open>The database is launched and signals ready; then the server that needs it is launched.\<close>

definition dbLaunched :: startup where
  "dbLaunched = idle\<lparr>suPhase := Starting, suLaunched := [dbService], suWait := Some 0\<rparr>"

definition bothLaunched :: startup where
  "bothLaunched = idle\<lparr>suPhase := Starting, suNext := 1, suWait := Some 0, suLaunched := [dbService, apiService],
     suReady := [''db''], suStarted := [[dbService]]\<rparr>"

definition allStarted :: startup where
  "allStarted = bothLaunched\<lparr>suPhase := Started, suNext := 2, suWait := None, suStarted := [[dbService], [apiService]]\<rparr>"

text \<open>A group of one service, from the look at the failure signal to the wait for it to be ready.\<close>

lemma launch_one:
  assumes run: "start_run groups i s" and s: "suPhase s = Starting" "suSpawn s = None" "suWait s = None"
      "suNext s < length groups" "\<not> suFailed s" and group: "groups ! suNext s = [svc]"
  shows "start_run groups i (s\<lparr>suLaunched := suLaunched s @ [svc], suWait := Some 0\<rparr>)"
proof -
  let ?s1 = "s\<lparr>suSpawn := Some 0\<rparr>" and ?s2 = "s\<lparr>suLaunched := suLaunched s @ [svc], suSpawn := Some 1\<rparr>"
  have "start_run groups i ?s1" by (rule start_run.Step [OF run NextGroup [OF s]])
  moreover have "start_step groups ?s1 ?s2" using Launch [of ?s1 0 groups] s group by simp
  ultimately have "start_run groups i ?s2" by (rule start_run.Step)
  moreover have "start_step groups ?s2 (?s2\<lparr>suSpawn := None, suWait := Some 0\<rparr>)"
    by (rule GroupLaunched [of _ 1]) (simp_all add: s group)
  ultimately have "start_run groups i (?s2\<lparr>suSpawn := None, suWait := Some 0\<rparr>)" by (rule start_run.Step)
  moreover have "?s2\<lparr>suSpawn := None, suWait := Some 0\<rparr> = s\<lparr>suLaunched := suLaunched s @ [svc], suWait := Some 0\<rparr>"
    using s(2) by (cases s) simp
  ultimately show ?thesis by simp
qed

lemma dbLaunched_reached: "start_run exampleGroups idle dbLaunched"
proof -
  have "start_run exampleGroups idle (idle\<lparr>suPhase := Starting\<rparr>)"
    by (rule start_run.Step [OF Refl Begin]) (simp add: idle_def)
  from launch_one [OF this] show ?thesis by (simp add: dbLaunched_def idle_def exampleGroups_def)
qed

lemma bothLaunched_reached: "start_run exampleGroups idle bothLaunched"
proof -
  let ?ready = "dbLaunched\<lparr>suReady := [''db'']\<rparr>" and ?waited = "dbLaunched\<lparr>suReady := [''db''], suWait := Some 1\<rparr>"
  have "start_step exampleGroups dbLaunched ?ready"
    using SignalReady [of dbService dbLaunched exampleGroups] by (simp add: dbLaunched_def idle_def dbService_def)
  with dbLaunched_reached have "start_run exampleGroups idle ?ready" by (rule start_run.Step)
  moreover have "start_step exampleGroups ?ready ?waited"
    using Settled [of ?ready 0 exampleGroups] by (simp add: dbLaunched_def idle_def exampleGroups_def settled_def dbService_def)
  ultimately have "start_run exampleGroups idle ?waited" by (rule start_run.Step)
  moreover have "start_step exampleGroups ?waited (recordGroup exampleGroups ?waited)"
    by (rule GroupReady [of _ 1]) (simp_all add: dbLaunched_def idle_def exampleGroups_def)
  ultimately have r: "start_run exampleGroups idle (recordGroup exampleGroups ?waited)" by (rule start_run.Step)
  from launch_one [OF r] show ?thesis
    by (simp add: recordGroup_def dbLaunched_def bothLaunched_def idle_def exampleGroups_def)
qed

lemma allStarted_reached: "start_run exampleGroups idle allStarted"
proof -
  let ?waited = "bothLaunched\<lparr>suWait := Some 1\<rparr>"
  have "start_step exampleGroups bothLaunched ?waited"
    using Settled [of bothLaunched 0 exampleGroups]
    by (simp add: bothLaunched_def idle_def exampleGroups_def settled_def apiService_def)
  with bothLaunched_reached have "start_run exampleGroups idle ?waited" by (rule start_run.Step)
  moreover have "start_step exampleGroups ?waited (recordGroup exampleGroups ?waited)"
    by (rule GroupReady [of _ 1]) (simp_all add: bothLaunched_def idle_def exampleGroups_def)
  ultimately have r: "start_run exampleGroups idle (recordGroup exampleGroups ?waited)" by (rule start_run.Step)
  from start_run.Step [OF r AllStarted] show ?thesis
    by (simp add: recordGroup_def allStarted_def bothLaunched_def idle_def exampleGroups_def numeral_2_eq_2)
qed

text \<open>The database fails for good before it is ready; the failure is reported and signalled.\<close>

definition brokenWorld :: serviceWorld where
  "brokenWorld = \<lparr>swRun = (\<lambda>n. if n = 0 then Panicked ''boom'' else Returned (Some (ErrService ''down''))),
     swCancelled = (\<lambda>_. False), swTimer = (\<lambda>_. True)\<rparr>"

definition dbFailed :: startup where
  "dbFailed = dbLaunched\<lparr>suErrCh := Some (Some ErrServicePanic), suSent := [''db''], suFailed := True, suExited := [''db'']\<rparr>"

lemma broken_db: "runService dbService brokenWorld = (1, Failed (Some ErrServicePanic))"
  by code_simp

lemma broken_api: "runService apiService brokenWorld = (3, Failed (Some (ErrService ''down'')))"
  by code_simp

lemma dbFailed_reached: "start_run exampleGroups idle dbFailed"
proof -
  let ?sent = "dbLaunched\<lparr>suErrCh := Some (Some ErrServicePanic), suSent := [''db'']\<rparr>"
  have "start_step exampleGroups dbLaunched ?sent"
    using Report [of dbService dbLaunched brokenWorld 1 "Some ErrServicePanic" exampleGroups]
    by (simp add: broken_db dbLaunched_def idle_def dbService_def allowedFailure_def sendError_def broken_db [unfolded dbService_def])
  with dbLaunched_reached have r: "start_run exampleGroups idle ?sent" by (rule start_run.Step)
  from start_run.Step [OF r Trigger [of "''db''"]] show ?thesis
    by (simp add: dbFailed_def dbLaunched_def idle_def)
qed

section \<open>A cipher and a random source\<close>

definition plainCipher :: "string \<Rightarrow> sentinel + AEAD" where
  "plainCipher key = Inr \<lparr>aeadNonceSize = 2, aeadSeal = (\<lambda>nonce p. key @ p),
     aeadOpen = (\<lambda>nonce c. if take (length key) c = key then Some (drop (length key) c) else None)\<rparr>"

definition zeros :: "nat \<Rightarrow> string option" where
  "zeros n = Some (replicate n CHR ''0'')"

lemma plainCipher_ok: "gcm_cipher plainCipher" "fills zeros"
  by (simp_all add: gcm_cipher_def plainCipher_def fills_def zeros_def)

section \<open>A provider that recovers\<close>

definition exampleClient :: tsConfig where
  "exampleClient = tsWithDefaults \<lparr>tcBaseURL = '''', tcAPIKey = ''k'', tcDefaultModel = '''', tcTimeout = 0,
     tcMaxResponseBytes = 0, tcConcurrency = 0, tcMaxAttempts = 0, tcBackoffBase = 0, tcBackoffMax = 0, tcMaxElapsed = 0\<rparr>"

definition recovering :: clientWorld where
  "recovering = \<lparr>cwCall = (\<lambda>n. Inr \<lparr>hrStatus = (if n = 1 then 503 else 401), hrRetryAfterMs = '''', hrRetryAfter = '''',
       hrBody = Some ''''\<rparr>),
     cwDuration = (\<lambda>_. 5), cwCtxCall = (\<lambda>_. None), cwCtxRetry = (\<lambda>_. None), cwElapsedRetry = (\<lambda>_. 10),
     cwElapsedWait = (\<lambda>_. 10), cwWait = (\<lambda>_. None), cwTotal = 20, cwUntilDate = (\<lambda>_. None), cwDecode = (\<lambda>_. None),
     cwScaled = (\<lambda>base k. base * 2 ^ nat k)\<rparr>"

lemma exampleClient_fields [simp]:
  "tcMaxAttempts exampleClient = 3" "tcMaxElapsed exampleClient = 30000000000" "tcBackoffBase exampleClient = 200000000"
  "tcBackoffMax exampleClient = 5000000000" "tcMaxResponseBytes exampleClient = 1048576"
  by (simp_all add: exampleClient_def tsWithDefaults_def second_def millisecond_def)

lemma exampleClient_new: "tsNew (\<lambda>_. None) exampleClient = Inr exampleClient"
  by (simp add: tsNew_def tsValidate_def Let_def exampleClient_def tsWithDefaults_def second_def millisecond_def)

lemma recovering_attempt:
  "evaluateAttempt exampleClient recovering n =
     (let e = (if n = 1 then ErrFetchFailed else ErrNotAuthenticated); s = (if n = 1 then 503 else 401) in
      (\<lparr>atNumber = n, atStatusCode = s, atDuration = 5, atErr = Some [e]\<rparr>,
       Inl \<lparr>tfErr = [e], tfStatusCode = s, tfRetryable = (n = 1), tfRetryAfter = 0\<rparr>))"
  by (simp add: evaluateAttempt_def recovering_def readResponse_def classifyStatus_def statusOverloaded_def Let_def
      parseRetryAfter_def positiveCount_def Atoi_def)

lemma recovering_run:
  "map atStatusCode (fst (evaluateWithRetries exampleClient recovering)) = [503, 401]"
  "snd (evaluateWithRetries exampleClient recovering) = Inl [ErrNotAuthenticated]"
proof -
  have wait: "waitBeforeRetry exampleClient recovering 1 \<lparr>tfErr = [ErrFetchFailed], tfStatusCode = 503, tfRetryable = True,
      tfRetryAfter = 0\<rparr> = Inr ()"
    by (simp add: waitBeforeRetry_def backoffFor_def recovering_def MaxRetryAfterWait_def second_def millisecond_def
        wrap64_def)
  have "evaluateWithRetries exampleClient recovering = retryLoop exampleClient recovering 2
      [fst (evaluateAttempt exampleClient recovering 1)] [ErrFetchFailed]"
    using wait by (simp add: evaluateWithRetries_def retryLoop.simps [of _ _ 1] recovering_attempt shouldRetry_def Let_def)
      (simp add: recovering_def)
  then show "map atStatusCode (fst (evaluateWithRetries exampleClient recovering)) = [503, 401]"
    "snd (evaluateWithRetries exampleClient recovering) = Inl [ErrNotAuthenticated]"
    by (simp_all add: retryLoop.simps [of _ _ 2] recovering_attempt shouldRetry_def Let_def)
qed

section \<open>Requests to the REST surface\<close>

definition exampleHttp :: createRequest where
  "exampleHttp = \<lparr>crqBody = Some \<lparr>cbPolicyRef = Some (cRef examplePolicy), cbInlinePolicy = None, cbState = VNil,
     cbFacts = Some [(''amount'', VInt 5000)], cbMetadata = None\<rparr>, crqIdempotencyKey = Some ''k'', crqRequestID = ''r''\<rparr>"

lemma exampleHttp_input: "createInputFromRequest exampleHttp (the (crqBody exampleHttp)) = exampleInput 5000 ''k''"
  by (simp add: createInputFromRequest_def exampleHttp_def exampleInput_def entries_def)

lemma settled_completed: "aeStatus (evaluationModelToAPI (exampleSession 0 ''e1'') settledRow) = EvaluationStatusCompleted"
  by (simp add: evaluationModelToAPI_def Let_def settledRow_def completeRecord_def applyResult_def newRecord_def)

text \<open>A deployment that allows inline policies gets a document the decoder refuses.\<close>

definition inlineService :: Service where
  "inlineService = exampleService\<lparr>svcConfig := exampleConfig\<lparr>cfgAllowInlinePolicies := True\<rparr>\<rparr>"

definition inlineHttp :: createRequest where
  "inlineHttp = exampleHttp\<lparr>crqBody := Some \<lparr>cbPolicyRef = None, cbInlinePolicy = Some [(''kind'', VString ''?'')],
     cbState = VNil, cbFacts = None, cbMetadata = None\<rparr>\<rparr>"

lemma inline_fails:
  "compileInline (svcYaml inlineService) [(''kind'', VString ''?'')] (cfgMaxPolicyBytes (svcConfig inlineService))
     (cfgMaxQuestions (svcConfig inlineService)) = Inl ErrInvalidDocument"
proof -
  have "Marshal (VMap [(''kind'', VString ''?'')]) = Some (render (JObj [(''kind'', JStr ''?'')]))"
    by (simp add: Marshal_def)
  moreover have "length (render (JObj [(''kind'', JStr ''?'')])) < 1000" by code_simp
  ultimately show ?thesis
    by (simp add: compileInline_def encodeDocument_def inlineService_def exampleService_def exampleConfig_def
        CompileBytesWithMaxQuestions_def ParseDocument_def resolveMaxBytes_def)
qed

definition exampleRouter :: routerConfig where
  "exampleRouter = \<lparr>rcAPIToken = ''secret'', rcMaxRequestBytes = 8\<rparr>"

definition exampleReq :: httpReq where
  "exampleReq = \<lparr>hqMethod = ''POST'', hqAuthorization = ''Bearer secret'', hqRequestIDHeader = [], hqIdempotencyKey = Some [''k''],
     hqQuery = [], hqPathValues = [], hqScopeID = [], hqScopeRoute = [], hqPattern = ''POST /v1/evaluations'', hqBody = ''{}'',
     hqLimit = None\<rparr>"

text \<open>A deployment that takes one-letter identifiers, integers and strings as they come.\<close>

definition exampleBinding :: paramBinding where
  "exampleBinding = \<lparr>bdInt = (\<lambda>vs. case vs of None \<Rightarrow> Inr None
       | Some xs \<Rightarrow> (case Atoi (hd xs) of None \<Rightarrow> Inl [ErrOther ''invalid integer''] | Some i \<Rightarrow> Inr (Some i))), bdString = (\<lambda>vs. Inr (map_option hd vs)),
     bdUUID = (\<lambda>s. if length s = 1 then Inr s else Inl [ErrOther ''invalid UUID'']), 
     bdPath = (\<lambda>s. if s = [] then Inl [ErrOther ''parameter is empty''] else Inr s)\<rparr>"

definition exampleDecoder :: bodyDecoder where
  "exampleDecoder = \<lparr>bcCreate = (\<lambda>_. crqBody exampleHttp), bcFeedback = (\<lambda>_. None), bcValidate = (\<lambda>_. None)\<rparr>"

definition exampleEnv :: requestEnv where
  "exampleEnv = \<lparr>reService = exampleService, reSession = exampleSession 0 ''e1'', reBinding = exampleBinding,
     reDecoder = exampleDecoder, reStrict = (\<lambda>_ _. True), reSending = Sent, reConfig = exampleRouter, reAllow = True,
     reIsUUID = (\<lambda>s. length s = 1), reNewID = ''r'', reSeconds = Fin 0, reShuttingDown = False, reReady = True,
     reMCP = None, reMux = 404\<rparr>"

lemma exampleReq_binds:
  "hqPattern exampleReq \<in> api_patterns" "binds exampleEnv exampleReq"
  "validUTF8 (hqMethod exampleReq)"
  "hqPattern (exampleReq\<lparr>hqIdempotencyKey := Some [''kk'']\<rparr>) \<in> api_patterns"
  "\<not> binds exampleEnv (exampleReq\<lparr>hqIdempotencyKey := Some [''kk'']\<rparr>)"
  by (simp_all add: exampleReq_def api_patterns_def binds_def bindIdempotencyKey_def exampleEnv_def exampleBinding_def)
    code_simp

lemma postgres_changes: "postgresWorld \<noteq> exampleWorld"
proof
  assume same: "postgresWorld = exampleWorld"
  have "dbEvaluations (wDB exampleWorld) = []" by (simp add: exampleWorld_def start_def)
  with postgres_run(2) show False unfolding same by simp
qed

text \<open>A client of that deployment.\<close>

definition exampleRuntime :: clientRuntime where
  "exampleRuntime = \<lparr>crURLParse = (\<lambda>_. Inr \<lparr>urScheme = ''http'', urHost = ''h'', urPath = ''/v1/'', urQuery = []\<rparr>),
     crNewRequest = Inr, crPath = (\<lambda>n v. Inr (PathEscape v)),
     crQueryInt = (\<lambda>n i. Inr (QueryEscape n @ ''='' @ QueryEscape (Itoa i))),
     crQueryString = (\<lambda>n v. Inr (QueryEscape n @ ''='' @ QueryEscape v)), crHeader = (\<lambda>n v. Inr v),
     crCreate = (\<lambda>_. Inr ''{}''), crFeedback = (\<lambda>_. Inr ''{}''), crValidate = (\<lambda>_. Inr ''{}'')\<rparr>"

lemma exampleRuntime_ok:
  "runtime_ok exampleRuntime (reBinding exampleEnv)"
  "crURLParse exampleRuntime ''http://h/v1/'' = Inr \<lparr>urScheme = ''http'', urHost = ''h'', urPath = ''/v1/'', urQuery = []\<rparr>"
  by (simp_all add: runtime_ok_def exampleRuntime_def exampleEnv_def exampleBinding_def Atoi_Itoa)

lemma example_countable: "countable_replies exampleService"
  by (simp add: countable_replies_def exampleService_def)

text \<open>
  The instruments' labels are not bounded by the program: probes of the health path with methods of
  the caller's choice leave one series each.
\<close>

lemma probes_mint_series:
  assumes "New = Some m" and "list_all validUTF8 verbs"
  shows "dom (vcSeries (httpRequests (probed exampleEnv (exampleReq\<lparr>hqPattern := routeHealth\<rparr>) exampleWorld verbs m))) =
    (\<lambda>verb. [verb, routeHealth, ''200'']) ` set verbs"
proof -
  have m: "metrics_ok m" "vcSeries (httpRequests m) = (\<lambda>_. None)" using New_registers assms(1) by (metis option.inject)+
  have "hqPattern (exampleReq\<lparr>hqPattern := routeHealth\<rparr>) = routeHealth" by simp
  from probed_series [OF this m(1) assms(2)] show ?thesis by (simp add: m(2))
qed

section \<open>Paging while rows arrive\<close>

text \<open>
  Pages are offsets into a list that is newest first: a row recorded between two page requests
  shifts every later row down, so the last row of the first page comes again.
\<close>

definition agedRow :: "instant \<Rightarrow> uuid \<Rightarrow> EvaluationRow" where
  "agedRow t i = settledRow\<lparr>evCreatedAt := t, evID := i\<rparr>"

definition onePerPage :: "int \<Rightarrow> ListFilter" where
  "onePerPage offset = \<lparr>lfLimit = 1, lfOffset = offset, lfPolicyName = [], lfPolicyVersion = [], lfOutcome = [], lfStatus = []\<rparr>"

lemma paging_repeats_a_row:
  "\<exists>db row first second. db_keys db \<and> db_keys (db\<lparr>dbEvaluations := dbEvaluations db @ [row]\<rparr>) \<and>
     Evaluation_List (exampleSession 0 ''x'') db (onePerPage 0) = Inr first \<and>
     Evaluation_List (exampleSession 0 ''x'') (db\<lparr>dbEvaluations := dbEvaluations db @ [row]\<rparr>) (onePerPage 1) = Inr second \<and>
     elItems first = elItems second \<and> elItems first \<noteq> []"
proof -
  let ?db = "(wDB settledWorld)\<lparr>dbEvaluations := [agedRow 1 ''a'', agedRow 2 ''b'']\<rparr>"
  let ?row = "agedRow 3 ''c''"
  have keys: "db_keys ?db" "db_keys (?db\<lparr>dbEvaluations := dbEvaluations ?db @ [?row]\<rparr>)"
    using settled_keys by (simp_all add: db_keys_def agedRow_def)
  show ?thesis
    by (rule exI [of _ ?db], rule exI [of _ ?row])
      (use keys in \<open>simp add: Evaluation_List_def onePerPage_def filtered_def newest_first_def page_def agedRow_def
        exampleSession_def int64_add_def\<close>)
qed

section \<open>The same request over MCP\<close>

definition exampleTool :: EvaluateInput where
  "exampleTool = \<lparr>eiPolicyName = ''pay'', eiPolicyVersion = ''1'', eiInlinePolicy = [], eiState = VNil,
     eiFacts = Some [(''amount'', VInt 5000)], eiMetadata = None, eiIdempotencyKey = ''k''\<rparr>"

lemma exampleTool_same: "same_request exampleHttp ''r'' exampleTool"
  by (simp add: same_request_def exampleHttp_def exampleTool_def entries_def)

lemma exampleTool_run:
  "evaluate_tool exampleService (exampleSession 0 ''e1'') exampleWorld ''r'' exampleTool =
     (settledWorld, Inr (evaluationModelToAPI (exampleSession 0 ''e1'') settledRow))"
proof -
  have "mcpInput ''r'' exampleTool = exampleInput 5000 ''k''"
    by (simp add: mcpInput_def exampleTool_def exampleInput_def)
  then show ?thesis by (simp add: evaluate_tool_def settled_run(1))
qed

end
