(* ===== verification/Spec2Isabelle.thy ===== *)
theory Spec2Isabelle
  imports Deployment
begin

text \<open>
  Vibecheck decides requests against declarative policies. A policy document is compiled once; a
  request is decided by its pre-rules over trusted facts or, when none applies, by a decision
  provider whose typed answers the decision rules read. Every decision is recorded with the hash
  of the policy that made it. The REST and MCP surfaces, the retention worker and the service
  manager surround that pipeline. This development models the program's own Go code as executable
  definitions and proves the properties below; this theory states them, numbered, over the
  definitions of the others.

  \<^bold>\<open>The parts and their theories\<close>

  \<^item> \<open>Prelude\<close>, \<open>GoNumber\<close>, \<open>GoValue\<close>, \<open>GoSha256\<close>: errors as sums with early return, Go maps as
    association lists with distinct keys, 64-bit integers and floats, dynamic values with their
    JSON encoding, and SHA-256 on 32-bit words.
  \<^item> \<open>Decision\<close>, \<open>Document\<close>, \<open>Condition\<close>, \<open>Compiled\<close>, \<open>CompileCondition\<close>, \<open>QuestionValue\<close>, \<open>Hash\<close>,
    \<open>Compile\<close>, \<open>EvaluatePolicy\<close>: the policy engine (\<open>internal/pkg/common/decision\<close> and
    \<open>internal/pkg/policy\<close>). Each stage of \<open>CompileWithMaxQuestions\<close> is a function in source order;
    a compiled condition is a tree that \<open>Evaluate\<close> walks, a panic of the source being \<open>None\<close>. The
    documents have a meaning of their own (\<open>denote\<close>, \<open>doc_pre_result\<close>, \<open>doc_decision_result\<close>), and
    the compiler refines it (C1).
  \<^item> \<open>Loader\<close>, \<open>Policies\<close>: loading a directory over a file system and a YAML decoder that are
    arguments, the policy set and the service over it (\<open>loader.go\<close>, \<open>internal/pkg/core/policies\<close>).
  \<^item> \<open>Store\<close>, \<open>Provider\<close>, \<open>Evaluations\<close>, \<open>EvaluationFacts\<close>: the tables as lists of rows under key
    constraints (\<open>internal/pkg/db/models\<close>), the provider boundary with its adapter
    (\<open>internal/pkg/provider\<close>), and the pipeline (\<open>internal/pkg/core/evaluations\<close>): \<open>Create\<close>,
    \<open>SubmitFeedback\<close>, reading and listing. A \<open>Session\<close> gives the clock, the new identifier, the
    statements that fail, the database driver, the sealer and the JSON decoders of stored columns; a
    \<open>World\<close> is the database, the provider calls made and the metrics emitted. A row is stored with its
    instants as the driver keeps them: Postgres columns hold microseconds (\<open>storedInstant\<close>).
  \<^item> \<open>Retention\<close>, \<open>Concurrency\<close>: the cleanup pass and loop (\<open>services/vibecheck-server/retention.go\<close>)
    and all operations interleaved as a step relation with an invariant: a \<open>Create\<close> advances lookup by
    lookup and write by write, its provider call starting and returning in steps of their own.
  \<^item> \<open>TypeSafeClient\<close>: the public client (\<open>pkg/gotypesafe\<close>) with its retry loop.
  \<^item> \<open>Secrets\<close>: sealing of retained input (\<open>internal/pkg/secrets\<close>).
  \<^item> \<open>Metrics\<close>: the Prometheus instruments (\<open>internal/pkg/metrics\<close>) with the callbacks around database
    statements (\<open>internal/pkg/db/metrics.go\<close>). Counters are 64-bit words; an operation that may panic
    says so in its result.
  \<^item> \<open>HttpServer\<close>, \<open>Middleware\<close>, \<open>Routes\<close>: error classification and handlers, the chains in front of
    them over a response writer (\<open>internal/pkg/http/server\<close>), and the generated layer that binds
    parameters, decodes bodies and writes replies (\<open>internal/pkg/http/api/api.gen.go\<close>), up to the
    router's handler.
  \<^item> \<open>GoURL\<close>, \<open>ApiClient\<close>: what is used of \<open>net/url\<close> and of the patterns of \<open>net/http\<close>, and the
    generated HTTP client (\<open>pkg/http/api/client\<close>) up to the server's router.
  \<^item> \<open>Database\<close>, \<open>Wiring\<close>: opening and closing the database (\<open>internal/pkg/db/db.go\<close>); the deployment
    configuration (\<open>internal/pkg/config\<close>), how it reaches the services
    (\<open>services/vibecheck-server/dependencies.go\<close>), and the tools of the MCP surface
    (\<open>internal/pkg/mcp\<close>).
  \<^item> \<open>Lifecycle\<close>: building the dependencies and the server's \<open>Run\<close>, \<open>Stop\<close> and drain
    (\<open>services/vibecheck-server\<close>) as a step relation of the server, its listeners, the retention loop
    and the callers.
  \<^item> \<open>ServiceManager\<close>, \<open>ServiceRun\<close>: the registry and start order, and running, failing and
    stopping services (\<open>internal/pkg/service-manager\<close>), start-up being a step relation of the
    start loop, the services' goroutines and the callers.
  \<^item> \<open>Process\<close>: the application, the runner and the entry point (\<open>internal/app\<close>, \<open>pkg/runner\<close>, \<open>cmd\<close>).
  \<^item> \<open>Example\<close>, \<open>Scenario\<close>, \<open>Deployment\<close>: concrete policies, runs, services and requests on which
    the properties are applied.

  Interfaces are locales interpreted on these definitions: the keyed tables of \<open>Store\<close> (what an
  insert, an ignored insert and a delete keep), the rule loops of \<open>EvaluatePolicy\<close> as the search for
  the first match, the policy set of \<open>Loader\<close>, the dependency graph of \<open>ServiceManager\<close> that the
  topological sort relies on, the observer of \<open>Metrics\<close> (what a list of events leaves on the
  instruments), and the handler of \<open>Middleware\<close> (what the observing wrappers make of it).

  \<^bold>\<open>What is shown\<close>

  \<^item> The policy engine: compilation refines the documents' meaning and yields well-formed
    policies (C1, C2), evaluation is total (C3), facts and answers are accepted exactly when they
    conform (C4, C5), so validated operands are well typed (C6); map order and canonical text do not
    matter (C7, C25), errors (C24).
  \<^item> The pipeline: success is recorded and failure leaves the tables alone (C8, C9), replay and
    conflict of idempotency keys (C10, C11, C22), when the provider is asked and what (C12, C15), when
    input is stored (C13), no panic (C16), listing (C18), feedback (C19, C23), what is
    counted (C30).
  \<^item> The system: the tables stay consistent in every interleaving (C14), retention keeps
    live rows and clears a backlog (C20, C21), loading (C27).
  \<^item> The process: start order, start-up, failure and stopping (C31 to C34), retries of services
    and of the client (C35, C37), sealing (C36), the shutdown of the server (C29).
  \<^item> The surfaces: the agreement of REST and MCP (C26), the REST replies and guards (C38 to C40),
    what every request leaves on the instruments and in the log (C28), the agreement of the
    generated client with the server (C17).

  \<^bold>\<open>Bounds and termination\<close>

  Every recursion is structural or has a termination proof; no definition takes fuel. The sort of
  the services ends because each round with a next queue uses up a positive counter; the client's
  loop ends at the configured number of attempts; a retention loop is a fold over given ticks.
  Integers that may overflow wrap at 64 bits where the source computes them at that width.

  \<^bold>\<open>Arguments of the model\<close>

  Code outside the repository is an argument: the YAML decoder, the file system, the provider's
  HTTP call, JSON decoding of stored columns and responses, AES-GCM, random bytes, the rate
  limiter, UUID, URL and date parsing, the styles of the client's runtime library, the clock. What a property needs of them is a named hypothesis
  (\<open>yaml_ok\<close>, \<open>pass_ok\<close>, \<open>gcm_cipher\<close>, \<open>fills\<close>, \<open>countable_replies\<close>, \<open>runtime_ok\<close>) met by a concrete instance in its witness.

  \<^bold>\<open>Not modelled\<close>

  The MCP protocol, the command-line tree, the scrape handler and the reading of the environment
  belong to third-party packages. The generated repositories only delegate to the database library,
  whose effect the tables state; migrations are SQL. Process-wide instances, the repository
  generator, the generated mocks and the test infrastructure have no behaviour of their own.
\<close>

section \<open>The policy engine\<close>

text \<open>
  C1. A compiled policy decides exactly as its document reads: for all facts and answers, both
  rule phases return the verdict of the first rule, in document order, whose condition holds
  under the document's own meaning, and the default outcome when no decision rule does.
\<close>

theorem compiled_policy_decides_as_document:
  assumes "CompileWithMaxQuestions (Some doc) n = Inr p" and "doc_ok doc"
  shows "EvaluatePreRules p facts = Some (doc_pre_result doc facts) \<and>
    EvaluateDecisionRules p facts answers = Some (doc_decision_result doc facts answers)"
  using CompileWithMaxQuestions_Inr(2) [OF assms]
  by (simp add: EvaluatePreRules_document EvaluateDecisionRules_document)

lemma compiled_policy_decides_as_document_witness:
  "EvaluatePreRules examplePolicy [(''amount'', VInt 5000)] =
     Some (doc_pre_result exampleDoc [(''amount'', VInt 5000)])"
  using compiled_policy_decides_as_document [OF exampleDoc_compiles exampleDoc_ok] by blast

text \<open>
  C2. Every compiled policy is well formed: identity, outcomes, facts, questions and rules are
  within the declared grammars and ceilings, the one on the number of facts and the one on string
  constants included, rule identifiers are distinct across both phases,
  only the last rule of a phase may be unconditional, every condition is well typed against the
  declared facts and questions, pre-rules read no answer, and the question count respects the
  deployment's ceiling.
\<close>

theorem compiled_policy_well_formed:
  assumes "CompileWithMaxQuestions (Some doc) n = Inr p" and "doc_ok doc"
  shows "wf_compiled p \<and> compiled_from doc p \<and> int (length (cQuestionIDs p)) \<le> resolveMaxQuestions n"
  using CompileWithMaxQuestions_Inr [OF assms] by blast

lemma compiled_policy_well_formed_witness:
  "wf_compiled examplePolicy \<and> int (length (cQuestionIDs examplePolicy)) \<le> resolveMaxQuestions 64"
  using compiled_policy_well_formed [OF exampleDoc_compiles exampleDoc_ok] by blast

text \<open>
  C3. Evaluating a well-formed policy never panics, and whatever the facts and answers the
  outcome is one the policy declares.
\<close>

theorem evaluation_total_and_declared:
  assumes "wf_compiled p"
  shows "(\<exists>r m. EvaluatePreRules p facts = Some (r, m) \<and> (m \<longrightarrow> HasOutcome p (resOutcome r))) \<and>
    (\<exists>r. EvaluateDecisionRules p facts answers = Some r \<and> HasOutcome p (resOutcome r))"
proof -
  obtain r m where "EvaluatePreRules p facts = Some (r, m)"
    using EvaluatePreRules_find [OF assms] by fastforce
  moreover obtain r' where "EvaluateDecisionRules p facts answers = Some r'"
    using EvaluateDecisionRules_find [OF assms] by fastforce
  ultimately show ?thesis
    using pre_outcome_declared(2) [OF assms, of facts] decision_outcome_declared(2) [OF assms]
    by (cases m) auto
qed

lemma evaluation_total_and_declared_witness:
  "\<exists>r. EvaluateDecisionRules examplePolicy [] [] = Some r \<and> HasOutcome examplePolicy (resOutcome r)"
  using evaluation_total_and_declared [OF examplePolicy_wf, of "[]" "[]"] by blast

text \<open>
  C4. Fact validation accepts exactly the fact maps that meet the declared input contract, and
  every rejection is a validation failure.
\<close>

theorem facts_accepted_iff_conforming:
  "(ValidateFacts p facts = Inr () \<longleftrightarrow> facts_conform p facts) \<and>
     (ValidateFacts p facts \<in> {Inr (), Inl ErrValidationFailed})"
  using ValidateFacts_conform [of p facts] ValidateFacts_error [of p facts]
  by (cases "ValidateFacts p facts") auto

text \<open>
  C5. Answer validation accepts exactly the answers that meet the provider contract: the question
  set matches, each answer has the declared type, every number is finite and in range, and each
  distribution covers its options and sums to one within the tolerance. Every rejection is a
  provider protocol failure.
\<close>

theorem answers_accepted_iff_conforming:
  assumes "wf_compiled p" and "answers_ok answers"
  shows "(ValidateAnswers p answers = Inr () \<longleftrightarrow> answers_conform p answers) \<and>
    ValidateAnswers p answers \<in> {Inr (), Inl ErrProviderProtocol}"
  using ValidateAnswers_conform [of p answers] ValidateAnswers_error [of p answers] assms
  by (cases "ValidateAnswers p answers") (auto simp: wf_compiled_def)

lemma answers_accepted_iff_conforming_witness:
  "ValidateAnswers examplePolicy [] \<noteq> Inr () \<and> \<not> answers_conform examplePolicy []"
proof -
  have "answers_ok []" by (simp add: answers_ok_def gomap_ok_def)
  with answers_accepted_iff_conforming [OF examplePolicy_wf this] show ?thesis
    by (simp add: answers_conform_def examplePolicy_def exampleDraft_def exampleQuestions_def)
qed

text \<open>
  C6. After validation the rules only ever see well-typed values: an operand that resolves has a
  value of its declared kind, and an answer operand of a decision rule always resolves.
\<close>

theorem validated_operands_well_typed:
  assumes "wf_compiled p" and "wt_operand (declared_facts p) (cQuestions p) phase od"
    and "ValidateFacts p facts = Inr ()" and "answers_ok answers"
    and "phase = rulePhaseDecision \<longrightarrow> ValidateAnswers p answers = Inr ()"
  shows "(\<forall>v. resolveOperand_run od facts answers = Some v \<longrightarrow> operand_value_ok p od v) \<and>
    (opKind od = operandKindAnswer \<longrightarrow> (\<exists>v. resolveOperand_run od facts answers = Some v))"
proof -
  have "wf_questions p" using assms(1) by (simp add: wf_compiled_def)
  then have "phase = rulePhaseDecision \<Longrightarrow> answers_conform p answers"
    using ValidateAnswers_conform assms(4,5) by blast
  with operand_sound [OF assms(1,2)] assms(3) show ?thesis
    by (auto simp: ValidateFacts_conform)
qed

lemma validated_operands_well_typed_witness:
  "resolveOperand_run (zeroOperand\<lparr>factName := ''amount'', factType := ''number''\<rparr>)
     [(''amount'', VInt 3)] [] = Some (VInt 3) \<and>
   operand_value_ok examplePolicy (zeroOperand\<lparr>factName := ''amount'', factType := ''number''\<rparr>) (VInt 3)"
proof -
  let ?od = "zeroOperand\<lparr>factName := ''amount'', factType := ''number''\<rparr>"
  have "wt_operand (declared_facts examplePolicy) (cQuestions examplePolicy) rulePhasePre ?od"
    by (simp add: wt_operand_def zeroOperand_def declared_facts_def examplePolicy_def exampleDraft_def)
  moreover have "ValidateFacts examplePolicy [(''amount'', VInt 3)] = Inr ()"
    by (auto simp: ValidateFacts_conform facts_conform_def examplePolicy_def exampleDraft_def
        newCompiled_def FactType_Matches_def decision_consts split: if_splits)
  moreover have "answers_ok []" by (simp add: answers_ok_def gomap_ok_def)
  moreover have "resolveOperand_run ?od [(''amount'', VInt 3)] [] = Some (VInt 3)"
    by (simp add: resolveOperand_run_def zeroOperand_def)
  ultimately show ?thesis
    using validated_operands_well_typed [OF examplePolicy_wf, of rulePhasePre ?od "[(''amount'', VInt 3)]" "[]"]
    by simp
qed

text \<open>
  C7. Compilation does not depend on the order in which a decoded document enumerates its maps:
  facts, questions and choice options may be permuted and the result, hash and error included, is
  the same.
\<close>

theorem compilation_order_independent:
  assumes "same_document d d'"
  shows "CompileWithMaxQuestions (Some d) n = CompileWithMaxQuestions (Some d') n"
  using assms by (rule CompileWithMaxQuestions_order)

lemma compilation_order_independent_witness:
  "CompileWithMaxQuestions (Some exampleDocPermuted) 64 = Inr examplePolicy"
proof -
  have "same_document exampleDoc exampleDocPermuted"
    unfolding same_document_def
    by (rule exI [of _ "[(''amount'', ''number'')]"], rule exI [of _ "[(''vip'', ''boolean'')]"],
        rule exI [of _ "specQuestions (docSpec exampleDocPermuted)"])
      (auto simp: exampleDocPermuted_def exampleDoc_def exampleSpec_def same_gomap_def gomap_ok_def
        same_question_def same_criteria_def)
  from compilation_order_independent [OF this, of 64] exampleDoc_compiles show ?thesis by simp
qed

section \<open>The evaluation pipeline\<close>

text \<open>
  C8. A successful \<open>Create\<close> is on record before it returns: either it replays an earlier
  evaluation and changes nothing, or exactly one row is appended, the stored form of the decision of
  the resolved policy the caller got, and reading its identifier back, now or later, gives the
  caller's response with its instant as the database keeps it: unchanged, except that Postgres
  drops what is below a microsecond.
\<close>

theorem create_success_is_recorded:
  assumes "Create svc se w input = (w', Inr a)" and "service_ok svc" and "db_keys (wDB w)"
  shows "w' = w \<and> ciIdempotencyKey input \<noteq> [] \<or>
    (\<exists>compiled pk r. resolvePolicy svc input = Inr (compiled, pk) \<and> row_of compiled r \<and>
       evID r = seNewID se \<and> a = evaluationModelToAPI se r \<and>
       dbEvaluations (wDB w') = dbEvaluations (wDB w) @ [storeEvaluation se r] \<and>
       cHash compiled \<in> psHash ` set (dbSnapshots (wDB w')) \<and>
       (\<forall>se2. same_decoders se se2 \<and> \<not> seFails se2 FindEvaluation \<longrightarrow> Evaluation_Get se2 (wDB w') (seNewID se) =
          Inr (a\<lparr>aeCreatedAt := (if seDriver se = DriverPostgres then aeCreatedAt a - aeCreatedAt a mod 1000
            else aeCreatedAt a)\<rparr>)))"
proof (cases "w' = w")
  case True
  from assms(1) have "ciIdempotencyKey input \<noteq> []"
    by (cases rule: Create_success) (auto simp: True recorded_def replay_def split: if_splits)
  with True show ?thesis by blast
next
  case False
  obtain compiled pk r where r: "resolvePolicy svc input = Inr (compiled, pk)" "row_of compiled r"
    "evID r = seNewID se" "dbEvaluations (wDB w') = dbEvaluations (wDB w) @ [storeEvaluation se r]"
    "cHash compiled \<in> psHash ` set (dbSnapshots (wDB w'))" "a = evaluationModelToAPI se r"
    by (rule Create_records [OF assms False]) blast
  have "Evaluation_Get se2 (wDB w') (seNewID se) = Inr (as_stored se a)"
    if "same_decoders se se2" "\<not> seFails se2 FindEvaluation" for se2
    using Evaluation_Get_row [OF Create_keys [OF assms(1, 3)], of "storeEvaluation se r" se2] that
      same_decoders_api [OF that(1), of "storeEvaluation se r"] by (simp add: r(3, 4, 6) stored_api)
  then show ?thesis using r unfolding as_stored_def storedInstant_if by blast
qed

lemma create_success_is_recorded_witness:
  "\<exists>a. Evaluation_Get (postgresSession 9 ''x'') (wDB postgresWorld) ''e1'' = Inr a \<and> aeCreatedAt a = 1000"
proof -
  have se: "\<not> seFails (postgresSession 9 ''x'') FindEvaluation" "seNewID (postgresSession 1234 ''e1'') = ''e1''"
    "same_decoders (postgresSession 1234 ''e1'') (postgresSession 9 ''x'')" "seDriver (postgresSession 1234 ''e1'') = DriverPostgres"
    by (simp_all add: postgresSession_def exampleSession_def same_decoders_def)
  from create_success_is_recorded [OF postgres_run(1) exampleService_ok exampleWorld_keys] postgres_changes
  have "Evaluation_Get (postgresSession 9 ''x'') (wDB postgresWorld) ''e1'' =
      Inr ((evaluationModelToAPI (postgresSession 1234 ''e1'') postgresRow)\<lparr>aeCreatedAt := 1000\<rparr>)"
    using se by (auto simp: postgres_instants(1))
  then show ?thesis by simp
qed

text \<open>
  C9. \<open>Create\<close> is atomic: when it fails, for whatever reason and at whatever statement, no
  evaluation, idempotency record or feedback was added or changed; only a policy snapshot may
  have been recorded.
\<close>

theorem create_failure_leaves_tables:
  assumes "Create svc se w input = (w', Inl e)"
  shows "dbEvaluations (wDB w') = dbEvaluations (wDB w) \<and> dbIdempotency (wDB w') = dbIdempotency (wDB w) \<and>
    dbFeedback (wDB w') = dbFeedback (wDB w) \<and> set (dbSnapshots (wDB w)) \<subseteq> set (dbSnapshots (wDB w'))"
proof -
  note frame = Create_error_frame(1) [OF assms]
  from frame have "set (dbSnapshots (wDB w)) \<subseteq> set (dbSnapshots (wDB w'))" by (simp add: snapshots_added_def)
  with snapshots_added_simps [OF frame] show ?thesis by simp
qed

lemma create_failure_leaves_tables_witness:
  "dbEvaluations (wDB (fst (Create exampleService (exampleSession 0 ''e2'') settledWorld
     ((exampleInput 5000 [])\<lparr>ciPolicyRef := None\<rparr>)))) = [settledRow]"
  using create_failure_leaves_tables [OF refused_run] by (simp add: refused_run settled_run)

text \<open>
  C10. A keyed request is idempotent: as long as its key is live and its row is kept, repeating it
  (with whatever request identifier) changes nothing, does not call the provider again and returns
  the same evaluation; only the instant of an evaluation that the first call recorded on Postgres
  comes back without what is below a microsecond.
\<close>

theorem create_replays_same_request:
  assumes "Create svc se w input = (w1, Inr a)" and "db_keys (wDB w)" and "ciIdempotencyKey input \<noteq> []"
    and "db_keys (wDB w2)" "set (dbEvaluations (wDB w1)) \<subseteq> set (dbEvaluations (wDB w2))"
      "set (dbIdempotency (wDB w1)) \<subseteq> set (dbIdempotency (wDB w2))"
    and "\<forall>entry \<in> set (dbIdempotency (wDB w2)). idKeyHash entry = hashKey (ciIdempotencyKey input) \<longrightarrow>
      \<not> time_Before (idExpiresAt entry) (seNowReplay se2)"
    and "\<not> seFails se2 FindIdempotency" "\<not> seFails se2 FindEvaluation" and "same_decoders se se2"
  shows "Create svc se2 w2 (input\<lparr>ciRequestID := x\<rparr>) = (w2, Inr (a\<lparr>aeCreatedAt :=
    (if seDriver se = DriverPostgres \<and> w1 \<noteq> w then aeCreatedAt a - aeCreatedAt a mod 1000 else aeCreatedAt a)\<rparr>))"
proof -
  have "(if w1 = w then a else as_stored se a) = a\<lparr>aeCreatedAt :=
      (if seDriver se = DriverPostgres \<and> w1 \<noteq> w then aeCreatedAt a - aeCreatedAt a mod 1000 else aeCreatedAt a)\<rparr>"
    by (simp add: as_stored_def storedInstant_if)
  with Create_replays [OF assms, of x] show ?thesis by simp
qed

lemma create_replays_same_request_witness:
  "Create exampleService (exampleSession 500 ''e2'') settledWorld ((exampleInput 5000 ''k'')\<lparr>ciRequestID := ''r2''\<rparr>) =
     (settledWorld, Inr (evaluationModelToAPI (exampleSession 0 ''e1'') settledRow)) \<and>
   Create exampleService (postgresSession 500 ''e2'') postgresWorld ((exampleInput 5000 ''k'')\<lparr>ciRequestID := ''r2''\<rparr>) =
     (postgresWorld, Inr ((evaluationModelToAPI (postgresSession 1234 ''e1'') postgresRow)\<lparr>aeCreatedAt := 1000\<rparr>))"
proof -
  have exact: "seDriver (exampleSession t i) \<noteq> DriverPostgres" and floored: "seDriver (postgresSession t i) = DriverPostgres" for t i
    by (simp_all add: postgresSession_def exampleSession_def DriverSQLite_def DriverPostgres_def)
  have "Create exampleService (exampleSession 500 ''e2'') settledWorld ((exampleInput 5000 ''k'')\<lparr>ciRequestID := ''r2''\<rparr>) =
     (settledWorld, Inr ((evaluationModelToAPI (exampleSession 0 ''e1'') settledRow)\<lparr>aeCreatedAt :=
       (if seDriver (exampleSession 0 ''e1'') = DriverPostgres \<and> settledWorld \<noteq> exampleWorld
        then aeCreatedAt (evaluationModelToAPI (exampleSession 0 ''e1'') settledRow) -
          aeCreatedAt (evaluationModelToAPI (exampleSession 0 ''e1'') settledRow) mod 1000
        else aeCreatedAt (evaluationModelToAPI (exampleSession 0 ''e1'') settledRow))\<rparr>))"
    by (rule create_replays_same_request [OF settled_run(1) exampleWorld_keys _ settled_keys])
      (simp_all add: settled_run exampleInput_def exampleSession_def same_decoders_def idempotencyRow_def
        exampleService_def exampleConfig_def time_Add_def time_Before_def)
  moreover have "Create exampleService (postgresSession 500 ''e2'') postgresWorld ((exampleInput 5000 ''k'')\<lparr>ciRequestID := ''r2''\<rparr>) =
     (postgresWorld, Inr ((evaluationModelToAPI (postgresSession 1234 ''e1'') postgresRow)\<lparr>aeCreatedAt :=
       (if seDriver (postgresSession 1234 ''e1'') = DriverPostgres \<and> postgresWorld \<noteq> exampleWorld
        then aeCreatedAt (evaluationModelToAPI (postgresSession 1234 ''e1'') postgresRow) -
          aeCreatedAt (evaluationModelToAPI (postgresSession 1234 ''e1'') postgresRow) mod 1000
        else aeCreatedAt (evaluationModelToAPI (postgresSession 1234 ''e1'') postgresRow))\<rparr>))"
    by (rule create_replays_same_request [OF postgres_run(1) exampleWorld_keys _ postgres_keys])
      (simp_all add: postgres_run exampleInput_def postgresSession_def exampleSession_def same_decoders_def idempotencyRow_def
        storeIdempotency_def storedInstant_def exampleService_def exampleConfig_def time_Add_def time_Before_def)
  ultimately show ?thesis using exact floored postgres_changes by (simp add: postgres_instants(1))
qed

text \<open>
  C11. A live key reused with a different request is refused as a conflict and changes nothing.
\<close>

theorem create_conflicts_on_other_request:
  assumes "db_keys (wDB w)" and "entry \<in> set (dbIdempotency (wDB w))"
    and "idKeyHash entry = hashKey (ciIdempotencyKey input)" and "ciIdempotencyKey input \<noteq> []"
    and "\<not> time_Before (idExpiresAt entry) (seNowReplay se)" and "\<not> seFails se FindIdempotency"
    and "resolvePolicy svc input = Inr (compiled, pk)" and "validateRequestShape (svcConfig svc) input = Inr ()"
    and "canonicalRequestHash (cHash compiled) input = Inr h" and "idCanonicalRequestHash entry \<noteq> h"
  shows "Create svc se w input = (w, Inl ErrIdempotencyConflict)"
  using assms by (rule Create_conflicts)

lemma create_conflicts_on_other_request_witness:
  "Create exampleService (exampleSession 0 ''e2'') (keyedWorld 50) (exampleInput 5 ''k'') =
     (keyedWorld 50, Inl ErrIdempotencyConflict)"
proof -
  let ?entry = "\<lparr>idKeyHash = hashKey ''k'', idCanonicalRequestHash = [], idEvaluationID = ''e0'',
    idExpiresAt = 50, idCreatedAt = 0\<rparr>"
  have "length (exampleHash 5) = 64" by (simp add: exampleHash_def sha256_hex_shape)
  then have "[] \<noteq> exampleHash 5" by auto
  moreover have "validateRequestShape (svcConfig exampleService) (exampleInput 5 ''k'') = Inr ()"
    using exampleInput_shape by (simp add: exampleService_def)
  ultimately show ?thesis
    by (intro create_conflicts_on_other_request [where entry = ?entry, OF keyedWorld_keys _ _ _ _ _
          exampleInput_resolves _ exampleInput_hash])
      (simp_all add: keyedWorld_def exampleWorld_def start_def exampleInput_def exampleSession_def time_Before_def)
qed

text \<open>
  C12. The provider is asked only when it has to be, and once: an evaluation that a pre-rule
  settles makes no call, any other recorded evaluation makes exactly one, with the policy's model,
  the caller's state and the policy's questions in their order, each with the type, instructions
  and criteria the policy gives it; and the row says which it was.
\<close>

theorem provider_asked_only_without_pre_rule:
  assumes "Create svc se w input = (w', Inr a)" and "service_ok svc" and "db_keys (wDB w)" and "w' \<noteq> w"
  shows "\<exists>compiled pk r. resolvePolicy svc input = Inr (compiled, pk) \<and>
    dbEvaluations (wDB w') = dbEvaluations (wDB w) @ [storeEvaluation se r] \<and>
    (if \<exists>x \<in> set (cPreRules compiled). rule_holds x (entries (ciFacts input)) []
     then wCalls w' = wCalls w \<and> evExecutionPath r = ExecutionPathPreRule
     else evExecutionPath r \<noteq> ExecutionPathPreRule \<and> (\<exists>request. wCalls w' = wCalls w @ [request] \<and>
       rqModel request = cModel compiled \<and> rqState request = ciState input \<and>
       map pqID (rqQuestions request) = cQuestionIDs compiled \<and>
       (\<forall>q \<in> set (rqQuestions request). \<exists>cq. map_of (cQuestions compiled) (pqID q) = Some cq \<and> pqType q = cqType cq \<and>
          pqInstructions q = cqInstructions cq \<and> pqNoulCriteria q = cqNoulCriteria cq \<and>
          pqChoiceCriteria q = cqChoiceCriteria cq \<and> pqScoreCriteria q = cqScoreCriteria cq)))"
proof -
  obtain compiled pk calls r where res: "resolvePolicy svc input = Inr (compiled, pk)"
    and row: "dbEvaluations (wDB w') = dbEvaluations (wDB w) @ [storeEvaluation se r]" and new: "wCalls w' = wCalls w @ calls"
    and calls: "calls = (if List.find (\<lambda>x. rule_holds x (entries (ciFacts input)) []) (cPreRules compiled) = None
      then [buildProviderRequest compiled input] else [])" "calls = [] \<longleftrightarrow> evExecutionPath r = ExecutionPathPreRule"
    by (rule Create_records [OF assms]) blast
  have wf: "wf_compiled compiled" using resolvePolicy_authentic(1) [OF assms(2) res] by (simp add: authentic_def)
  note request = request_of_policy [OF wf, of input]
  show ?thesis
  proof (cases "\<exists>x \<in> set (cPreRules compiled). rule_holds x (entries (ciFacts input)) []")
    case True
    then have "calls = []" using calls(1) by (auto simp: find_None_iff)
    with True res row new calls(2) show ?thesis by (intro exI [of _ compiled] exI [of _ pk] exI [of _ r]) simp
  next
    case False
    then have "calls = [buildProviderRequest compiled input]" using calls(1) by (auto simp: find_None_iff)
    with False res row new calls(2) request show ?thesis
      by (intro exI [of _ compiled] exI [of _ pk] exI [of _ r]) simp
  qed
qed

lemma provider_asked_only_without_pre_rule_witness:
  "evExecutionPath settledRow = ExecutionPathPreRule \<and> (\<exists>request. wCalls askedWorld = [request] \<and>
     rqModel request = cModel examplePolicy \<and> rqState request = ciState (exampleInput 5 []) \<and>
     map pqID (rqQuestions request) = cQuestionIDs examplePolicy)"
proof -
  have none: "wCalls exampleWorld = []" "dbEvaluations (wDB exampleWorld) = []" by (simp_all add: exampleWorld_def start_def)
  have "wCalls settledWorld = wCalls exampleWorld" by (simp add: settled_run none)
  with none have "evExecutionPath settledRow = ExecutionPathPreRule"
    using provider_asked_only_without_pre_rule [OF settled_run(1) exampleService_ok exampleWorld_keys settled_changes]
      settled_run(3) by (auto split: if_splits)
  moreover have new: "askedWorld \<noteq> exampleWorld" using asked_run(2) none(1) by auto
  have "resolvePolicy exampleService (exampleInput 5 []) = Inr (examplePolicy, PolicyKindNamed)"
    by (rule exampleInput_resolves)
  then have "\<exists>request. wCalls askedWorld = [request] \<and> rqModel request = cModel examplePolicy \<and>
      rqState request = ciState (exampleInput 5 []) \<and> map pqID (rqQuestions request) = cQuestionIDs examplePolicy"
    using provider_asked_only_without_pre_rule [OF asked_run(1) exampleService_ok exampleWorld_keys new] asked_run(2) none(1)
    by (auto simp del: examplePolicy_fields split: if_splits)
  ultimately show ?thesis by blast
qed

text \<open>
  C13. Retained input is opt-in: a recorded row carries encrypted input only when the deployment
  stores inputs and has a sealer, and then it is that sealer's output on the request's payload.
\<close>

theorem input_stored_only_when_enabled:
  assumes "Create svc se w input = (w', Inr a)" and "service_ok svc" and "db_keys (wDB w)"
    and "r \<in> set (dbEvaluations (wDB w'))" and "r \<notin> set (dbEvaluations (wDB w))" and "evEncryptedInput r = Some c"
  shows "cfgStoreInputs (svcConfig svc) \<and> (\<exists>seal j. seSealer se = Some seal \<and> inputPayload input = Some j \<and>
    seal (render j) = Inr c)"
proof -
  have new: "w' \<noteq> w" using assms(4, 5) by auto
  obtain r' where "dbEvaluations (wDB w') = dbEvaluations (wDB w) @ [storeEvaluation se r']"
    "sealInput svc se input = Inr (evEncryptedInput r')"
    by (rule Create_records [OF assms(1-3) new]) blast
  with assms(4-) have "sealInput svc se input = Inr (Some c)" by auto
  then show ?thesis by (auto simp: sealInput_def rbind_Inr_iff split: option.splits if_splits)
qed

lemma input_stored_only_when_enabled_witness:
  "\<exists>seal j. seSealer sealingSession = Some seal \<and> inputPayload (exampleInput 5000 []) = Some j \<and>
     seal (render j) = Inr (rev (render (the (inputPayload (exampleInput 5000 [])))))"
proof -
  have "sealedRow \<notin> set (dbEvaluations (wDB exampleWorld))" by (simp add: exampleWorld_def start_def)
  moreover have "evEncryptedInput sealedRow = Some (rev (render (the (inputPayload (exampleInput 5000 [])))))"
    by (simp add: sealedRow_def)
  ultimately show ?thesis
    using input_stored_only_when_enabled [OF sealing_run(1) sealingService_ok exampleWorld_keys]
    by (simp add: sealing_run(2))
qed

section \<open>Concurrency\<close>

text \<open>
  C14. Whatever requests, feedback and retention passes interleave, and whatever statements fail,
  every state reached from the empty database is consistent: identifiers and key records are unique,
  every snapshot's hash is the SHA-256 of its text, every row is a decision of a compiled policy
  whose snapshot is on record, every reference leads to a row or to one that retention removed, and
  the in-flight gauge is the number of requests whose provider call has started and not returned.
  With retention of evaluations off, no reference dangles.
\<close>

theorem reachable_states_consistent:
  assumes "steps svc settings start s" and "service_ok svc"
  shows "sys_ok svc s \<and> (rtEvaluations settings \<le> 0 \<longrightarrow> db_references (sysDB s) \<and>
    idEvaluationID ` set (dbIdempotency (sysDB s)) \<subseteq> evID ` set (dbEvaluations (sysDB s)))"
proof -
  have ok: "sys_ok svc s" by (rule steps_sys_ok [OF assms start_ok(1)])
  have "db_references (sysDB s) \<and> idEvaluationID ` set (dbIdempotency (sysDB s)) \<subseteq> evID ` set (dbEvaluations (sysDB s))"
    if "rtEvaluations settings \<le> 0"
    using sys_ok_references [OF ok] steps_unmarked [OF assms(1) that start_ok(2)] by (simp add: unmarked_def)
  with ok show ?thesis by blast
qed

lemma reachable_states_consistent_witness:
  "sys_ok exampleService (start\<lparr>syWorld := settledWorld\<rparr>) \<and> db_references (wDB settledWorld)"
proof -
  have "steps exampleService \<lparr>rtEvery = 1, rtEvaluations = 0\<rparr> start (start\<lparr>syWorld := settledWorld\<rparr>)"
    by (rule Create_steps) (use settled_run(1) in \<open>simp add: exampleWorld_def\<close>)
  from reachable_states_consistent [OF this exampleService_ok] show ?thesis by simp
qed



text \<open>
  C16. A request never makes the rule engine panic: whatever error \<open>Create\<close> returns, it is not a
  panic of an unreachable branch.
\<close>

theorem create_never_panics:
  assumes "service_ok svc" and "\<forall>seal. seSealer se = Some seal \<longrightarrow> (\<forall>t. seal t \<noteq> Inl panicked)"
  shows "snd (Create svc se w input) \<noteq> Inl panicked"
  using assms by (rule Create_no_panic)

lemma create_never_panics_witness:
  "snd (Create exampleService (exampleSession 100 ''e1'') (keyedWorld 50) (exampleInput 5 ''k'')) \<noteq> Inl panicked"
  by (rule create_never_panics [OF exampleService_ok]) (simp add: exampleSession_def)

section \<open>Requests, listing and feedback\<close>

text \<open>
  C17. What the generated client sends is what the server's operation gets. Against a server under
  \<open>/v1/\<close>, with libraries that style and bind parameters as they document, a required parameter that
  is empty being refused, and that keep an escaped path and query when a URL is printed into a
  request, the request of every operation is built, routed to the handler of that operation behind the middleware, with
  exactly the caller's parameters, whatever bytes they hold, and a body that reads as the caller's.
  Path parameters must not be empty, a dot segment or a lone slash.
\<close>

theorem client_requests_reach_their_operations:
  assumes "runtime_ok rt (reBinding env)" and "crURLParse rt server = Inr base" and "urPath base = ''/v1/''" and "op_ok rt env op"
  shows "\<exists>q. build_request rt server op = Inr q \<and> body_read env op (hqBody (received apiPatterns q)) \<and>
    Router_Handler env (received apiPatterns q) = apiChain env (performs env op) (received apiPatterns q)"
  using client_reaches_operation [of rt env server base op] assms by (simp add: speaks_to_def reached_def)

lemma client_requests_reach_their_operations_witness:
  "\<exists>q. NewGetPolicyRequest exampleRuntime ''http://h/v1/'' ''a/b c'' ''1'' = Inr q \<and>
     Router_Handler exampleEnv (received apiPatterns q) =
       apiChain exampleEnv (strict_GetPolicy exampleEnv ''a/b c'' ''1'') (received apiPatterns q)"
proof -
  have "op_ok exampleRuntime exampleEnv (OpPolicy ''a/b c'' ''1'')" by (simp add: segment_ok_def)
  from client_requests_reach_their_operations [OF exampleRuntime_ok _ this] show ?thesis by auto
qed

text \<open>
  C18. A page of the listing holds the filtered rows at the requested offset, newest first with the
  identifier breaking ties, and says whether more follow, except that where offset and limit together
  leave the 64-bit integers it says so of any listing that is not empty, whatever the page holds. On
  a table that does not change between the requests, pages read in turn until one says that no more
  follow hold every matching row once.
\<close>

theorem listing_pages:
  assumes "Evaluation_List se db f = Inr l" and "in_int64 (lfLimit f)" and "in_int64 (lfOffset f)"
  defines "rows \<equiv> newest_first (filtered f (dbEvaluations db))"
  shows "elItems l = map (evaluationModelToAPI se) (take (nat (lfLimit f)) (drop (nat (lfOffset f)) rows)) \<and>
    (elHasMore l \<longleftrightarrow> (if lfOffset f + lfLimit f < 2 ^ 63 then lfOffset f + lfLimit f < int (length rows) else rows \<noteq> [])) \<and>
    sorted_wrt (\<lambda>a b. (evCreatedAt b, evID b) \<le> (evCreatedAt a, evID a)) rows \<and>
    mset rows = mset (filtered f (dbEvaluations db)) \<and>
    (\<forall>k ls. 0 < k \<and> (\<forall>i < k. Evaluation_List se db (f\<lparr>lfOffset := int i * lfLimit f\<rparr>) = Inr (ls i)) \<and>
       int k * lfLimit f < 2 ^ 63 \<and> \<not> elHasMore (ls (k - 1)) \<longrightarrow>
       concat (map (\<lambda>i. elItems (ls i)) [0..<k]) = map (evaluationModelToAPI se) rows)"
proof -
  note facts = Evaluation_List_Inr [OF assms(1)]
  have "elItems l = map (evaluationModelToAPI se) (take (nat (lfLimit f)) (drop (nat (lfOffset f)) rows))"
    using facts(5) by (simp add: rows_def page_def)
  moreover have "elHasMore l \<longleftrightarrow> (if lfOffset f + lfLimit f < 2 ^ 63 then lfOffset f + lfLimit f < int (length rows) else rows \<noteq> [])"
    using more_follows [OF assms(1-3)] length_newest_first [of "filtered f (dbEvaluations db)"]
    unfolding rows_def by (metis length_0_conv)
  moreover have "sorted_wrt (\<lambda>a b. (evCreatedAt b, evID b) \<le> (evCreatedAt a, evID a)) rows"
    unfolding rows_def by (rule newest_first_sorted)
  moreover have "mset rows = mset (filtered f (dbEvaluations db))" by (simp add: rows_def newest_first_def)
  ultimately show ?thesis using pages_read(2) [where f = f and se = se and db = db] unfolding rows_def by blast
qed

lemma listing_pages_witness:
  "Evaluation_List (exampleSession 0 ''x'') (wDB settledWorld) exampleFilter = Inr exampleListing \<and>
   \<not> elHasMore exampleListing"
proof -
  have run: "Evaluation_List (exampleSession 0 ''x'') (wDB settledWorld) exampleFilter = Inr exampleListing"
    by (rule exampleListing_run)
  have "in_int64 (lfLimit exampleFilter)" "in_int64 (lfOffset exampleFilter)"
    by (simp_all add: exampleFilter_def in_int64_def minInt_def maxInt_def)
  from listing_pages [OF run this] show ?thesis
    using run by (simp add: exampleFilter_def filtered_def settled_run)
qed

text \<open>
  C19. Feedback labels an evaluation without touching it: a successful submission appends exactly
  one row that points at an existing evaluation, with an outcome that is well formed and, for a
  loaded policy, declared by it; a refused one changes nothing; no submission changes any other
  table or calls the provider.
\<close>

theorem feedback_never_touches_decisions:
  assumes "SubmitFeedback svc se w input = (w', result)"
  shows "w' = w\<lparr>wDB := (wDB w)\<lparr>dbFeedback := dbFeedback (wDB w')\<rparr>\<rparr> \<and>
    (case result of
       Inl e \<Rightarrow> w' = w
     | Inr a \<Rightarrow> \<exists>f r. dbFeedback (wDB w') = dbFeedback (wDB w) @ [storeFeedback se f] \<and> a = feedbackModelToAPI f \<and>
         (seDriver se \<noteq> DriverPostgres \<longrightarrow> storeFeedback se f = f) \<and>
         findRow evID (fiEvaluationID input) (dbEvaluations (wDB w)) = Some r \<and> fbEvaluationID f = evID r \<and>
         fbExpectedOutcome f = fiExpectedOutcome input \<and> Outcome_IsValid (fiExpectedOutcome input) \<and>
         int (length (fiNote input)) \<le> MaxFeedbackNoteLength \<and>
         (\<forall>c. Service_Compiled (svcPolicies svc) \<lparr>refName = evPolicyName r, refVersion = evPolicyVersion r\<rparr> = Inr c \<longrightarrow>
            fiExpectedOutcome input \<in> set (cOutcomes c)))"
proof (cases "feedbackBegin svc se (wDB w) input")
  case (Inl e)
  with assms show ?thesis by (auto simp: SubmitFeedback_def)
next
  case (Inr f)
  with assms have commit: "feedbackCommit se w f = (w', result)" by (simp add: SubmitFeedback_def)
  note frame = feedbackCommit_frame [OF commit]
  show ?thesis
  proof (cases result)
    case (Inl e)
    with frame show ?thesis by simp
  next
    case ok: (Inr a)
    obtain r where "findRow evID (fiEvaluationID input) (dbEvaluations (wDB w)) = Some r"
      "fbEvaluationID f = evID r" "fbExpectedOutcome f = fiExpectedOutcome input"
      "Outcome_IsValid (fiExpectedOutcome input)" "int (length (fiNote input)) \<le> MaxFeedbackNoteLength"
      "\<And>c. Service_Compiled (svcPolicies svc) \<lparr>refName = evPolicyName r, refVersion = evPolicyVersion r\<rparr> = Inr c \<Longrightarrow>
        fiExpectedOutcome input \<in> set (cOutcomes c)"
      by (rule feedbackBegin_Inr [OF Inr]) blast
    with frame(1) frame(3) [OF ok] ok show ?thesis by (auto simp: storeFeedback_exact)
  qed
qed

lemma feedback_never_touches_decisions_witness:
  "dbEvaluations (wDB (fst (SubmitFeedback exampleService (exampleSession 0 ''f1'') settledWorld exampleFeedback))) =
     [settledRow] \<and>
   snd (SubmitFeedback exampleService (exampleSession 0 ''f1'') settledWorld exampleFeedback) =
     Inr (feedbackModelToAPI exampleFeedbackRow)"
proof -
  obtain w' where run: "SubmitFeedback exampleService (exampleSession 0 ''f1'') settledWorld exampleFeedback =
      (w', Inr (feedbackModelToAPI exampleFeedbackRow))"
    using exampleFeedback_run by (metis prod.collapse)
  have "w' = settledWorld\<lparr>wDB := (wDB settledWorld)\<lparr>dbFeedback := dbFeedback (wDB w')\<rparr>\<rparr>"
    using feedback_never_touches_decisions [OF run] by blast
  then have "dbEvaluations (wDB w') = dbEvaluations (wDB settledWorld)"
    by (metis DB.select_convs(2) DB.surjective DB.update_convs(4) World.select_convs(1) World.surjective World.update_convs(1))
  then show ?thesis by (simp add: run settled_run)
qed

section \<open>Retention\<close>

text \<open>
  C20. A retention pass removes nothing that is still live, wherever it stops: an unexpired key, an
  evaluation inside the window, feedback of such an evaluation and every snapshot stay; keys stay
  unique; and when every feedback row led to its evaluation and every evaluation to its snapshot
  before, they do so after, even if a statement of the pass failed. The record of a live key may
  outlive its evaluation.
\<close>

theorem retention_keeps_live_rows:
  assumes "cleanup settings pass db = (db', deleted, err)" and "pass_ok pass" and "db_keys db"
  shows "dbSnapshots db' = dbSnapshots db \<and> db_keys db' \<and> (db_references db \<longrightarrow> db_references db') \<and>
    (\<forall>k \<in> set (dbIdempotency db). rpNow pass \<le> idExpiresAt k \<longrightarrow> k \<in> set (dbIdempotency db')) \<and>
    (\<forall>r \<in> set (dbEvaluations db). rtEvaluations settings \<le> 0 \<or> rpNow pass - rtEvaluations settings \<le> evCreatedAt r \<longrightarrow>
       r \<in> set (dbEvaluations db') \<and>
       (\<forall>f \<in> set (dbFeedback db). fbEvaluationID f = evID r \<longrightarrow> f \<in> set (dbFeedback db')))"
proof -
  note keep = cleanup_keeps [OF assms]
  have live: "\<not> (0 < rtEvaluations settings \<and> time_Before (evCreatedAt r) (cutoff_of settings pass))"
    if "rtEvaluations settings \<le> 0 \<or> rpNow pass - rtEvaluations settings \<le> evCreatedAt r" for r :: EvaluationRow
    using that storedInstant_le [of "rpDriver pass" "rpNow pass - rtEvaluations settings"]
    by (auto simp: time_Before_def cutoff_of_def time_Add_def)
  have unique: "x = r" if "x \<in> set (dbEvaluations db)" "r \<in> set (dbEvaluations db)" "evID x = evID r" for x r
    using assms(3) that by (auto simp: db_keys_def distinct_map dest: inj_onD)
  have "f \<in> set (dbFeedback db')" if "r \<in> set (dbEvaluations db)" "f \<in> set (dbFeedback db)"
    "fbEvaluationID f = evID r" "rtEvaluations settings \<le> 0 \<or> rpNow pass - rtEvaluations settings \<le> evCreatedAt r" for f r
    using prunedD(2) [OF keep(6) that(2)] live [OF that(4)] unique [OF _ that(1)] that(3) by force
  moreover have "r \<in> set (dbEvaluations db')" if "r \<in> set (dbEvaluations db)"
    "rtEvaluations settings \<le> 0 \<or> rpNow pass - rtEvaluations settings \<le> evCreatedAt r" for r
    using prunedD(2) [OF keep(5) that(1)] live [OF that(2)] by blast
  moreover have "k \<in> set (dbIdempotency db')" if "k \<in> set (dbIdempotency db)" "rpNow pass \<le> idExpiresAt k" for k
    using prunedD(2) [OF keep(4) that(1)] that(2) storedInstant_le [of "rpDriver pass" "rpNow pass"] by (simp add: time_Before_def)
  ultimately show ?thesis using keep(1-3) by blast
qed

lemma retention_keeps_live_rows_witness:
  "settledRow \<in> set (dbEvaluations (fst (cleanup \<lparr>rtEvery = 1, rtEvaluations = 100\<rparr> examplePass (wDB settledWorld))))"
proof -
  obtain db' deleted err where run:
    "cleanup \<lparr>rtEvery = 1, rtEvaluations = 100\<rparr> examplePass (wDB settledWorld) = (db', deleted, err)"
    by (metis prod_cases3)
  have "settledRow \<in> set (dbEvaluations db')"
    using retention_keeps_live_rows [OF run examplePass_ok settled_keys]
    by (simp add: settled_run examplePass_def settledRow_fields)
  then show ?thesis unfolding run by simp
qed

text \<open>
  C21. Retention catches up: passes that do not fail, each with its cutoff between two instants,
  remove every evaluation older than the earlier one, provided there are as many passes as batches
  needed for what is older than the later one.
\<close>

theorem retention_clears_backlog:
  assumes "runRetention settings ticks db = (db', runs)" and "\<forall>pass \<in> set ticks. faultless pass"
    and "0 < rtEvaluations settings" and "db_keys db"
    and "\<forall>pass \<in> set ticks. low \<le> cutoff_of settings pass \<and> cutoff_of settings pass \<le> high" and "low \<le> high"
    and "length (expired_rows high db) \<le> length ticks * retentionBatchSize"
  shows "\<forall>r \<in> set (dbEvaluations db'). low \<le> evCreatedAt r"
proof -
  have "expired_rows low db' = []" by (rule runRetention_clears [OF assms(1-6)]) (simp add: assms(7))
  then show ?thesis by (auto simp: expired_rows_def filter_empty_conv time_Before_def)
qed

lemma retention_clears_backlog_witness:
  "list_all (\<lambda>r. 90 \<le> evCreatedAt r)
     (dbEvaluations (fst (runRetention agingSettings [examplePass] (wDB settledWorld))))"
proof -
  obtain db' runs where run: "runRetention agingSettings [examplePass] (wDB settledWorld) = (db', runs)"
    by (metis prod.exhaust)
  have cutoff: "cutoff_of agingSettings examplePass = 90"
    by (simp add: cutoff_of_def agingSettings_def time_Add_def)
  have "length (expired_rows 90 (wDB settledWorld)) \<le> length [examplePass] * retentionBatchSize"
    by (simp add: expired_rows_def settled_run retentionBatchSize_def)
  moreover have "0 < rtEvaluations agingSettings" by (simp add: agingSettings_def)
  ultimately have "\<forall>r \<in> set (dbEvaluations db'). 90 \<le> evCreatedAt r"
    using retention_clears_backlog [OF run _ _ settled_keys, of 90 90] by (simp add: cutoff examplePass_faultless)
  then show ?thesis unfolding run by (simp add: list_all_iff)
qed

section \<open>What the code does not do\<close>

text \<open>
  C22. A key whose record has expired, or whose evaluation is gone, is treated as unused, yet no
  request with that key can succeed while the record is in the table: the insert of the new record
  fails. In the instance below the provider has been called by then.
\<close>

theorem stale_key_blocks_requests:
  assumes "db_keys (wDB w)" and "entry \<in> set (dbIdempotency (wDB w))"
    and "idKeyHash entry = hashKey (ciIdempotencyKey input)" and "ciIdempotencyKey input \<noteq> []"
    and "time_Before (idExpiresAt entry) (seNowReplay se) \<or>
      idEvaluationID entry \<notin> evID ` set (dbEvaluations (wDB w))"
  shows "snd (Create svc se w input) \<noteq> Inr a"
  using assms by (rule Create_stale_key)

lemma stale_key_blocks_requests_witness:
  "(\<forall>a. snd (Create exampleService (exampleSession 100 ''e1'') (keyedWorld 50) (exampleInput 5 ''k'')) \<noteq> Inr a) \<and>
   wCalls (fst (Create exampleService (exampleSession 100 ''e1'') (keyedWorld 50) (exampleInput 5 ''k''))) =
     [buildProviderRequest examplePolicy (exampleInput 5 ''k'')]"
proof -
  let ?entry = "\<lparr>idKeyHash = hashKey ''k'', idCanonicalRequestHash = [], idEvaluationID = ''e0'',
    idExpiresAt = 50, idCreatedAt = 0\<rparr>"
  have "snd (Create exampleService (exampleSession 100 ''e1'') (keyedWorld 50) (exampleInput 5 ''k'')) \<noteq> Inr a" for a
    by (rule stale_key_blocks_requests [where entry = ?entry, OF keyedWorld_keys])
      (simp_all add: keyedWorld_def exampleInput_def exampleSession_def time_Before_def)
  with stale_run(2) show ?thesis by blast
qed

text \<open>
  C23. Deleting feedback together with its evaluation does not keep feedback from outliving it:
  there is a reachable state, with evaluations being retired, in which a feedback row points at an
  evaluation that is gone.
\<close>

theorem feedback_may_outlive_its_evaluation:
  "\<exists>settings s. steps exampleService settings start s \<and>
     \<not> fbEvaluationID ` set (dbFeedback (sysDB s)) \<subseteq> evID ` set (dbEvaluations (sysDB s))"
proof -
  have "\<not> fbEvaluationID ` set (dbFeedback (sysDB dangling)) \<subseteq> evID ` set (dbEvaluations (sysDB dangling))"
    by (simp add: dangling_def agedDB_def)
  with dangling_reachable show ?thesis by blast
qed

text \<open>
  C24. A compile failure wraps a sentinel of the policy package or is the JSON encoder's own error,
  and the latter does occur: a document with a NaN threshold is refused without any sentinel.
\<close>

theorem compile_errors_classified:
  "(\<forall>doc n e. CompileWithMaxQuestions doc n = Inl e \<longrightarrow> e \<in> policy_sentinels \<or> e = marshal_error) \<and>
   (\<exists>doc. CompileWithMaxQuestions (Some doc) 64 = Inl marshal_error) \<and> marshal_error \<notin> policy_sentinels"
  using CompileWithMaxQuestions_Inl nanDoc_fails by (auto simp: policy_sentinels_def marshal_error_def)

lemma compile_errors_classified_witness:
  "marshal_error \<in> policy_sentinels \<or> marshal_error = marshal_error \<and>
     CompileWithMaxQuestions (Some nanDoc) 64 = Inl marshal_error"
  using compile_errors_classified nanDoc_fails by blast

section \<open>Identity, loading and the policy service\<close>

text \<open>
  C25. The canonical form fixes the behaviour: two well-formed policies with the same canonical form
  validate facts alike and return the same verdict in both rule phases.
\<close>

theorem canonical_form_fixes_behaviour:
  assumes "wf_compiled p" and "wf_compiled p'" and "canonicalForm p = canonicalForm p'"
  shows "EvaluatePreRules p facts = EvaluatePreRules p' facts \<and>
    EvaluateDecisionRules p facts answers = EvaluateDecisionRules p' facts answers \<and>
    ValidateFacts p facts = ValidateFacts p' facts"
  using canonicalForm_evaluates [OF assms] by blast

lemma canonical_form_fixes_behaviour_witness:
  "EvaluatePreRules examplePolicy [] = EvaluatePreRules (examplePolicy\<lparr>cCanonical := [], cHash := []\<rparr>) []"
proof -
  have "wf_compiled (examplePolicy\<lparr>cCanonical := [], cHash := []\<rparr>)"
    using examplePolicy_wf wf_parts_frame [where p = examplePolicy and x = "[]" and y = "[]"] by simp
  from canonical_form_fixes_behaviour [OF examplePolicy_wf this] show ?thesis by (simp add: canonicalForm_def)
qed

text \<open>
  C26. REST and MCP are two doors to one pipeline: for the same request both leave the same
  database, provider calls and events of the pipeline for its observer, and REST answers 201 with an evaluation exactly when the
  MCP tool returns that evaluation and it is completed.
\<close>

theorem rest_and_mcp_agree:
  assumes "same_request request requestID input"
    and "CreateEvaluation svc se w request = (w1, reply)" and "evaluate_tool svc se w requestID input = (w2, result)"
  shows "w1 = w2 \<and> (\<forall>ev. reply = Success 201 ev \<longleftrightarrow> result = Inr ev \<and> aeStatus ev = EvaluationStatusCompleted)"
  by (rule surfaces_agree [OF assms])

lemma rest_and_mcp_agree_witness:
  "CreateEvaluation exampleService (exampleSession 0 ''e1'') exampleWorld exampleHttp =
     (settledWorld, Success 201 (evaluationModelToAPI (exampleSession 0 ''e1'') settledRow))"
  using rest_and_mcp_agree [OF exampleTool_same prod.collapse [symmetric] exampleTool_run] settled_completed
  by (simp add: prod_eq_iff)

text \<open>
  C27. Loading a directory is safe: every policy served from it comes from a plain regular file of
  that directory, named without a path separator and with a policy extension, neither a symbolic link
  nor above the size limit, is well formed with its own hash, and answers to its own name and version;
  the loaded set can be served.
\<close>

theorem loaded_policies_come_from_plain_files:
  assumes "LoadDirWithMaxQuestions yaml fs dir maxBytes maxQuestions = Inr (svSet svc)" and "yaml_ok yaml"
  shows "(\<exists>ps. serves svc ps) \<and> (\<forall>r p. Service_Compiled svc r = Inr p \<longrightarrow> cRef p = r \<and> authentic p \<and>
    (\<exists>entries name data. fsReadDir fs dir = Some entries \<and> name \<in> set entries \<and>
       plain_policy_file fs dir name maxBytes data \<and> int (length data) \<le> resolveMaxBytes maxBytes \<and>
       CompileBytesWithMaxQuestions yaml data maxBytes maxQuestions = Inr p))"
proof -
  have "cRef p = r \<and> authentic p \<and> (\<exists>entries name data. fsReadDir fs dir = Some entries \<and> name \<in> set entries \<and>
      plain_policy_file fs dir name maxBytes data \<and> int (length data) \<le> resolveMaxBytes maxBytes \<and>
      CompileBytesWithMaxQuestions yaml data maxBytes maxQuestions = Inr p)" if "Service_Compiled svc r = Inr p" for r p
  proof -
    from that have "Get (svSet svc) r = Some p" by (auto simp: Service_Compiled_def split: option.splits)
    from LoadDir_Inr [OF assms(1) this] show ?thesis using CompileBytes_Inr(1, 3) [OF _ assms(2)] by blast
  qed
  with LoadDir_serves [OF assms] show ?thesis by blast
qed

lemma loaded_policies_come_from_plain_files_witness:
  "\<exists>ps. serves \<lparr>svSet = \<lparr>setByRef = [(cRef examplePolicy, examplePolicy)], setRefs = [cRef examplePolicy]\<rparr>,
     svMaxPolicyBytes = 0, svMaxQuestions = 0\<rparr> ps"
  using loaded_policies_come_from_plain_files [OF exampleDir_loads exampleYaml_ok] by blast

section \<open>The process around the pipeline\<close>

text \<open>
  C31. The service manager finds a start order exactly when the declared dependencies are
  acyclic. The order holds every service once, each in a later group than the dependencies that
  are in the process; a cycle is reported as \<open>ErrCyclicDependency\<close> and nothing else is.
\<close>

theorem start_order_iff_acyclic:
  assumes "registered services"
  shows "case resolveOrder services of
      Inr groups \<Rightarrow> start_order services groups \<and> \<not> cyclic services
    | Inl e \<Rightarrow> e = ErrCyclicDependency \<and> cyclic services"
proof (cases "resolveOrder services")
  case (Inl e)
  then have "e = ErrCyclicDependency \<and> cyclic services" using resolveOrder_fails_iff [OF assms] by blast
  then show ?thesis by (simp add: Inl)
next
  case (Inr groups)
  then show ?thesis using resolveOrder_fails_iff [OF assms] resolveOrder_start_order [OF assms] by auto
qed

lemma start_order_iff_acyclic_witness: "start_order exampleServices exampleGroups \<and> \<not> cyclic exampleServices"
  using start_order_iff_acyclic [OF exampleServices_registered] by (simp add: exampleServices_order)

text \<open>
  C32. However start-up interleaves with the services' goroutines, failures and cancellation, a
  launched service finds every dependency that is in the process launched before it, and ready
  if it signals readiness, unless it has already ended or the context is done.
\<close>

theorem dependencies_start_first:
  assumes "registered (mgServices m)" and "Run cfg m = (m', Inr groups)" and "start_run groups idle s"
    and "x \<in> set (suLaunched s)" and "d \<in> set (present (mgServices m') x)"
  shows "\<exists>y \<in> set (suLaunched s). msName y = d \<and>
    (msNotifiesReady y \<longrightarrow> d \<in> set (suReady s) \<or> d \<in> set (suExited s) \<or> suCancelled s)"
  using launched_after_dependencies [OF assms(3) _ assms(4, 5)] Run_order [OF assms(1, 2)]
  unfolding settled_def by blast

lemma dependencies_start_first_witness: "''db'' \<in> msName ` set (suLaunched bothLaunched) \<and> ''db'' \<in> set (suReady bothLaunched)"
proof -
  have "apiService \<in> set (suLaunched bothLaunched)" by (simp add: bothLaunched_def idle_def)
  moreover have "''db'' \<in> set (present (mgServices (exampleManager\<lparr>mgServices := exampleServices\<rparr>)) apiService)"
    by (simp add: present_def apiService_def exampleServices_def has_key_def)
  ultimately have "\<exists>y \<in> set (suLaunched bothLaunched). msName y = ''db'' \<and> (msNotifiesReady y \<longrightarrow>
      ''db'' \<in> set (suReady bothLaunched) \<or> ''db'' \<in> set (suExited bothLaunched) \<or> suCancelled bothLaunched)"
    by (rule dependencies_start_first [OF exampleManager_runs bothLaunched_reached])
  then show ?thesis by (auto simp: bothLaunched_def idle_def dbService_def apiService_def)
qed

text \<open>
  C33. A failure ends start-up. Once it is signalled, the error channel holds the first error until
  \<open>Run\<close> returns, which it always can, and it returns that error or, the context being done, none;
  no further group is started, at most the rest of a group that was being launched; and the start
  loop can always run to its end instead of waiting for a ready signal that will not come.
\<close>

theorem failure_ends_startup:
  assumes "start_run groups idle s" and "suFailed s"
  shows "(suReturned s = None \<longrightarrow> (\<exists>e. suErrCh s = Some e \<and>
      (\<forall>s'. start_run groups s s' \<longrightarrow> suReturned s' = None \<and> suErrCh s' = Some e \<or>
         suReturned s' = Some (RunFailed e) \<or> suReturned s' = Some RunDone \<and> suCancelled s')) \<and>
      (\<exists>s'. start_run groups s s' \<and> suReturned s' \<noteq> None)) \<and>
    (\<forall>s'. start_run groups s s' \<longrightarrow>
      (\<exists>more rest. suLaunched s' = suLaunched s @ more \<and> suLaunched s' @ rest = concat (take (launchedGroups s) groups)) \<and>
      (suSpawn s = None \<longrightarrow> suLaunched s' = suLaunched s)) \<and>
    (suPhase s = Starting \<longrightarrow> (\<exists>s'. start_run groups s s' \<and> suPhase s' = Started))"
proof (intro conjI impI allI)
  have ok: "start_ok groups s" by (rule reached_ok [OF assms(1)])
  {
    assume open': "suReturned s = None"
    with ok obtain e where e: "suErrCh s = Some e" using assms(2) by (auto simp: start_ok_def)
    have "suReturned s' = None \<and> suErrCh s' = Some e \<or> suReturned s' = Some (RunFailed e) \<or>
        suReturned s' = Some RunDone \<and> suCancelled s'" if run: "start_run groups s s'" for s'
      using first_error_kept [OF run e open'] done_when_cancelled [OF run] open' by auto
    with e show "\<exists>e. suErrCh s = Some e \<and> (\<forall>s'. start_run groups s s' \<longrightarrow> suReturned s' = None \<and> suErrCh s' = Some e \<or>
        suReturned s' = Some (RunFailed e) \<or> suReturned s' = Some RunDone \<and> suCancelled s')" by blast
    show "\<exists>s'. start_run groups s s' \<and> suReturned s' \<noteq> None" by (rule run_returns [OF assms open'])
  }
  fix s' assume run: "start_run groups s s'"
  note after = failed_run [OF run assms(2) ok]
  show "\<exists>more rest. suLaunched s' = suLaunched s @ more \<and> suLaunched s' @ rest = concat (take (launchedGroups s) groups)"
    using after launched_prefix [OF start_ok_run [OF run ok]] by auto
  show "suLaunched s' = suLaunched s" if "suSpawn s = None" using after that by blast
next
  assume "suPhase s = Starting"
  with start_returns [OF reached_ok [OF assms(1)]] assms(2)
  show "\<exists>s'. start_run groups s s' \<and> suPhase s' = Started" by blast
qed

lemma failure_ends_startup_witness:
  "(\<exists>s'. start_run exampleGroups dbFailed s' \<and> suPhase s' = Started \<and> suLaunched s' = [dbService]) \<and>
   (\<exists>s'. start_run exampleGroups dbFailed s' \<and>
      (suReturned s' = Some (RunFailed (Some ErrServicePanic)) \<or> suReturned s' = Some RunDone \<and> suCancelled s'))"
proof -
  have s: "suFailed dbFailed" "suPhase dbFailed = Starting" "suErrCh dbFailed = Some (Some ErrServicePanic)"
    "suLaunched dbFailed = [dbService]" "suReturned dbFailed = None" "suSpawn dbFailed = None"
    by (simp_all add: dbFailed_def dbLaunched_def idle_def)
  note all = failure_ends_startup [OF dbFailed_reached s(1)]
  from all s obtain s1 where s1: "start_run exampleGroups dbFailed s1" "suPhase s1 = Started" by blast
  then have "suLaunched s1 = [dbService]" using all s(4, 6) by simp
  from all s(5) obtain s2 where s2: "start_run exampleGroups dbFailed s2" "suReturned s2 \<noteq> None" by blast
  from all s(5) obtain e where e: "suErrCh dbFailed = Some e" "\<forall>s'. start_run exampleGroups dbFailed s' \<longrightarrow>
      suReturned s' = None \<and> suErrCh s' = Some e \<or> suReturned s' = Some (RunFailed e) \<or> suReturned s' = Some RunDone \<and> suCancelled s'"
    by blast
  then have "suReturned s2 = Some (RunFailed (Some ErrServicePanic)) \<or> suReturned s2 = Some RunDone \<and> suCancelled s2"
    using s(3) s2 by (metis option.inject)
  with s1 s2 \<open>suLaunched s1 = [dbService]\<close> show ?thesis by blast
qed

text \<open>
  C34. Stopping after start-up has returned stops exactly the launched services, group by group in
  the reverse of the start order: a service is stopped in an earlier group than what it depends on.
\<close>

theorem stop_reverses_start:
  assumes "registered (mgServices m)" and "Run cfg m = (m', Inr groups)" and "start_run groups idle s"
    and "suPhase s = Started" and "suStopped s = None"
  shows "\<exists>gs. suStopped (Stop s) = Some gs \<and> set (concat gs) = set (suLaunched s) \<and>
    (\<forall>i < length gs. \<forall>x \<in> set (gs ! i). \<forall>d \<in> set (present (mgServices m') x).
       \<exists>j < length gs. i < j \<and> d \<in> msName ` set (gs ! j))"
  using stop_reverses [OF assms(3) _ assms(4, 5)] Run_order [OF assms(1, 2)] by blast

lemma stop_reverses_start_witness:
  "\<exists>gs. suStopped (Stop allStarted) = Some gs \<and> set (concat gs) = {dbService, apiService}"
proof -
  have "suPhase allStarted = Started" "suStopped allStarted = None"
    by (simp_all add: allStarted_def bothLaunched_def idle_def)
  from stop_reverses_start [OF exampleManager_runs allStarted_reached this] show ?thesis
    by (auto simp: allStarted_def bothLaunched_def idle_def)
qed

text \<open>
  C35. A service is run at least once and at most once more than its retries. Every attempt but
  the last failed with the context alive; the last one succeeded, or met a done context, or is
  the last allowed one and its error is what is reported. A negative retry count runs nothing and
  reports a failure without an error.
\<close>

theorem service_attempts_bounded:
  assumes "in_int64 (maxRetries s + 1)" and "runService s w = (n, r)"
  shows "(0 \<le> maxRetries s \<longrightarrow>
      0 < n \<and> int n \<le> maxRetries s + 1 \<and> (\<forall>i < n - 1. persistent w i \<and> waitRetryDelay s w i) \<and>
      (case r of
         ExitedCleanly \<Rightarrow> safeRun (swRun w (n - 1)) = None
       | ContextCancelled \<Rightarrow> safeRun (swRun w (n - 1)) \<noteq> None \<and> (swCancelled w (n - 1) \<or> \<not> waitRetryDelay s w (n - 1))
       | Failed e \<Rightarrow> int n = maxRetries s + 1 \<and> e \<noteq> None \<and> e = safeRun (swRun w (n - 1)))) \<and>
    (maxRetries s < 0 \<longrightarrow> n = 0 \<and> r = Failed None)"
proof (cases "0 \<le> maxRetries s")
  case True
  define k where "k = nat (maxRetries s + 1)"
  have "runAttempts s w k 0 None = (n, r)" "int (0 + k) = maxRetries s + 1" "0 < k"
    using assms True by (simp_all add: runService_def wrap64_exact k_def)
  from runAttempts_ends [OF this] True show ?thesis by (cases r) (auto simp: persistent_def k_def)
next
  case False
  then show ?thesis using assms by (auto simp: runService_def wrap64_exact)
qed

lemma service_attempts_bounded_witness:
  "fst (runService apiService brokenWorld) = 3 \<and> persistent brokenWorld 0 \<and> persistent brokenWorld 1"
proof -
  have "in_int64 (maxRetries apiService + 1)" "0 \<le> maxRetries apiService"
    by (simp_all add: in_int64_def minInt_def maxInt_def maxRetries_def apiService_def)
  with service_attempts_bounded [OF _ broken_api] have "\<forall>i < 3 - 1. persistent brokenWorld i" by blast
  then show ?thesis by (simp add: broken_api)
qed

text \<open>
  C36. Retained input round-trips: a generated data key is accepted, the sealer built from it is
  enabled, and whatever it seals opens to the same bytes. The cipher is one that inverts its own
  sealing, and the random source fills what it is asked for.
\<close>

theorem sealed_input_opens:
  assumes "gcm_cipher newGCM" and "fills rand" and "GenerateDataKey rand = Inr key"
  shows "\<exists>s. NewSealer newGCM key = Inr s \<and> Enabled s \<and>
    (\<forall>p sealed. Seal rand s p = Inr (Some sealed) \<longrightarrow> Open s sealed = Inr p)"
proof -
  obtain s where s: "NewSealer newGCM key = Inr s" "Enabled s" using generated_key_accepted [OF assms] by blast
  then show ?thesis using Seal_Open [OF assms(1, 2) s(1)] by blast
qed

lemma sealed_input_opens_witness:
  "\<exists>s sealed. NewSealer plainCipher (EncodeToString (replicate 32 CHR ''0'')) = Inr s \<and>
     Seal zeros s ''secret'' = Inr (Some sealed) \<and> Open s sealed = Inr ''secret''"
proof -
  have "GenerateDataKey zeros = Inr (EncodeToString (replicate 32 CHR ''0''))"
    by (simp add: GenerateDataKey_def zeros_def DataKeyBytes_def)
  from sealed_input_opens [OF plainCipher_ok this] obtain s
    where s: "NewSealer plainCipher (EncodeToString (replicate 32 CHR ''0'')) = Inr s" "Enabled s"
      "\<forall>p sealed. Seal zeros s p = Inr (Some sealed) \<longrightarrow> Open s sealed = Inr p" by blast
  moreover from s(2) obtain sealed where "Seal zeros s ''secret'' = Inr (Some sealed)"
    by (auto simp: Enabled_def Seal_def zeros_def)
  ultimately show ?thesis by blast
qed

text \<open>
  C37. The TypeSafe client makes between one and the configured number of attempts, numbered in
  order. It tries again only after a transport failure, a rate limit, an overload or a server
  error, with the context alive and both the elapsed time and the planned wait within the budget;
  it ends with the response of the last attempt, its error, or the error that stopped the wait.
\<close>

theorem client_retries_bounded:
  assumes "tsNew newClient config = Inr c" and "evaluateWithRetries c w = (attempts, r)"
  shows "\<exists>k. 1 \<le> k \<and> k \<le> tcMaxAttempts c \<and> map atNumber attempts = [1..k] \<and>
    (\<forall>i. 1 \<le> i \<and> i < k \<longrightarrow> retried c w i \<and> worth_retrying (attempts ! nat (i - 1))) \<and> ends_with c w k attempts r"
  using evaluateWithRetries_shape [OF _ assms(2)] tsNew_complete [OF assms(1)] by blast

lemma client_retries_bounded_witness:
  "worth_retrying (fst (evaluateWithRetries exampleClient recovering) ! 0)"
proof -
  let ?as = "fst (evaluateWithRetries exampleClient recovering)"
  have len: "length ?as = 2" using arg_cong [OF recovering_run(1), of length] by simp
  obtain k where k: "1 \<le> k" "map atNumber ?as = [1..k]"
    "\<forall>i. 1 \<le> i \<and> i < k \<longrightarrow> retried exampleClient recovering i \<and> worth_retrying (?as ! nat (i - 1))"
    using client_retries_bounded [OF exampleClient_new, of recovering ?as "snd (evaluateWithRetries exampleClient recovering)"]
    by auto
  have "k = 2" using arg_cong [OF k(2), of length] len by simp
  then show ?thesis using k(3) [rule_format, of 1] by simp
qed

text \<open>
  C38. The reply to a create request follows the core. A success is 201 and only for a completed
  evaluation; when it is new, its outcome is one the policy declares. An evaluation recorded
  without an outcome is an error reply that names the evaluation, and a refusal is one of the
  declared failure statuses and carries no details.
\<close>

theorem create_reply_follows_core:
  assumes "crqBody request = Some body" and "CreateEvaluation svc se w request = (w', reply)"
    and "service_ok svc" and "db_keys (wDB w)"
  shows "case Create svc se w (createInputFromRequest request body) of
      (w1, Inr ev) \<Rightarrow> w' = w1 \<and>
        (if aeStatus ev = EvaluationStatusCompleted
         then reply = Success 201 ev \<and>
           (w' \<noteq> w \<longrightarrow> (\<exists>compiled pk. resolvePolicy svc (createInputFromRequest request body) = Inr (compiled, pk) \<and>
              aeOutcome ev \<in> set (cOutcomes compiled)))
         else \<exists>s b. reply = Failed_reply s b \<and> s \<in> {422, 502, 503, 504} \<and>
           map_of (erDetails b) ''evaluationId'' = Some (aeId ev))
    | (w1, Inl e) \<Rightarrow> w' = w1 \<and> (\<exists>s b. reply = Failed_reply s b \<and> s \<in> declared_failures \<and> erDetails b = [])"
  using assms(1)
proof (cases rule: CreateEvaluation_reply [where svc = svc and se = se and w = w])
  case (Decided w1 ev)
  have "\<exists>compiled pk. resolvePolicy svc (createInputFromRequest request body) = Inr (compiled, pk) \<and>
      aeOutcome ev \<in> set (cOutcomes compiled)" if new: "w1 \<noteq> w"
  proof -
    obtain compiled pk r where r: "resolvePolicy svc (createInputFromRequest request body) = Inr (compiled, pk)"
      "row_of compiled r" "ev = evaluationModelToAPI se r"
      by (rule Create_records [OF Decided(1) assms(3, 4) new]) blast
    with Decided(2) have "completed_row compiled r"
      by (auto simp: row_of_def failed_row_def evaluationModelToAPI_def Let_def EvaluationStatusCompleted_def
          EvaluationStatusProviderFailed_def)
    with r show ?thesis by (auto simp: completed_row_def evaluationModelToAPI_def Let_def)
  qed
  with Decided assms(2) show ?thesis by simp
qed (use assms(2) in auto)

lemma create_reply_follows_core_witness:
  "CreateEvaluation exampleService (exampleSession 0 ''e1'') exampleWorld exampleHttp =
     (settledWorld, Success 201 (evaluationModelToAPI (exampleSession 0 ''e1'') settledRow))"
proof -
  let ?r = "CreateEvaluation exampleService (exampleSession 0 ''e1'') exampleWorld exampleHttp"
  have "crqBody exampleHttp = Some (the (crqBody exampleHttp))" by (simp add: exampleHttp_def)
  from create_reply_follows_core [OF this prod.collapse [symmetric, of ?r] exampleService_ok exampleWorld_keys]
  show ?thesis by (simp add: exampleHttp_input settled_run(1) settled_completed prod_eq_iff)
qed

text \<open>
  C39. An API handler runs only for an admitted request: within the rate limit, with the
  configured bearer token, and on the strict routes with a body within the limit that decodes.
  Otherwise the reply does not depend on the handler, is 429, 401, 413 or 400, and the database and
  the provider are untouched. No panic, of the handler or of an observation, gets past the chain.
\<close>

theorem handler_runs_only_when_admitted:
  "(\<forall>h. \<not> snd (apiMiddleware cfg allow decodes isUUID newID seconds h r (startWriter world m))) \<and>
   (admitted cfg allow r \<and> well_shaped cfg decodes r \<or>
    (\<exists>w' status code. status \<in> {429, 401, 413, 400} \<and> wrReply w' = Some (status, code) \<and> wrWorld w' = world \<and>
       (\<forall>h. apiMiddleware cfg allow decodes isUUID newID seconds h r (startWriter world m) = (w', False))))"
proof -
  have "\<exists>w' status code. status \<in> {429, 401, 413, 400} \<and> wrReply w' = Some (status, code) \<and> wrWorld w' = world \<and>
       (\<forall>h. apiMiddleware cfg allow decodes isUUID newID seconds h r (startWriter world m) = (w', False))"
    if "\<not> (admitted cfg allow r \<and> well_shaped cfg decodes r)"
    by (rule refused_reply [OF that]) blast
  then show ?thesis by (auto simp: api_is_guarded)
qed

text \<open>
  C40. A mistake in an inline policy is answered as a fault of the server: every compile error
  but an oversized document leaves the caller with status 500 and the code of an internal error.
\<close>

theorem inline_policy_mistakes_reply_500:
  assumes "crqBody request = Some body" and "cbPolicyRef body = None" and "cbInlinePolicy body = Some document"
    and "document \<noteq> []" and "cfgAllowInlinePolicies (svcConfig svc)"
    and "compileInline (svcYaml svc) document (cfgMaxPolicyBytes (svcConfig svc)) (cfgMaxQuestions (svcConfig svc)) = Inl e"
    and "e \<in> policy_sentinels - {ErrPolicyTooLarge, ErrProviderProtocol}"
  shows "\<exists>b. CreateEvaluation svc se w request = (w, Failed_reply 500 b) \<and> erCode b = ''INTERNAL_SERVER_ERROR''"
proof -
  have "Create svc se w (createInputFromRequest request body) = (w, Inl e)"
    using assms by (simp add: Create_def createBegin_def resolvePolicy_def createInputFromRequest_def entries_def)
  moreover have "classify [e] = newFailure 500 ''INTERNAL_SERVER_ERROR'' ''the request could not be completed''"
    using assms(7) by (auto simp: classify_def classifyProvider_def policy_sentinels_def)
  ultimately show ?thesis using assms(1)
    by (simp add: CreateEvaluation_def createEvaluationFailure_def createEvaluationClientFailure_def
        createEvaluationUpstreamFailure_def statusClientClosedRequest_def)
qed

lemma inline_policy_mistakes_reply_500_witness:
  "\<exists>b. CreateEvaluation inlineService (exampleSession 0 ''e1'') exampleWorld inlineHttp = (exampleWorld, Failed_reply 500 b)"
proof -
  have "crqBody inlineHttp = Some (the (crqBody inlineHttp))" "cbPolicyRef (the (crqBody inlineHttp)) = None"
    "cbInlinePolicy (the (crqBody inlineHttp)) = Some [(''kind'', VString ''?'')]"
    "cfgAllowInlinePolicies (svcConfig inlineService)" "[(''kind'', VString ''?'')] \<noteq> []"
    "ErrInvalidDocument \<in> policy_sentinels - {ErrPolicyTooLarge, ErrProviderProtocol}"
    by (simp_all add: inlineHttp_def inlineService_def policy_sentinels_def)
  from inline_policy_mistakes_reply_500 [OF this(1-3, 5, 4) inline_fails this(6)] show ?thesis by blast
qed

section \<open>Observation and shutdown\<close>

text \<open>
  C28. Every request to an API route is accounted for or refused outright, and gets a reply. One
  whose parameters bind is counted once, under its method, route and reply status, unless its handler
  panicked, when it is not counted, or the body of its reply could not be written, when it is counted
  as an internal error although the reply had another status. In each case the number in flight is
  back and every log entry carries its request identifier. One whose parameters do not bind gets
  status 400 from the error handler alone: no security headers, no request identifier, no count,
  whatever its credentials and the rate limit.
\<close>

theorem api_requests_accounted_for:
  assumes "hqPattern r \<in> api_patterns" and "metrics_ok m" and "validUTF8 (hqMethod r)"
  shows "\<exists>w' status code. Router_Handler env r (startWriter world m) = (w', False) \<and> wrReply w' = Some (status, code) \<and>
    (if binds env r
     then ggValue (httpInFlight (wrMetrics w')) = ggValue (httpInFlight m) \<and>
       scoped (sanitiseRequestID (reIsUUID env) (reNewID env) (hqRequestIDHeader r)) w' \<and>
       (let counted = (\<lambda>s. (reading (httpRequests m))
            ([hqMethod r, hqPattern r, Itoa s] := reading (httpRequests m) [hqMethod r, hqPattern r, Itoa s] + 1)) in
        reading (httpRequests (wrMetrics w')) = counted status \<or>
        reading (httpRequests (wrMetrics w')) = counted 500 \<and> reSending env = WritingFails \<and>
          ResponseFailed \<in> snd ` set (wrLog w') \<or>
        reading (httpRequests (wrMetrics w')) = reading (httpRequests m) \<and> HandlerPanicked \<in> snd ` set (wrLog w'))
     else wrReply w' = Some (400, ''BAD_REQUEST'') \<and> wrHeaders w' = [(''Content-Type'', ''application/json'')] \<and>
       wrMetrics w' = m \<and> wrWorld w' = world \<and> wrLog w' = [(hqScopeID r, RejectedAtBinding)])"
proof (cases "binds env r")
  case True
  show ?thesis
  proof (rule api_request_observed [OF assms(1) True assms(2, 3), of world])
    fix w' status code
    assume "Router_Handler env r (startWriter world m) = (w', False)" "wrReply w' = Some (status, code)"
      "ggValue (httpInFlight (wrMetrics w')) = ggValue (httpInFlight m)"
      "scoped (sanitiseRequestID (reIsUUID env) (reNewID env) (hqRequestIDHeader r)) w'"
      "let counted = (\<lambda>s. (reading (httpRequests m))
          ([hqMethod r, hqPattern r, Itoa s] := reading (httpRequests m) [hqMethod r, hqPattern r, Itoa s] + 1)) in
        reading (httpRequests (wrMetrics w')) = counted status \<or>
        reading (httpRequests (wrMetrics w')) = counted 500 \<and> reSending env = WritingFails \<and>
          ResponseFailed \<in> snd ` set (wrLog w') \<or>
        reading (httpRequests (wrMetrics w')) = reading (httpRequests m) \<and> HandlerPanicked \<in> snd ` set (wrLog w')"
    then show ?thesis unfolding if_P [OF True] by (intro exI [of _ w'] exI [of _ status] exI [of _ code] conjI)
  qed
next
  case False
  then show ?thesis
    using Router_unbound [OF assms(1) False] by (simp add: unbound_reply)
qed

lemma api_requests_accounted_for_witness:
  "\<exists>m w1 w2. New = Some m \<and> Router_Handler exampleEnv exampleReq (startWriter exampleWorld m) = (w1, False) \<and>
     ggValue (httpInFlight (wrMetrics w1)) = 0 \<and>
     Router_Handler exampleEnv (exampleReq\<lparr>hqIdempotencyKey := Some [''kk'']\<rparr>) (startWriter exampleWorld m) = (w2, False) \<and>
     wrReply w2 = Some (400, ''BAD_REQUEST'')"
proof -
  obtain m where m: "New = Some m" "metrics_ok m" "ggValue (httpInFlight m) = 0" using New_registers by blast
  have utf: "validUTF8 (hqMethod (exampleReq\<lparr>hqIdempotencyKey := Some [''kk'']\<rparr>))" using exampleReq_binds(3) by simp
  obtain w1 where w1: "Router_Handler exampleEnv exampleReq (startWriter exampleWorld m) = (w1, False)"
    "ggValue (httpInFlight (wrMetrics w1)) = 0"
    using api_requests_accounted_for [OF exampleReq_binds(1) m(2) exampleReq_binds(3), of exampleEnv exampleWorld]
      exampleReq_binds(2) m(3) by auto
  obtain w2 where w2: "Router_Handler exampleEnv (exampleReq\<lparr>hqIdempotencyKey := Some [''kk'']\<rparr>) (startWriter exampleWorld m) = (w2, False)"
    "wrReply w2 = Some (400, ''BAD_REQUEST'')"
    using api_requests_accounted_for [OF exampleReq_binds(4) m(2) utf, of exampleEnv exampleWorld] exampleReq_binds(5) by auto
  show ?thesis using m(1) w1 w2 by blast
qed

text \<open>
  C29. The server shuts down in order, whatever arrives meanwhile: a listener is shut down only when
  readiness already fails and the retention loop has ended, and the database is closed only after
  both listeners; a run that returns no error has no request left in flight; and from any state with
  a reason to stop, the run can be brought to its end with the database closed.
\<close>

theorem server_shuts_down_in_order:
  assumes "server_run running s"
  shows "(lsShut (srPublic s) \<or> lsShut (srInternal s) \<longrightarrow> srShuttingDown s \<and> srRetentionEnded s) \<and>
    (\<not> srOpen s \<longrightarrow> lsShut (srPublic s) \<and> lsShut (srInternal s) \<and> srStage s = Finished) \<and>
    (srResult s = Some None \<longrightarrow> srInFlight s = 0 \<and> \<not> lsAccepting (srPublic s) \<and> \<not> srOpen s) \<and>
    (stop_due s \<longrightarrow> (\<exists>s'. server_run s s' \<and> srStage s' = Finished \<and> srResult s' \<noteq> None \<and> \<not> srOpen s'))"
  using shutdown_ordered(1, 2) [OF assms] clean_result(1-3) [OF assms] stop_completes [OF reached_server [OF assms]] by blast

lemma server_shuts_down_in_order_witness:
  "\<exists>s'. server_run (running\<lparr>srCtxDone := True\<rparr>) s' \<and> srStage s' = Finished \<and> \<not> srOpen s'"
proof -
  have run: "server_run running (running\<lparr>srCtxDone := True\<rparr>)"
    by (rule server_run.Step [OF server_run.Refl]) (rule server_step.Cancel)
  have "stop_due (running\<lparr>srCtxDone := True\<rparr>)" by (simp add: stop_due_def)
  then show ?thesis using server_shuts_down_in_order [OF run] by blast
qed

text \<open>
  C30. A request to the pipeline is observed faithfully: with a provider that reports countable
  tokens, replaying its events on the instruments never panics, leaves the number of provider calls
  in flight where it was, and counts a decision exactly when an evaluation was recorded, under the
  policy kind, outcome and path of its row.
\<close>

theorem decisions_counted_as_recorded:
  assumes "Create svc se w input = (w', result)" and "service_ok svc" and "svcObserved svc" and "countable_replies svc"
    and "metrics_ok m"
  shows "\<exists>es. wEvents w' = wEvents w @ es \<and> \<not> snd (observeAll observe es m) \<and>
    ggValue (providerInFlight (fst (observeAll observe es m))) = ggValue (providerInFlight m) \<and>
    (dbEvaluations (wDB w') = dbEvaluations (wDB w) \<and>
        reading (evaluations (fst (observeAll observe es m))) = reading (evaluations m) \<or>
     (\<exists>r. dbEvaluations (wDB w') = dbEvaluations (wDB w) @ [r] \<and>
        reading (evaluations (fst (observeAll observe es m))) =
          (reading (evaluations m))(decision_labels r := reading (evaluations m) (decision_labels r) + 1)))"
  by (rule Create_observed [OF assms]) blast

lemma decisions_counted_as_recorded_witness:
  "\<exists>m es. New = Some m \<and> wEvents settledWorld = wEvents exampleWorld @ es \<and>
     reading (evaluations (fst (observeAll observe es m))) =
       (reading (evaluations m))(decision_labels settledRow := reading (evaluations m) (decision_labels settledRow) + 1)"
proof -
  obtain m where m: "New = Some m" "metrics_ok m" using New_registers by blast
  have "svcObserved exampleService" by (simp add: exampleService_def)
  moreover have "dbEvaluations (wDB settledWorld) = [settledRow]" "dbEvaluations (wDB exampleWorld) = []"
    by (simp_all add: settled_run exampleWorld_def start_def)
  ultimately show ?thesis
    using decisions_counted_as_recorded [OF settled_run(1) exampleService_ok _ example_countable m(2)] m(1) by auto
qed

section \<open>Further facts\<close>

text \<open>
  The policy set is an exact index: building succeeds exactly when no two policies share name
  and version, a lookup finds exactly the policy with that name and version, listing is sorted and
  complete, and an unknown reference is not found.
\<close>

theorem policy_set_is_exact_index:
  assumes "serves svc ps"
  shows "(\<forall>r c. Service_Compiled svc r = Inr c \<longleftrightarrow> c \<in> set ps \<and> cRef c = r) \<and>
    (\<forall>r e. Service_Compiled svc r = Inl e \<longleftrightarrow> e = ErrNotFound \<and> r \<notin> cRef ` set ps) \<and>
    set (Service_List svc) = CompiledToAPI ` set ps \<and> length (Service_List svc) = length ps \<and>
    sorted (map (\<lambda>p. (apName p, apVersion p)) (Service_List svc)) \<and> distinct (map cRef ps)"
proof -
  have "distinct (map cRef ps)" using assms loaded.build_iff [of ps] by (auto simp: serves_def)
  then show ?thesis using Service_Compiled_iff [OF assms] Service_List_covers [OF assms] by simp
qed

lemma policy_set_is_exact_index_witness:
  "length (Service_List examplePolicies) = 1"
  using policy_set_is_exact_index [OF examplePolicies_serve] by simp

text \<open>
  The walk over structured instructions and criteria accepts exactly the values within the
  ceilings: JSON shaped, at most the maximal number of nodes and no deeper than the maximal depth;
  and it returns the number of nodes it saw.
\<close>

theorem question_value_walk_bounds:
  "validateQuestionValue v depth nodes = Inr m \<longleftrightarrow> json_shaped v \<and> m = nodes + value_nodes v \<and>
     m \<le> MaxQuestionValueNodes \<and> depth + value_height v \<le> MaxQuestionValueDepth"
  by (rule validateQuestionValue_iff)

text \<open>
  The identity of a request for idempotency does not depend on the order in which its fact and
  metadata maps are enumerated.
\<close>

theorem request_hash_order_independent:
  assumes "same_gomap facts facts'" and "same_gomap metadata metadata'"
  shows "canonicalRequestHash policyHash (input\<lparr>ciFacts := Some facts, ciMetadata := Some metadata\<rparr>) =
    canonicalRequestHash policyHash (input\<lparr>ciFacts := Some facts', ciMetadata := Some metadata'\<rparr>)"
  using assms by (rule canonicalRequestHash_order)

lemma request_hash_order_independent_witness:
  "canonicalRequestHash [] ((exampleInput 1 [])\<lparr>ciFacts := Some [(''a'', VInt 1), (''b'', VInt 2)], ciMetadata := Some []\<rparr>) =
   canonicalRequestHash [] ((exampleInput 1 [])\<lparr>ciFacts := Some [(''b'', VInt 2), (''a'', VInt 1)], ciMetadata := Some []\<rparr>)"
  by (rule request_hash_order_independent) (simp_all add: same_gomap_def gomap_ok_def)

end
